theory Spec2Isabelle
  imports Complex_Main "HOL-Library.Monad_Syntax"
begin

section \<open>Kudryavtsev's analytical permafrost model\<close>

text \<open>
  The notebook \<^verbatim>\<open>Kudryavtsev_permafrost_model.ipynb\<close> is a straight-line Python 2 script
  over a global namespace. Every assigned variable of the script becomes a function of the
  variables its right-hand side reads; a primed parameter \<open>X'\<close> carries the value of the
  source variable \<open>X\<close>.

  Numbers. The script mixes two kinds of floating-point values:
  \<^item> Python floats (the literals and everything computed from them with \<open>+ - * / **\<close>
    alone). A Python float division by zero raises \<^verbatim>\<open>ZeroDivisionError\<close>. They are
    modelled as \<open>real\<close>, and each division by a variable is guarded.
  \<^item> \<^verbatim>\<open>numpy.float64\<close> values (everything that has passed through \<^verbatim>\<open>np.arcsin\<close>,
    \<^verbatim>\<open>np.log\<close>, \<^verbatim>\<open>np.sqrt\<close>, \<^verbatim>\<open>np.exp\<close>, \<^verbatim>\<open>np.cos\<close>). numpy never raises:
    outside the domain of an operation it yields \<^verbatim>\<open>nan\<close> or an infinity (and prints a
    warning), and the script goes on. They are modelled as \<open>real option\<close>, where \<open>None\<close>
    stands for a value that is not a finite real; \<open>None\<close> propagates through arithmetic
    as \<^verbatim>\<open>nan\<close> does, and every comparison with it is false.

  Infinities. A numpy division by zero yields an infinity, and so does \<^verbatim>\<open>np.log(0.)\<close>.
  An infinity is not always absorbing as \<^verbatim>\<open>nan\<close> is: \<^verbatim>\<open>np.exp(-inf)\<close> is \<open>0\<close> and
  \<^verbatim>\<open>x/inf\<close> is \<open>0\<close> for a finite \<open>x\<close>. The script has three expressions in which an
  infinity comes back to a finite number this way: the vegetation factors of
  \<^verbatim>\<open>deta_A1\<close> and \<^verbatim>\<open>deta_A2\<close>, the quotient of \<^verbatim>\<open>Cef\<close> and the quotient of \<^verbatim>\<open>Aps\<close>.
  Their definitions below treat the zero divisor and the zero argument of the logarithm as
  separate cases and give the value numpy gives. Everywhere else an infinity, once it
  has arisen, leads to a value that is not finite in every variable computed from it, so
  that \<open>None\<close> is the right result. A zero of the model stands for \<^verbatim>\<open>+0.0\<close>, and a product
  that is zero has the sign of its factors (\<^verbatim>\<open>pi/-0.0\<close> is \<^verbatim>\<open>-inf\<close>).

  Arithmetic is exact real arithmetic: rounding and overflow of IEEE doubles are not part
  of the model, and in a result the two infinities are not told apart from \<^verbatim>\<open>nan\<close>.
\<close>

type_synonym float64 = "real option"

datatype error = ZeroDivisionError

definition np_div :: "real \<Rightarrow> real \<Rightarrow> float64" where
  "np_div x y = (if y = 0 then None else Some (x / y))"

definition np_sqrt :: "real \<Rightarrow> float64" where
  "np_sqrt x = (if x < 0 then None else Some (sqrt x))"

definition np_log :: "real \<Rightarrow> float64" where
  "np_log x = (if x \<le> 0 then None else Some (ln x))"

definition np_arcsin :: "real \<Rightarrow> float64" where
  "np_arcsin x = (if \<bar>x\<bar> \<le> 1 then Some (arcsin x) else None)"

definition np_le :: "float64 \<Rightarrow> real \<Rightarrow> bool" where
  \<comment> \<open>\<^verbatim>\<open>x <= y\<close> on a \<^verbatim>\<open>numpy.float64\<close>: false when \<open>x\<close> is \<^verbatim>\<open>nan\<close>\<close>
  "np_le x y = (case x of None \<Rightarrow> False | Some a \<Rightarrow> a \<le> y)"

text \<open>
  The expression \<^verbatim>\<open>np.exp(-1.*H*np.sqrt(np.pi/(D*2.*t)))\<close>, which occurs in \<^verbatim>\<open>deta_A1\<close>
  and in \<^verbatim>\<open>deta_A2\<close>; the divisor \<^verbatim>\<open>D*2.*t\<close> is a \<^verbatim>\<open>numpy.float64\<close>. For a divisor
  other than zero it is the exponential of the root, or \<^verbatim>\<open>nan\<close> for a negative quotient.
  For a zero divisor:
  \<^item> if \<open>D\<close> or \<open>t\<close> is negative the divisor is \<^verbatim>\<open>-0.0\<close>, the quotient \<^verbatim>\<open>-inf\<close> and its
    root \<^verbatim>\<open>nan\<close>;
  \<^item> otherwise the quotient and its root are \<^verbatim>\<open>inf\<close>; for \<open>H > 0\<close> the argument of
    \<^verbatim>\<open>np.exp\<close> is \<^verbatim>\<open>-inf\<close> and the value \<open>0\<close>; for \<open>H = 0\<close> the product \<^verbatim>\<open>0*inf\<close> is
    \<^verbatim>\<open>nan\<close>; for \<open>H < 0\<close> the value is \<^verbatim>\<open>inf\<close>.
\<close>

definition np_exp_sqrt_div :: "real \<Rightarrow> real \<Rightarrow> real \<Rightarrow> float64" where
  "np_exp_sqrt_div H D t =
     (if D * 2 * t = 0
      then (if D < 0 \<or> t < 0 then None else if 0 < H then Some 0 else None)
      else do { q \<leftarrow> np_div pi (D * 2 * t); r \<leftarrow> np_sqrt q; Some (exp (- 1 * H * r)) })"


subsection \<open>Inputs and the table of soil classes (cell 2)\<close>

record inputs =
  rho_sn :: real
  Hvg1 :: real
  Hvg2 :: real
  Dvf :: real
  Dvt :: real
  Ta :: real
  Aa :: real
  Hsn :: real
  W_vol :: real
  percent_silt :: real
  percent_sand :: real
  percent_clay :: real

definition Bulk_Density_Silt :: real where "Bulk_Density_Silt = 1400"
definition Heat_Capacity_Silt :: real where "Heat_Capacity_Silt = 730"
definition Bulk_Density_Sand :: real where "Bulk_Density_Sand = 1300"
definition Heat_Capacity_Sand :: real where "Heat_Capacity_Sand = 690"
definition Bulk_Density_Clay :: real where "Bulk_Density_Clay = 1500"
definition Heat_Capacity_Clay :: real where "Heat_Capacity_Clay = 900"

text \<open>
  The conductivities are assigned twice in the script: first the wet value, then the mean
  of the dry and the wet value. The definitions give the final values.
\<close>

definition Kf_Silt :: real where "Kf_Silt = (1.25 + 2.40) / 2"
definition Kt_Silt :: real where "Kt_Silt = (1.05 + 1.90) / 2"
definition Kf_Sand :: real where "Kf_Sand = (1.25 + 2.65) / 2"
definition Kt_Sand :: real where "Kt_Sand = (1.05 + 2.15) / 2"
definition Kf_Clay :: real where "Kf_Clay = (1.15 + 2.00) / 2"
definition Kt_Clay :: real where "Kt_Clay = (0.90 + 1.70) / 2"

text \<open>
  Python's \<^verbatim>\<open>x ** y\<close> on floats with a positive base \<open>x\<close> is \<open>x powr y\<close>; all bases
  below are the positive constants of the table.
\<close>

definition Heat_Capacity :: "real \<Rightarrow> real \<Rightarrow> real \<Rightarrow> real" where
  "Heat_Capacity percent_clay' percent_sand' percent_silt' =
     Heat_Capacity_Clay powr percent_clay' *
     Heat_Capacity_Sand powr percent_sand' *
     Heat_Capacity_Silt powr percent_silt'"

definition Bulk_Density :: "real \<Rightarrow> real \<Rightarrow> real \<Rightarrow> real" where
  "Bulk_Density percent_clay' percent_sand' percent_silt' =
     Bulk_Density_Clay powr percent_clay' *
     Bulk_Density_Sand powr percent_sand' *
     Bulk_Density_Silt powr percent_silt'"


subsection \<open>Soil and snow properties, season lengths (cell 3)\<close>

definition Ct :: "real \<Rightarrow> real \<Rightarrow> real \<Rightarrow> real" where
  "Ct Heat_Capacity' Bulk_Density' W_vol' = Heat_Capacity' * Bulk_Density' + 4190 * W_vol'"

definition Cf :: "real \<Rightarrow> real \<Rightarrow> real \<Rightarrow> real" where
  "Cf Heat_Capacity' Bulk_Density' W_vol' = Heat_Capacity' * Bulk_Density' + 2025 * W_vol'"

definition Kt :: "real \<Rightarrow> real \<Rightarrow> real \<Rightarrow> real" where
  "Kt percent_silt' percent_clay' percent_sand' =
     Kt_Silt powr percent_silt' * Kt_Clay powr percent_clay' * Kt_Sand powr percent_sand'"

definition Kf :: "real \<Rightarrow> real \<Rightarrow> real \<Rightarrow> real" where
  "Kf percent_silt' percent_clay' percent_sand' =
     Kf_Silt powr percent_silt' * Kf_Clay powr percent_clay' * Kf_Sand powr percent_sand'"

definition Ksn :: "real \<Rightarrow> real" where
  "Ksn rho_sn' =
     (rho_sn' / 1000) * (rho_sn' / 1000) * 3.233 - 1.01 * (rho_sn' / 1000) + 0.138"

definition Csn :: "real \<Rightarrow> real" where
  "Csn rho_sn' = rho_sn' * 2090"

definition tao :: real where
  "tao = 365 * 24 * 3600"

definition tao1 :: "real \<Rightarrow> real \<Rightarrow> error + float64" where
  \<comment> \<open>cold season; \<^verbatim>\<open>Ta/Aa\<close> is a Python division\<close>
  "tao1 Ta' Aa' =
     (if Aa' = 0 then Inl ZeroDivisionError
      else Inr (do { a \<leftarrow> np_arcsin (Ta' / Aa'); Some (tao * (0.5 - 1 / pi * a)) }))"

definition tao2 :: "float64 \<Rightarrow> float64" where
  \<comment> \<open>warm season\<close>
  "tao2 tao1' = do { t1 \<leftarrow> tao1'; Some (tao - t1) }"

definition L :: "real \<Rightarrow> real" where
  \<comment> \<open>latent heat\<close>
  "L W_vol' = 3.35 * 10 ^ 8 * W_vol' * 1"


subsection \<open>Snow and vegetation effects (cell 4)\<close>

definition alpha :: "real \<Rightarrow> real \<Rightarrow> real \<Rightarrow> error + real" where
  "alpha Aa' Cf' L' = (if L' = 0 then Inl ZeroDivisionError else Inr (2 * Aa' * Cf' / L'))"

definition beta :: "real \<Rightarrow> real \<Rightarrow> real \<Rightarrow> error + real" where
  "beta Ta' Cf' L' = (if L' = 0 then Inl ZeroDivisionError else Inr (2 * \<bar>Ta'\<bar> * Cf' / L'))"

definition Cef :: "real \<Rightarrow> real \<Rightarrow> real \<Rightarrow> error + float64" where
  \<comment> \<open>\<^verbatim>\<open>(alpha+1.)/(beta+1.)\<close> is a Python division, the outer one a numpy division.
     When the argument of \<^verbatim>\<open>np.log\<close> is zero the logarithm is \<^verbatim>\<open>-inf\<close>, the divisor
     \<^verbatim>\<open>inf\<close> and the quotient zero.\<close>
  "Cef Cf' alpha' beta' =
     (if beta' + 1 = 0 then Inl ZeroDivisionError
      else Inr (
        if (alpha' + 1) / (beta' + 1) = 0 then Some (Cf' * 0)
        else do {
          l \<leftarrow> np_log ((alpha' + 1) / (beta' + 1));
          q \<leftarrow> np_div (alpha' - beta') ((alpha' - beta') - l);
          Some (Cf' * q) }))"

definition mu :: "real \<Rightarrow> real \<Rightarrow> real \<Rightarrow> float64 \<Rightarrow> float64" where
  "mu Ksn' Csn' Kf' Cef' = do {
     a \<leftarrow> np_sqrt (Ksn' * Csn');
     c \<leftarrow> Cef';
     b \<leftarrow> np_sqrt (Kf' * c);
     np_div (a - b) (a + b) }"

definition s :: "real \<Rightarrow> real \<Rightarrow> real \<Rightarrow> float64 \<Rightarrow> error + float64" where
  \<comment> \<open>\<^verbatim>\<open>np.pi*Csn/(tao*Ksn)\<close> is a Python division\<close>
  "s Hsn' Csn' Ksn' mu' =
     (if tao * Ksn' = 0 then Inl ZeroDivisionError
      else Inr (do {
        r \<leftarrow> np_sqrt (pi * Csn' / (tao * Ksn'));
        m \<leftarrow> mu';
        Some (exp (2 * Hsn' * r) + 2 * m * cos (2 * Hsn' * r) + m\<^sup>2 * exp (- 2 * Hsn' * r)) }))"

definition deta_A :: "real \<Rightarrow> float64 \<Rightarrow> float64 \<Rightarrow> float64" where
  "deta_A Aa' mu' s' = do {
     m \<leftarrow> mu';
     x \<leftarrow> s';
     r \<leftarrow> np_sqrt x;
     q \<leftarrow> np_div (1 + m) r;
     Some (Aa' * (1.0 - q)) }"

definition deta_Asn :: "float64 \<Rightarrow> float64 \<Rightarrow> float64" where
  "deta_Asn deta_A' tao1' = do { d \<leftarrow> deta_A'; t1 \<leftarrow> tao1'; Some (d * t1 / tao * 0.5) }"

definition deta_Tsn :: "float64 \<Rightarrow> float64" where
  "deta_Tsn deta_Asn' = do { d \<leftarrow> deta_Asn'; Some (2 / pi * d) }"

definition Tvg :: "real \<Rightarrow> float64 \<Rightarrow> float64" where
  "Tvg Ta' deta_Tsn' = do { d \<leftarrow> deta_Tsn'; Some (Ta' + d) }"

definition Avg :: "real \<Rightarrow> float64 \<Rightarrow> float64" where
  "Avg Aa' deta_Asn' = do { d \<leftarrow> deta_Asn'; Some (Aa' - d) }"

definition deta_A1 :: "float64 \<Rightarrow> float64 \<Rightarrow> real \<Rightarrow> real \<Rightarrow> float64 \<Rightarrow> float64" where
  "deta_A1 Avg' Tvg' Hvg1' Dvf' tao1' = do {
     a \<leftarrow> Avg';
     t \<leftarrow> Tvg';
     t1 \<leftarrow> tao1';
     e \<leftarrow> np_exp_sqrt_div Hvg1' Dvf' t1;
     Some ((a - \<bar>t\<bar>) * (1 - e)) }"

definition deta_A2 :: "real \<Rightarrow> real \<Rightarrow> real \<Rightarrow> real \<Rightarrow> float64 \<Rightarrow> float64" where
  "deta_A2 Aa' Ta' Hvg2' Dvt' tao2' = do {
     t2 \<leftarrow> tao2';
     e \<leftarrow> np_exp_sqrt_div Hvg2' Dvt' t2;
     Some ((Aa' - \<bar>Ta'\<bar>) * (1 - e)) }"

definition deta_Av :: "float64 \<Rightarrow> float64 \<Rightarrow> float64 \<Rightarrow> float64 \<Rightarrow> float64" where
  "deta_Av deta_A1' deta_A2' tao1' tao2' = do {
     d1 \<leftarrow> deta_A1'; d2 \<leftarrow> deta_A2'; t1 \<leftarrow> tao1'; t2 \<leftarrow> tao2';
     Some ((d1 * t1 + d2 * t2) / tao) }"

definition deta_Tv :: "float64 \<Rightarrow> float64 \<Rightarrow> float64 \<Rightarrow> float64 \<Rightarrow> float64" where
  "deta_Tv deta_A1' deta_A2' tao1' tao2' = do {
     d1 \<leftarrow> deta_A1'; d2 \<leftarrow> deta_A2'; t1 \<leftarrow> tao1'; t2 \<leftarrow> tao2';
     Some ((d1 * t1 - d2 * t2) / tao * (2 / pi)) }"

definition Tgs :: "float64 \<Rightarrow> float64 \<Rightarrow> float64" where
  "Tgs Tvg' deta_Tv' = do { t \<leftarrow> Tvg'; d \<leftarrow> deta_Tv'; Some (t + d) }"

definition Ags :: "float64 \<Rightarrow> float64 \<Rightarrow> float64" where
  "Ags Avg' deta_Av' = do { a \<leftarrow> Avg'; d \<leftarrow> deta_Av'; Some (a - d) }"


subsection \<open>Temperature at the top of permafrost and active layer thickness (cell 5)\<close>

definition Tps_numerator :: "float64 \<Rightarrow> float64 \<Rightarrow> real \<Rightarrow> real \<Rightarrow> float64" where
  "Tps_numerator Tgs' Ags' Kf' Kt' = do {
     t \<leftarrow> Tgs';
     a \<leftarrow> Ags';
     r \<leftarrow> np_div t a;
     as \<leftarrow> np_arcsin r;
     q \<leftarrow> np_div (pi * pi) (a * a);
     sq \<leftarrow> np_sqrt (1 - q);
     Some (0.5 * t * (Kf' + Kt') + (a * (Kt' - Kf') / pi * (r * as + sq))) }"

record regime =
  K_star :: real
  C :: real
  K :: real
  Flag :: int

definition branch :: "float64 \<Rightarrow> real \<Rightarrow> real \<Rightarrow> real \<Rightarrow> real \<Rightarrow> regime" where
  \<comment> \<open>the \<^verbatim>\<open>if Tps_numerator<=0.0: ... else: ...\<close> of the script\<close>
  "branch Tps_numerator' Kf' Kt' Cf' Ct' =
     (if np_le Tps_numerator' 0
      then \<lparr>K_star = Kf', C = Cf', K = Kf', Flag = - 1\<rparr>
      else \<lparr>K_star = Kt', C = Ct', K = Kt', Flag = 1\<rparr>)"

definition Tps :: "float64 \<Rightarrow> real \<Rightarrow> float64" where
  "Tps Tps_numerator' K_star' = do { n \<leftarrow> Tps_numerator'; np_div n K_star' }"

text \<open>
  In \<^verbatim>\<open>Aps\<close> the division \<^verbatim>\<open>L/(2.*C)\<close> is a Python division, the other two are numpy
  divisions. Two cases lead through an infinity to a finite value:
  \<^item> the divisor \<^verbatim>\<open>abs(Tps)+L/(2.*C)\<close> is zero (it is then \<^verbatim>\<open>+0.0\<close>) and the dividend is
    positive: the quotient and its logarithm are \<^verbatim>\<open>inf\<close>, and \<^verbatim>\<open>(Ags - abs(Tps))/inf\<close>
    is zero; for a dividend that is zero or negative the quotient is \<^verbatim>\<open>nan\<close> or \<^verbatim>\<open>-inf\<close>
    and the logarithm \<^verbatim>\<open>nan\<close>;
  \<^item> the divisor is not zero and the dividend \<^verbatim>\<open>Ags+L/(2.*C)\<close> is zero: the logarithm
    of the quotient is \<^verbatim>\<open>-inf\<close>, and \<^verbatim>\<open>(Ags - abs(Tps))/-inf\<close> is zero.

  In both \<open>Aps\<close> is \<^verbatim>\<open>0 - L/(2.*C)\<close>.
\<close>

definition Aps :: "float64 \<Rightarrow> float64 \<Rightarrow> real \<Rightarrow> real \<Rightarrow> error + float64" where
  "Aps Ags' Tps' L' C' =
     (if 2 * C' = 0 then Inl ZeroDivisionError
      else Inr (do {
        a \<leftarrow> Ags';
        t \<leftarrow> Tps';
        if \<bar>t\<bar> + L' / (2 * C') = 0
        then (if 0 < a + L' / (2 * C') then Some (0 - L' / (2 * C')) else None)
        else if a + L' / (2 * C') = 0 then Some (0 - L' / (2 * C'))
        else do {
          r \<leftarrow> np_div (a + L' / (2 * C')) (\<bar>t\<bar> + L' / (2 * C'));
          l \<leftarrow> np_log r;
          q \<leftarrow> np_div (a - \<bar>t\<bar>) l;
          Some (q - L' / (2 * C')) } }))"

definition Zc :: "float64 \<Rightarrow> float64 \<Rightarrow> float64 \<Rightarrow> real \<Rightarrow> real \<Rightarrow> real \<Rightarrow> float64" where
  "Zc Ags' Tps' Aps' K' C' L' = do {
     a \<leftarrow> Ags';
     t \<leftarrow> Tps';
     p \<leftarrow> Aps';
     r \<leftarrow> np_sqrt ((K' * tao * C') / pi);
     np_div (2 * (a - \<bar>t\<bar>) * r) (2 * p * C' + L') }"

definition Zal :: "float64 \<Rightarrow> float64 \<Rightarrow> float64 \<Rightarrow> float64 \<Rightarrow> real \<Rightarrow> real \<Rightarrow> real
    \<Rightarrow> error + float64" where
  \<comment> \<open>\<^verbatim>\<open>K*tao/(np.pi*C)\<close> is a Python division\<close>
  "Zal Ags' Tps' Aps' Zc' K' C' L' =
     (if pi * C' = 0 then Inl ZeroDivisionError
      else Inr (do {
        a \<leftarrow> Ags';
        t \<leftarrow> Tps';
        p \<leftarrow> Aps';
        z \<leftarrow> Zc';
        r1 \<leftarrow> np_sqrt (K' * tao * C' / pi);
        r2 \<leftarrow> np_sqrt (K' * tao / (pi * C'));
        y \<leftarrow> np_div ((2 * p * C' * z + L' * z) * L' * r2)
                    (2 * a * C' * z + L' * z + (2 * p * C' + L') * r2);
        np_div (2 * (a - \<bar>t\<bar>) * r1 + y) (2 * p * C' + L') }))"


subsection \<open>The cells composed\<close>

text \<open>
  \<open>ground_surface\<close> is cell 4 as a function of the variables it reads, its snow part
  followed by its vegetation part: it returns the pair \<open>(Tgs, Ags)\<close>, the boundary
  condition of the solver. \<open>solver\<close> is cell 5; it
  returns the regime flag and the values of \<open>Tps\<close>, \<open>Aps\<close>, \<open>Zc\<close> and \<open>Zal\<close>.
  \<open>properties\<close> is cells 2 and 3, and \<open>program\<close> is the whole notebook; its result
  is what the two \<^verbatim>\<open>print\<close> statements show.
  An exception ends the run at the statement that raises it.
\<close>

record surface_args =
  sAa :: real
  sTa :: real
  sHsn :: real
  sHvg1 :: real
  sHvg2 :: real
  sDvf :: real
  sDvt :: real
  sCf :: real
  sKf :: real
  sKsn :: real
  sCsn :: real
  sL :: real
  stao1 :: float64
  stao2 :: float64

definition snow :: "surface_args \<Rightarrow> error + float64 \<times> float64" where
  \<comment> \<open>the lines under \<^verbatim>\<open># Snow\<close>: the pair \<open>(deta_Asn, deta_Tsn)\<close>\<close>
  "snow g =
     (case alpha (sAa g) (sCf g) (sL g) of Inl e \<Rightarrow> Inl e | Inr alpha' \<Rightarrow>
     (case beta (sTa g) (sCf g) (sL g) of Inl e \<Rightarrow> Inl e | Inr beta' \<Rightarrow>
     (case Cef (sCf g) alpha' beta' of Inl e \<Rightarrow> Inl e | Inr Cef' \<Rightarrow>
      let mu' = mu (sKsn g) (sCsn g) (sKf g) Cef' in
     (case s (sHsn g) (sCsn g) (sKsn g) mu' of Inl e \<Rightarrow> Inl e | Inr s' \<Rightarrow>
      let deta_A' = deta_A (sAa g) mu' s';
          deta_Asn' = deta_Asn deta_A' (stao1 g);
          deta_Tsn' = deta_Tsn deta_Asn'
      in Inr (deta_Asn', deta_Tsn')))))"

definition vegetation :: "surface_args \<Rightarrow> float64 \<Rightarrow> float64 \<Rightarrow> float64 \<times> float64" where
  \<comment> \<open>the lines under \<^verbatim>\<open># Vegetation\<close>: the pair \<open>(Tgs, Ags)\<close>\<close>
  "vegetation g deta_Asn' deta_Tsn' =
     (let Tvg' = Tvg (sTa g) deta_Tsn';
          Avg' = Avg (sAa g) deta_Asn';
          deta_A1' = deta_A1 Avg' Tvg' (sHvg1 g) (sDvf g) (stao1 g);
          deta_A2' = deta_A2 (sAa g) (sTa g) (sHvg2 g) (sDvt g) (stao2 g);
          deta_Av' = deta_Av deta_A1' deta_A2' (stao1 g) (stao2 g);
          deta_Tv' = deta_Tv deta_A1' deta_A2' (stao1 g) (stao2 g)
      in (Tgs Tvg' deta_Tv', Ags Avg' deta_Av'))"

definition ground_surface :: "surface_args \<Rightarrow> error + float64 \<times> float64" where
  "ground_surface g =
     (case snow g of Inl e \<Rightarrow> Inl e
      | Inr (deta_Asn', deta_Tsn') \<Rightarrow> Inr (vegetation g deta_Asn' deta_Tsn'))"

record solution =
  flag :: int
  tps :: float64
  aps :: float64
  zc :: float64
  zal :: float64

definition solver :: "float64 \<Rightarrow> float64 \<Rightarrow> real \<Rightarrow> real \<Rightarrow> real \<Rightarrow> real \<Rightarrow> real
    \<Rightarrow> error + solution" where
  "solver Tgs' Ags' Kf' Kt' Cf' Ct' L' =
     (let Tps_numerator' = Tps_numerator Tgs' Ags' Kf' Kt';
          b = branch Tps_numerator' Kf' Kt' Cf' Ct';
          Tps' = Tps Tps_numerator' (K_star b)
      in (case Aps Ags' Tps' L' (C b) of Inl e \<Rightarrow> Inl e | Inr Aps' \<Rightarrow>
         let Zc' = Zc Ags' Tps' Aps' (K b) (C b) L' in
         (case Zal Ags' Tps' Aps' Zc' (K b) (C b) L' of Inl e \<Rightarrow> Inl e | Inr Zal' \<Rightarrow>
          Inr \<lparr>flag = Flag b, tps = Tps', aps = Aps', zc = Zc', zal = Zal'\<rparr>)))"

record properties =
  pCt :: real
  pCf :: real
  pKt :: real
  pKf :: real
  pKsn :: real
  pCsn :: real
  pL :: real
  ptao1 :: float64
  ptao2 :: float64

definition properties :: "inputs \<Rightarrow> error + properties" where
  \<comment> \<open>cells 2 and 3: the values they leave for the later cells\<close>
  "properties i =
     (let Heat_Capacity' = Heat_Capacity (percent_clay i) (percent_sand i) (percent_silt i);
          Bulk_Density' = Bulk_Density (percent_clay i) (percent_sand i) (percent_silt i)
      in (case tao1 (Ta i) (Aa i) of Inl e \<Rightarrow> Inl e | Inr tao1' \<Rightarrow>
          Inr \<lparr>pCt = Ct Heat_Capacity' Bulk_Density' (W_vol i),
               pCf = Cf Heat_Capacity' Bulk_Density' (W_vol i),
               pKt = Kt (percent_silt i) (percent_clay i) (percent_sand i),
               pKf = Kf (percent_silt i) (percent_clay i) (percent_sand i),
               pKsn = Ksn (rho_sn i), pCsn = Csn (rho_sn i), pL = L (W_vol i),
               ptao1 = tao1', ptao2 = tao2 tao1'\<rparr>))"

definition cell4_args :: "inputs \<Rightarrow> properties \<Rightarrow> surface_args" where
  "cell4_args i p =
     \<lparr>sAa = Aa i, sTa = Ta i, sHsn = Hsn i, sHvg1 = Hvg1 i, sHvg2 = Hvg2 i,
      sDvf = Dvf i, sDvt = Dvt i, sCf = pCf p, sKf = pKf p,
      sKsn = pKsn p, sCsn = pCsn p, sL = pL p, stao1 = ptao1 p, stao2 = ptao2 p\<rparr>"

definition boundary :: "inputs \<Rightarrow> error + float64 \<times> float64" where
  \<comment> \<open>cells 2 to 4: the pair \<open>(Tgs, Ags)\<close> that the inputs lead to\<close>
  "boundary i =
     (case properties i of Inl e \<Rightarrow> Inl e | Inr p \<Rightarrow> ground_surface (cell4_args i p))"

record printed =
  TTOP :: float64
  ALT :: float64

definition program :: "inputs \<Rightarrow> error + printed" where
  "program i =
     (case properties i of Inl e \<Rightarrow> Inl e | Inr p \<Rightarrow>
     (case ground_surface (cell4_args i p) of Inl e \<Rightarrow> Inl e | Inr (Tgs', Ags') \<Rightarrow>
     (case solver Tgs' Ags' (pKf p) (pKt p) (pCf p) (pCt p) (pL p) of Inl e \<Rightarrow> Inl e
      | Inr r \<Rightarrow> Inr \<lparr>TTOP = tps r, ALT = zal r\<rparr>)))"

definition reference :: inputs where
  \<comment> \<open>the values the notebook assigns (Barrow, Alaska, 2012)\<close>
  "reference = \<lparr>rho_sn = 240, Hvg1 = 0, Hvg2 = 0, Dvf = 1.39 / 10 ^ 6, Dvt = 5.56 / 10 ^ 8,
     Ta = - 10.81, Aa = 19.04, Hsn = 0.28, W_vol = 0.41,
     percent_silt = 0.30, percent_sand = 0.60, percent_clay = 0.10\<rparr>"


subsection \<open>An auxiliary function\<close>

text \<open>
  The value of the damping factor \<open>s\<close> as a real function of the reflection coefficient
  and of the argument \<open>2 * Hsn * sqrt (pi * Csn / (tao * Ksn))\<close>; it only serves to state
  lemmas about \<open>s\<close>.
\<close>

definition damping :: "real \<Rightarrow> real \<Rightarrow> real" where
  "damping m y = exp y + 2 * m * cos y + m\<^sup>2 * exp (- y)"


section \<open>Basic facts\<close>

lemma tao_pos: "0 < tao"
  by (simp add: tao_def)

lemma pi_sq_le_16: "pi * pi \<le> 16"
proof -
  have "pi * pi \<le> 4 * 4" using pi_less_4 by (intro mult_mono) simp_all
  then show ?thesis by simp
qed

lemma Ksn_square:
  "Ksn r = 3.233 * (r / 1000 - 505 / 3233)\<^sup>2 + (0.138 - 1.01\<^sup>2 / (4 * 3.233))"
  unfolding Ksn_def by (simp add: power2_eq_square algebra_simps)

lemma Ksn_pos: "0 < Ksn r"
proof -
  have "0 \<le> 3.233 * (r / 1000 - 505 / 3233)\<^sup>2" by simp
  moreover have "(0::real) < 0.138 - 1.01\<^sup>2 / (4 * 3.233)" by (simp add: power2_eq_square)
  ultimately show ?thesis unfolding Ksn_square by linarith
qed


lemma Heat_Capacity_pos: "0 < Heat_Capacity a b c"
  by (simp add: Heat_Capacity_def Heat_Capacity_Clay_def Heat_Capacity_Sand_def
      Heat_Capacity_Silt_def)

lemma Bulk_Density_pos: "0 < Bulk_Density a b c"
  by (simp add: Bulk_Density_def Bulk_Density_Clay_def Bulk_Density_Sand_def
      Bulk_Density_Silt_def)

lemma Kt_pos: "0 < Kt a b c"
  by (simp add: Kt_def Kt_Silt_def Kt_Clay_def Kt_Sand_def)

lemma Kf_pos: "0 < Kf a b c"
  by (simp add: Kf_def Kf_Silt_def Kf_Clay_def Kf_Sand_def)

lemma Ct_pos: "0 \<le> w \<Longrightarrow> 0 < Ct (Heat_Capacity a b c) (Bulk_Density a b c) w"
  using Heat_Capacity_pos [of a b c] Bulk_Density_pos [of a b c]
  by (simp add: Ct_def add_pos_nonneg)

lemma Cf_pos: "0 \<le> w \<Longrightarrow> 0 < Cf (Heat_Capacity a b c) (Bulk_Density a b c) w"
  using Heat_Capacity_pos [of a b c] Bulk_Density_pos [of a b c]
  by (simp add: Cf_def add_pos_nonneg)

lemma ln5_bounds: "1 < ln (5::real) \<and> ln (5::real) < 2"
proof -
  have "exp (1::real) < 5" using exp_le by simp
  then have "ln (exp (1::real)) < ln 5" by (subst ln_less_cancel_iff) simp_all
  then have 1: "1 < ln (5::real)" by simp
  have "(1::real) + 1 + 1\<^sup>2 / 2 \<le> exp 1" by (rule exp_lower_Taylor_quadratic) simp
  then have h: "(5 / 2::real) \<le> exp 1" by simp
  have "(5 / 2) * (5 / 2) \<le> exp (1::real) * exp 1" using h by (intro mult_mono) simp_all
  also have "\<dots> = exp (2::real)" by (simp add: exp_add [symmetric])
  finally have "(5::real) < exp 2" by simp
  then have "ln (5::real) < ln (exp 2)" by (subst ln_less_cancel_iff) simp_all
  then have 2: "ln (5::real) < 2" by simp
  from 1 2 show ?thesis ..
qed

lemma properties_value:
  "Aa i \<noteq> 0 \<Longrightarrow> properties i = Inr
     \<lparr>pCt = Ct (Heat_Capacity (percent_clay i) (percent_sand i) (percent_silt i))
             (Bulk_Density (percent_clay i) (percent_sand i) (percent_silt i)) (W_vol i),
      pCf = Cf (Heat_Capacity (percent_clay i) (percent_sand i) (percent_silt i))
             (Bulk_Density (percent_clay i) (percent_sand i) (percent_silt i)) (W_vol i),
      pKt = Kt (percent_silt i) (percent_clay i) (percent_sand i),
      pKf = Kf (percent_silt i) (percent_clay i) (percent_sand i),
      pKsn = Ksn (rho_sn i), pCsn = Csn (rho_sn i), pL = L (W_vol i),
      ptao1 = do { a \<leftarrow> np_arcsin (Ta i / Aa i); Some (tao * (0.5 - 1 / pi * a)) },
      ptao2 = tao2 (do { a \<leftarrow> np_arcsin (Ta i / Aa i); Some (tao * (0.5 - 1 / pi * a)) })\<rparr>"
  by (simp add: properties_def Let_def tao1_def)


subsection \<open>Infinities that come back to a number\<close>

text \<open>
  The three places of the script where numpy passes through an infinity and returns a
  finite number, on concrete values: a summer vegetation effect with \<open>Dvt = 0\<close>
  (\<^verbatim>\<open>np.exp(-inf) = 0\<close>, the factor is \<open>1\<close>), \<open>Cef\<close> with \<open>alpha = -1\<close> (\<^verbatim>\<open>np.log(0.) = -inf\<close>,
  the quotient is zero), and \<open>Aps\<close> with \<open>Ags + L / (2 * C) = 0\<close> or with
  \<open>\<bar>Tps\<bar> + L / (2 * C) = 0\<close>.
\<close>

lemma np_exp_sqrt_div_zero:
  "np_exp_sqrt_div (1 / 10) 0 9707197 = Some 0 \<and> np_exp_sqrt_div 0 0 9707197 = None \<and>
   np_exp_sqrt_div (1 / 10) (- 1) 0 = None \<and> np_exp_sqrt_div (- 1) 0 9707197 = None"
  by (simp add: np_exp_sqrt_div_def)

lemma deta_A2_zero_divisor:
  "deta_A2 19.04 (- 10.81) 0.1 0 (Some 9707197) = Some 8.23 \<and>
   deta_A1 (Some 10) (Some (- 4)) 0.1 0 (Some 9707197) = Some 6"
  by (simp add: deta_A2_def deta_A1_def np_exp_sqrt_div_def)

lemma Cef_log_zero: "Cef 972556 (- 1) (1 / 2) = Inr (Some 0)"
  by (simp add: Cef_def)

lemma Aps_infinite_logarithm:
  "Aps (Some 5) (Some (- 3)) (- 10) 1 = Inr (Some 5) \<and>
   Aps (Some 6) (Some (- 5)) (- 10) 1 = Inr (Some 5) \<and>
   Aps (Some 4) (Some (- 5)) (- 10) 1 = Inr None \<and>
   Aps (Some 4) (Some 0) 0 1 = Inr (Some 0)"
  by (simp add: Aps_def)


section \<open>The regime branch\<close>

text \<open>
  Claim C1. The solver takes exactly one of two branches, chosen by the test
  \<^verbatim>\<open>Tps_numerator<=0.0\<close>: when it holds (the numerator is a number and is at most zero) the
  frozen constants are used, \<open>K_star = Kf\<close>, \<open>C = Cf\<close>, \<open>K = Kf\<close>, and the flag is \<open>-1\<close>;
  otherwise the thawed constants are used, \<open>K_star = Kt\<close>, \<open>C = Ct\<close>, \<open>K = Kt\<close>, and the
  flag is \<open>1\<close>. The flag has exactly one of the two values, and \<open>Tps\<close> is
  \<open>Tps_numerator / K_star\<close>; \<open>Aps\<close>, \<open>Zc\<close> and \<open>Zal\<close> are computed with the \<open>C\<close> and \<open>K\<close>
  of the branch taken. The run ends with an exception exactly when the \<open>C\<close> of the branch
  is zero.
\<close>

theorem regime_selection:
  "(let n = Tps_numerator Tgs' Ags' Kf' Kt'; b = branch n Kf' Kt' Cf' Ct' in
     (np_le n 0 = (\<exists>x. n = Some x \<and> x \<le> 0)) \<and>
     (np_le n 0 \<longrightarrow> b = \<lparr>K_star = Kf', C = Cf', K = Kf', Flag = - 1\<rparr>) \<and>
     (\<not> np_le n 0 \<longrightarrow> b = \<lparr>K_star = Kt', C = Ct', K = Kt', Flag = 1\<rparr>) \<and>
     (Flag b = - 1 \<or> Flag b = 1) \<and> \<not> (Flag b = - 1 \<and> Flag b = 1) \<and>
     (case solver Tgs' Ags' Kf' Kt' Cf' Ct' L' of
        Inl e \<Rightarrow> C b = 0
      | Inr r \<Rightarrow> C b \<noteq> 0 \<and> flag r = Flag b \<and>
          tps r = (case n of None \<Rightarrow> None | Some x \<Rightarrow> np_div x (K_star b)) \<and>
          Inr (aps r) = Aps Ags' (tps r) L' (C b) \<and>
          zc r = Zc Ags' (tps r) (aps r) (K b) (C b) L' \<and>
          Inr (zal r) = Zal Ags' (tps r) (aps r) (zc r) (K b) (C b) L'))"
  by (cases "Tps_numerator Tgs' Ags' Kf' Kt'")
     (simp_all add: Let_def solver_def branch_def np_le_def Tps_def Aps_def Zal_def)

lemma Tps_numerator_example:
  "Tps_numerator (Some (- 4)) (Some 4) 2 1 = Some (- 8 - 4 / pi * sqrt (1 - pi * pi / 16))"
  using pi_sq_le_16
  by (simp add: Tps_numerator_def np_div_def np_arcsin_def np_sqrt_def field_simps)

theorem regime_selection_witness:
  "np_le (Tps_numerator (Some (- 4)) (Some 4) 2 1) 0 \<and>
   branch (Tps_numerator (Some (- 4)) (Some 4) 2 1) 2 1 3 4
     = \<lparr>K_star = 2, C = 3, K = 2, Flag = - 1\<rparr> \<and>
   \<not> np_le (Tps_numerator None (Some 4) 2 1) 0 \<and>
   branch (Tps_numerator None (Some 4) 2 1) 2 1 3 4
     = \<lparr>K_star = 1, C = 4, K = 1, Flag = 1\<rparr>"
proof -
  have "0 \<le> 4 / pi * sqrt (1 - pi * pi / 16)" using pi_sq_le_16 by simp
  then have 1: "np_le (Tps_numerator (Some (- 4)) (Some 4) 2 1) 0"
    unfolding Tps_numerator_example np_le_def by simp
  have 2: "\<not> np_le (Tps_numerator None (Some 4) 2 1) 0"
    by (simp add: Tps_numerator_def np_le_def)
  show ?thesis
    using regime_selection [of "Some (- 4)" "Some 4" 2 1 3 4 5]
      regime_selection [of None "Some 4" 2 1 3 4 5] 1 2
    by (simp add: Let_def)
qed


section \<open>Season lengths\<close>

text \<open>
  Claim C6. Whenever \<^verbatim>\<open>Ta/Aa\<close> is defined and \<open>\<bar>Ta/Aa\<bar> < 1\<close>, the cold season \<open>tao1\<close> and
  the warm season \<open>tao2\<close> are both numbers, both positive, and add up to the year
  \<open>tao = 365 * 24 * 3600\<close> seconds. (In exact arithmetic the sum is the year itself; the
  rounding of the two floating-point operations is outside the model.)
\<close>

theorem season_partition:
  "Aa' \<noteq> 0 \<Longrightarrow> \<bar>Ta' / Aa'\<bar> < 1 \<Longrightarrow>
   \<exists>t1 t2. tao1 Ta' Aa' = Inr (Some t1) \<and> tao2 (Some t1) = Some t2 \<and>
     t1 + t2 = tao \<and> tao = 365 * 24 * 3600 \<and> 0 < t1 \<and> 0 < t2"
proof -
  assume a: "Aa' \<noteq> 0" and r: "\<bar>Ta' / Aa'\<bar> < 1"
  define x where "x = arcsin (Ta' / Aa')"
  from r have "- 1 < Ta' / Aa'" "Ta' / Aa' < 1" by linarith+
  then have "- (pi / 2) < x \<and> x < pi / 2"
    unfolding x_def by (rule arcsin_lt_bounded)
  then have b: "- (1 / 2) < x / pi \<and> x / pi < 1 / 2"
    by (simp add: field_simps)
  have t1: "tao1 Ta' Aa' = Inr (Some (tao * (0.5 - 1 / pi * x)))"
    using a r by (simp add: tao1_def np_arcsin_def x_def)
  have p1: "0 < tao * (0.5 - 1 / pi * x)" using b tao_pos by simp
  have p2: "0 < tao - tao * (0.5 - 1 / pi * x)"
  proof -
    have "tao - tao * (0.5 - 1 / pi * x) = tao * (0.5 + x / pi)" by (simp add: algebra_simps)
    also have "0 < \<dots>" using b tao_pos by simp
    finally show ?thesis .
  qed
  have "tao = 365 * 24 * 3600" by (simp add: tao_def)
  then show ?thesis using t1 p1 p2 by (simp add: tao2_def)
qed

theorem season_partition_witness:
  "(19.04::real) \<noteq> 0 \<and> \<bar>(- 10.81) / 19.04 :: real\<bar> < 1 \<and>
   (\<exists>t1 t2. tao1 (- 10.81) 19.04 = Inr (Some t1) \<and> tao2 (Some t1) = Some t2 \<and>
     t1 + t2 = tao \<and> 0 < t1 \<and> 0 < t2)"
proof -
  have "(19.04::real) \<noteq> 0" "\<bar>(- 10.81) / 19.04 :: real\<bar> < 1" by simp_all
  from season_partition [OF this] show ?thesis by auto
qed


section \<open>Snow conductivity\<close>

text \<open>
  Claim C9. The snow conductivity polynomial
  \<open>Ksn = 3.233 * (rho_sn/1000)\<^sup>2 - 1.01 * (rho_sn/1000) + 0.138\<close> is strictly positive for
  every real \<open>rho_sn\<close>, its discriminant being negative. Hence, for every \<open>rho_sn > 0\<close>,
  the square root of \<open>Ksn * Csn\<close> is a positive number, the division by \<open>tao * Ksn\<close> in the
  damping factor \<open>s\<close> does not raise, and the square root of \<open>pi * Csn / (tao * Ksn)\<close> is a
  positive number.
\<close>

theorem Ksn_positive:
  "0 < Ksn rho_sn' \<and> (1.01::real)\<^sup>2 - 4 * 3.233 * 0.138 < 0 \<and>
   (0 < rho_sn' \<longrightarrow>
      np_sqrt (Ksn rho_sn' * Csn rho_sn') = Some (sqrt (Ksn rho_sn' * Csn rho_sn')) \<and>
      0 < sqrt (Ksn rho_sn' * Csn rho_sn') \<and>
      tao * Ksn rho_sn' \<noteq> 0 \<and>
      s Hsn' (Csn rho_sn') (Ksn rho_sn') mu' \<noteq> Inl ZeroDivisionError \<and>
      np_sqrt (pi * Csn rho_sn' / (tao * Ksn rho_sn'))
        = Some (sqrt (pi * Csn rho_sn' / (tao * Ksn rho_sn'))) \<and>
      0 < sqrt (pi * Csn rho_sn' / (tao * Ksn rho_sn')))"
proof -
  have k: "0 < Ksn rho_sn'" by (rule Ksn_pos)
  have d: "(1.01::real)\<^sup>2 - 4 * 3.233 * 0.138 < 0" by (simp add: power2_eq_square)
  have r: "0 < sqrt (Ksn rho_sn' * Csn rho_sn') \<and>
      0 < sqrt (pi * Csn rho_sn' / (tao * Ksn rho_sn')) \<and>
      np_sqrt (Ksn rho_sn' * Csn rho_sn') = Some (sqrt (Ksn rho_sn' * Csn rho_sn')) \<and>
      np_sqrt (pi * Csn rho_sn' / (tao * Ksn rho_sn'))
        = Some (sqrt (pi * Csn rho_sn' / (tao * Ksn rho_sn')))" if "0 < rho_sn'"
  proof -
    from that have c: "0 < Csn rho_sn'" by (simp add: Csn_def)
    have 1: "0 < Ksn rho_sn' * Csn rho_sn'" using k c by simp
    have 2: "0 < pi * Csn rho_sn' / (tao * Ksn rho_sn')" using k c tao_pos by simp
    show ?thesis using 1 2 by (simp add: np_sqrt_def)
  qed
  have e: "s Hsn' (Csn rho_sn') (Ksn rho_sn') mu' \<noteq> Inl ZeroDivisionError"
    using k tao_pos by (simp add: s_def)
  show ?thesis using k d r e tao_pos by simp
qed

theorem Ksn_positive_witness:
  "(0::real) < 240 \<and> 0 < Ksn 240 \<and> tao * Ksn 240 \<noteq> 0 \<and>
   np_sqrt (Ksn 240 * Csn 240) = Some (sqrt (Ksn 240 * Csn 240)) \<and>
   s 0.28 (Csn 240) (Ksn 240) (Some 0) \<noteq> Inl ZeroDivisionError"
  using Ksn_positive [of 240 "0.28" "Some 0"] by simp

section \<open>Snow and vegetation\<close>

subsection \<open>Bounds on \<open>pi\<close> and the sine\<close>

lemma sin_lower_5:
  fixes x :: real
  assumes "0 \<le> x"
  shows "x - x ^ 3 / 6 - x ^ 5 / 120 \<le> sin x"
proof -
  have "\<bar>sin x - (\<Sum>m<5. sin_coeff m * x ^ m)\<bar> \<le> inverse (fact 5) * \<bar>x\<bar> ^ 5"
    by (rule Maclaurin_sin_bound)
  moreover have "(\<Sum>m<5. sin_coeff m * x ^ m) = x - x ^ 3 / 6"
    by (simp add: lessThan_Suc eval_nat_numeral sin_coeff_Suc cos_coeff_Suc)
  moreover have "inverse (fact 5) * \<bar>x\<bar> ^ 5 = x ^ 5 / 120"
    using assms by (simp add: eval_nat_numeral fact_numeral)
  ultimately show ?thesis by linarith
qed

lemma arctan_series_bounds:
  fixes x :: real
  assumes "0 < x" "x \<le> 1"
  shows "(\<Sum>i<2*n. (- 1) ^ i * (1 / real (i * 2 + 1) * x ^ (i * 2 + 1))) \<le> arctan x"
    and "arctan x \<le> (\<Sum>i<2*n+1. (- 1) ^ i * (1 / real (i * 2 + 1) * x ^ (i * 2 + 1)))"
proof -
  have x: "\<bar>x\<bar> \<le> 1" using assms by simp
  have a0: "0 < 1 / real (0 * 2 + 1) * x ^ (0 * 2 + 1)" using assms by simp
  from summable_Leibniz(2) [OF zeroseq_arctan_series [OF x] monoseq_arctan_series [OF x]] a0
  have "(\<Sum>i. (- 1) ^ i * (1 / real (i * 2 + 1) * x ^ (i * 2 + 1)))
      \<in> {(\<Sum>i<2*n. (- 1) ^ i * (1 / real (i * 2 + 1) * x ^ (i * 2 + 1))) ..
         (\<Sum>i<2*n+1. (- 1) ^ i * (1 / real (i * 2 + 1) * x ^ (i * 2 + 1)))}"
    by blast
  then show "(\<Sum>i<2*n. (- 1) ^ i * (1 / real (i * 2 + 1) * x ^ (i * 2 + 1))) \<le> arctan x"
    and "arctan x \<le> (\<Sum>i<2*n+1. (- 1) ^ i * (1 / real (i * 2 + 1) * x ^ (i * 2 + 1)))"
    unfolding arctan_series [OF x] by simp_all
qed

lemma pi_bounds: "3.14159265 < pi \<and> pi < 3.14159266"
proof -
  have l5: "(\<Sum>i<2*4. (- 1) ^ i * (1 / real (i * 2 + 1) * (1 / 5) ^ (i * 2 + 1))) \<le> arctan (1 / 5)"
    by (rule arctan_series_bounds) simp_all
  have u5: "arctan (1 / 5) \<le> (\<Sum>i<2*4+1. (- 1) ^ i * (1 / real (i * 2 + 1) * (1 / 5) ^ (i * 2 + 1)))"
    by (rule arctan_series_bounds) simp_all
  have l239: "(\<Sum>i<2*1. (- 1) ^ i * (1 / real (i * 2 + 1) * (1 / 239) ^ (i * 2 + 1))) \<le> arctan (1 / 239)"
    by (rule arctan_series_bounds) simp_all
  have u239: "arctan (1 / 239) \<le> (\<Sum>i<2*1+1. (- 1) ^ i * (1 / real (i * 2 + 1) * (1 / 239) ^ (i * 2 + 1)))"
    by (rule arctan_series_bounds) simp_all
  have p: "pi = 16 * arctan (1 / 5) - 4 * arctan (1 / 239)"
    using machin by simp
  have L5: "(0.1973955598 :: real) < arctan (1 / 5)"
    using l5 by (simp add: lessThan_Suc eval_nat_numeral)
  have U5: "arctan (1 / 5) < (0.1973955599 :: real)"
    using u5 by (simp add: lessThan_Suc eval_nat_numeral)
  have L239: "(0.00418407600 :: real) < arctan (1 / 239)"
    using l239 by (simp add: lessThan_Suc eval_nat_numeral)
  have U239: "arctan (1 / 239) < (0.00418407601 :: real)"
    using u239 by (simp add: lessThan_Suc eval_nat_numeral)
  show ?thesis unfolding p using L5 U5 L239 U239 by simp
qed

lemma two_over_pi: "0 < 2 / pi \<and> 2 / pi < 1"
proof -
  have "2 < pi" using pi_bounds by simp
  then show ?thesis by simp
qed

lemma cold_fraction_bound:
  fixes u \<rho> :: real
  assumes u0: "0 \<le> u" and u1: "u < 1" and r: "\<rho> = 1 / 2 + arcsin u / pi" and ur: "u < \<rho> / pi"
  shows "\<rho> * (1 + 2 / pi) \<le> 1"
proof (rule ccontr)
  assume "\<not> \<rho> * (1 + 2 / pi) \<le> 1"
  then have gt: "1 < \<rho> * (1 + 2 / pi)" by simp
  have pb: "3.1415 < pi" "pi < 3.1416" using pi_bounds by simp_all
  have a: "arcsin u \<le> pi / 2" using u0 u1 arcsin_bounded [of u] by simp
  have r1: "\<rho> \<le> 1" unfolding r using a by (simp add: field_simps)
  have "\<rho> / pi \<le> 1 / pi" using r1 by (simp add: divide_right_mono)
  also have "\<dots> < 1 / 3.1415" using pb by (simp add: field_simps)
  finally have up: "u < 0.3184" using ur by simp
  have "1 < \<rho> * ((pi + 2) / pi)" using gt by (simp add: field_simps)
  then have "pi < \<rho> * (pi + 2)" by (simp add: field_simps)
  moreover have "0 < pi + 2" by (simp add: add_pos_pos)
  ultimately have "pi / (pi + 2) < \<rho>" by (simp add: pos_divide_less_eq)
  moreover have "0.61 < pi / (pi + 2)" using pb by (simp add: field_simps)
  ultimately have "0.61 < \<rho>" by linarith
  then have "0.11 < arcsin u / pi" unfolding r by simp
  then have "0.11 * pi < arcsin u" by (simp add: field_simps)
  moreover have "0.3455 < 0.11 * pi" using pb by simp
  ultimately have t: "0.3455 < arcsin u" by linarith
  have "sin 0.3455 < sin (arcsin u)"
    using t a pi_gt_zero by (intro sin_monotone_2pi) simp_all
  then have "sin 0.3455 < u" using u0 u1 by simp
  moreover have "(0.3455::real) - 0.3455 ^ 3 / 6 - 0.3455 ^ 5 / 120 \<le> sin 0.3455"
    by (rule sin_lower_5) simp
  ultimately show False using up by (simp add: eval_nat_numeral)
qed

subsection \<open>The damping factor grows with the snow thickness\<close>

lemma exp_diff_ge: "0 \<le> z \<Longrightarrow> 2 * z \<le> exp z - exp (- z)" for z :: real
proof -
  assume z: "0 \<le> z"
  define f where "f = (\<lambda>x::real. exp x - exp (- x) - 2 * x)"
  have "f 0 \<le> f z"
  proof (rule DERIV_nonneg_imp_nondecreasing [OF z])
    fix x :: real
    have d: "(f has_real_derivative (exp x + exp (- x) - 2)) (at x)"
      unfolding f_def by (auto intro!: derivative_eq_intros)
    have "0 \<le> (exp x - 1)\<^sup>2 / exp x" by simp
    also have "\<dots> = exp x + exp (- x) - 2"
      by (simp add: power2_eq_square exp_minus field_simps)
    finally show "\<exists>y. (f has_real_derivative y) (at x) \<and> 0 \<le> y" using d by blast
  qed
  then show ?thesis by (simp add: f_def)
qed

lemma damping_deriv_pos:
  fixes m z :: real
  assumes m: "\<bar>m\<bar> < 1" and z: "0 \<le> z"
  shows "0 < exp z - 2 * m * sin z - m\<^sup>2 * exp (- z)"
proof -
  have m2: "m\<^sup>2 < 1" using m abs_square_less_1 [of m] by blast
  have m2': "0 \<le> m\<^sup>2" by simp
  have s: "\<bar>sin z\<bar> \<le> z" using abs_sin_x_le_abs_x [of z] z by simp
  have "m * sin z \<le> \<bar>m\<bar> * \<bar>sin z\<bar>" by (metis abs_ge_self abs_mult)
  also have "\<dots> \<le> \<bar>m\<bar> * z" using s by (intro mult_left_mono) simp_all
  finally have ms: "2 * m * sin z \<le> 2 * \<bar>m\<bar> * z" by simp
  have e1: "(1 - m\<^sup>2) * (1 + z) \<le> (1 - m\<^sup>2) * exp z"
    using m2 by (intro mult_left_mono) simp_all
  have e2: "m\<^sup>2 * (2 * z) \<le> m\<^sup>2 * (exp z - exp (- z))"
    using exp_diff_ge [OF z] by (intro mult_left_mono) simp_all
  have "exp z - m\<^sup>2 * exp (- z) = (1 - m\<^sup>2) * exp z + m\<^sup>2 * (exp z - exp (- z))"
    by (simp add: algebra_simps)
  then have lower: "(1 - m\<^sup>2) * (1 + z) + m\<^sup>2 * (2 * z) \<le> exp z - m\<^sup>2 * exp (- z)"
    using e1 e2 by linarith
  have "(1 - m\<^sup>2) * (1 + z) + m\<^sup>2 * (2 * z) - 2 * \<bar>m\<bar> * z = (1 - m\<^sup>2) + z * (1 - \<bar>m\<bar>)\<^sup>2"
    by (simp add: power2_eq_square algebra_simps)
  moreover have "0 \<le> z * (1 - \<bar>m\<bar>)\<^sup>2" using z by simp
  moreover have "0 < 1 - m\<^sup>2" using m2 by simp
  ultimately have "0 < (1 - m\<^sup>2) * (1 + z) + m\<^sup>2 * (2 * z) - 2 * \<bar>m\<bar> * z" by linarith
  with lower ms show ?thesis by linarith
qed

lemma damping_strict_mono:
  assumes m: "\<bar>m\<bar> < 1" and x: "0 \<le> x" and xy: "x < y"
  shows "damping m x < damping m y"
proof (rule DERIV_pos_imp_increasing [OF xy])
  fix z assume "x \<le> z" "z \<le> y"
  then have z: "0 \<le> z" using x by simp
  have "(damping m has_real_derivative (exp z - 2 * m * sin z - m\<^sup>2 * exp (- z))) (at z)"
    unfolding damping_def [abs_def] by (auto intro!: derivative_eq_intros)
  with damping_deriv_pos [OF m z]
  show "\<exists>d. (damping m has_real_derivative d) (at z) \<and> 0 < d" by blast
qed

lemma damping_0: "damping m 0 = (1 + m)\<^sup>2"
  by (simp add: damping_def power2_eq_square algebra_simps)

lemma damping_ge: "\<bar>m\<bar> < 1 \<Longrightarrow> 0 \<le> y \<Longrightarrow> (1 + m)\<^sup>2 \<le> damping m y"
  using damping_strict_mono [of m 0 y] damping_0 [of m] by (cases "y = 0") auto

lemma transmission_props:
  fixes m :: real
  assumes m: "\<bar>m\<bar> < 1"
  shows "0 \<le> y \<Longrightarrow> 0 < damping m y"
    and "0 \<le> y \<Longrightarrow> 0 < (1 + m) / sqrt (damping m y) \<and> (1 + m) / sqrt (damping m y) \<le> 1"
    and "0 \<le> x \<Longrightarrow> x < y \<Longrightarrow> (1 + m) / sqrt (damping m y) < (1 + m) / sqrt (damping m x)"
    and "(1 + m) / sqrt (damping m 0) = 1"
proof -
  have m1: "0 < 1 + m" using m by linarith
  then have sq: "0 < (1 + m)\<^sup>2" by simp
  have ge: "(1 + m)\<^sup>2 \<le> damping m y" if "0 \<le> y" for y
    using damping_ge [OF m that] .
  show pos: "0 < damping m y" if "0 \<le> y" for y
    using ge [OF that] sq by linarith
  have root: "1 + m \<le> sqrt (damping m y)" if "0 \<le> y" for y
  proof -
    have "sqrt ((1 + m)\<^sup>2) \<le> sqrt (damping m y)"
      using ge [OF that] by (rule real_sqrt_le_mono)
    moreover have "sqrt ((1 + m)\<^sup>2) = 1 + m" using m1 by simp
    ultimately show ?thesis by simp
  qed
  show "0 < (1 + m) / sqrt (damping m y) \<and> (1 + m) / sqrt (damping m y) \<le> 1" if "0 \<le> y" for y
  proof -
    have "0 < sqrt (damping m y)" using pos [OF that] by simp
    then show ?thesis using m1 root [OF that] by simp
  qed
  show "(1 + m) / sqrt (damping m y) < (1 + m) / sqrt (damping m x)" if "0 \<le> x" "x < y" for x y
  proof -
    have "damping m x < damping m y" using damping_strict_mono [OF m that] .
    then have "sqrt (damping m x) < sqrt (damping m y)" by simp
    moreover have "0 < sqrt (damping m x)" using pos [OF that(1)] by simp
    ultimately show ?thesis using m1 by (simp add: divide_strict_left_mono)
  qed
  show "(1 + m) / sqrt (damping m 0) = 1"
    using m1 by (simp add: damping_0)
qed

subsection \<open>The values of the snow part and of the vegetation part\<close>

lemma Cef_value:
  assumes b: "0 \<le> b" and ab: "b < a"
  shows "Cef c a b = Inr (Some (c * ((a - b) / ((a - b) - ln ((a + 1) / (b + 1))))))"
    and "0 < (a - b) - ln ((a + 1) / (b + 1))"
    and "1 < (a - b) / ((a - b) - ln ((a + 1) / (b + 1)))"
proof -
  define x where "x = (a + 1) / (b + 1)"
  have b1: "0 < b + 1" using b by simp
  have x1: "1 < x" using b1 ab by (simp add: x_def)
  have xe: "x - 1 = (a - b) / (b + 1)" using b1 by (simp add: x_def field_simps)
  have "ln x < x - 1" using ln_add_one_self_less_self [of "x - 1"] x1 by simp
  then have "ln x < (a - b) / (b + 1)" by (simp only: xe)
  also have "\<dots> \<le> (a - b) / 1" using ab b by (intro divide_left_mono) simp_all
  finally have lt: "ln x < a - b" by simp
  then show d: "0 < (a - b) - ln ((a + 1) / (b + 1))" by (simp add: x_def)
  have "0 < ln x" using x1 by simp
  then have "(a - b) - ln x < a - b" by simp
  then show "1 < (a - b) / ((a - b) - ln ((a + 1) / (b + 1)))"
    using d by (simp add: x_def)
  have l: "np_log ((a + 1) / (b + 1)) = Some (ln ((a + 1) / (b + 1)))"
    using x1 unfolding x_def np_log_def by (simp only: not_le [symmetric]) simp
  have q: "np_div (a - b) ((a - b) - ln ((a + 1) / (b + 1)))
      = Some ((a - b) / ((a - b) - ln ((a + 1) / (b + 1))))"
    using d unfolding np_div_def by simp
  have n: "(b + 1 = 0) = False" "((a + 1) / (b + 1) = 0) = False"
    using b1 x1 by (simp_all add: x_def)
  show "Cef c a b = Inr (Some (c * ((a - b) / ((a - b) - ln ((a + 1) / (b + 1))))))"
    by (simp only: Cef_def n l q Option.bind.simps if_False)
qed

lemma mu_value:
  assumes k: "0 < k1 * k2" and f: "0 < f * c"
  shows "mu k1 k2 f (Some c) = Some ((sqrt (k1 * k2) - sqrt (f * c)) / (sqrt (k1 * k2) + sqrt (f * c)))"
    and "\<bar>(sqrt (k1 * k2) - sqrt (f * c)) / (sqrt (k1 * k2) + sqrt (f * c))\<bar> < 1"
proof -
  have a: "0 < sqrt (k1 * k2)" using k by simp
  have b: "0 < sqrt (f * c)" using f by simp
  have ab: "0 < sqrt (k1 * k2) + sqrt (f * c)" using a b by (rule add_pos_pos)
  show "mu k1 k2 f (Some c) = Some ((sqrt (k1 * k2) - sqrt (f * c)) / (sqrt (k1 * k2) + sqrt (f * c)))"
    using k f ab by (simp add: mu_def np_sqrt_def np_div_def not_less [symmetric] less_imp_le)
  have "\<bar>sqrt (k1 * k2) - sqrt (f * c)\<bar> < sqrt (k1 * k2) + sqrt (f * c)"
    using a b by (simp add: abs_less_iff)
  then show "\<bar>(sqrt (k1 * k2) - sqrt (f * c)) / (sqrt (k1 * k2) + sqrt (f * c))\<bar> < 1"
    using ab by simp
qed

lemma snow_eq:
  assumes L: "sL g \<noteq> 0"
    and c: "Cef (sCf g) (2 * sAa g * sCf g / sL g) (2 * \<bar>sTa g\<bar> * sCf g / sL g) = Inr (Some c)"
    and m: "mu (sKsn g) (sCsn g) (sKf g) (Some c) = Some m"
    and k: "0 < sKsn g * sCsn g"
    and d: "0 < damping m (2 * sHsn g * sqrt (pi * sCsn g / (tao * sKsn g)))"
    and t1: "stao1 g = Some t1"
  shows "snow g = Inr
    (Some (sAa g * (1 - (1 + m) / sqrt (damping m (2 * sHsn g * sqrt (pi * sCsn g / (tao * sKsn g)))))
       * t1 / tao * 0.5),
     Some (2 / pi * (sAa g * (1 - (1 + m) / sqrt (damping m (2 * sHsn g * sqrt (pi * sCsn g / (tao * sKsn g)))))
       * t1 / tao * 0.5)))"
proof -
  define r where "r = sqrt (pi * sCsn g / (tao * sKsn g))"
  have k0: "sKsn g \<noteq> 0" using k by auto
  have "0 < sCsn g / sKsn g" using k by (auto simp: zero_less_divide_iff zero_less_mult_iff)
  then have "0 < (pi / tao) * (sCsn g / sKsn g)" using tao_pos by (intro mult_pos_pos) simp_all
  moreover have "(pi / tao) * (sCsn g / sKsn g) = pi * sCsn g / (tao * sKsn g)" by simp
  ultimately have q: "\<not> pi * sCsn g / (tao * sKsn g) < 0" by simp
  have s: "s (sHsn g) (sCsn g) (sKsn g) (Some m) = Inr (Some (damping m (2 * sHsn g * r)))"
    using k0 tao_pos q unfolding s_def np_sqrt_def damping_def r_def by simp
  have dA: "deta_A (sAa g) (Some m) (Some (damping m (2 * sHsn g * r)))
      = Some (sAa g * (1 - (1 + m) / sqrt (damping m (2 * sHsn g * r))))"
    using d by (simp add: deta_A_def np_sqrt_def np_div_def r_def)
  have al: "alpha (sAa g) (sCf g) (sL g) = Inr (2 * sAa g * sCf g / sL g)"
    and be: "beta (sTa g) (sCf g) (sL g) = Inr (2 * \<bar>sTa g\<bar> * sCf g / sL g)"
    using L by (simp_all add: alpha_def beta_def)
  show ?thesis
    by (simp only: snow_def al be c m s dA t1 deta_Asn_def deta_Tsn_def r_def [symmetric]
        sum.case Let_def Option.bind.simps)
qed

lemma vegetation_eq:
  assumes t1: "stao1 g = Some t1" and t2: "stao2 g = Some t2"
    and p1: "0 < sDvf g * t1" and p2: "0 < sDvt g * t2"
  shows "vegetation g (Some d) (Some e) =
    (Some (sTa g + e +
       ((sAa g - d - \<bar>sTa g + e\<bar>) * (1 - exp (- 1 * sHvg1 g * sqrt (pi / (sDvf g * 2 * t1)))) * t1
        - (sAa g - \<bar>sTa g\<bar>) * (1 - exp (- 1 * sHvg2 g * sqrt (pi / (sDvt g * 2 * t2)))) * t2)
         / tao * (2 / pi)),
     Some (sAa g - d -
       ((sAa g - d - \<bar>sTa g + e\<bar>) * (1 - exp (- 1 * sHvg1 g * sqrt (pi / (sDvf g * 2 * t1)))) * t1
        + (sAa g - \<bar>sTa g\<bar>) * (1 - exp (- 1 * sHvg2 g * sqrt (pi / (sDvt g * 2 * t2)))) * t2)
         / tao))"
proof -
  have q1: "0 < pi / (sDvf g * 2 * t1)" using p1 by (simp add: field_simps)
  have q2: "0 < pi / (sDvt g * 2 * t2)" using p2 by (simp add: field_simps)
  have n1: "sDvf g * 2 * t1 \<noteq> 0" using p1 by auto
  have n2: "sDvt g * 2 * t2 \<noteq> 0" using p2 by auto
  have A1: "deta_A1 (Some (sAa g - d)) (Some (sTa g + e)) (sHvg1 g) (sDvf g) (Some t1)
    = Some ((sAa g - d - \<bar>sTa g + e\<bar>) * (1 - exp (- 1 * sHvg1 g * sqrt (pi / (sDvf g * 2 * t1)))))"
    using q1 n1
    by (simp add: deta_A1_def np_exp_sqrt_div_def np_div_def np_sqrt_def not_less [symmetric]
        less_imp_le)
  have A2: "deta_A2 (sAa g) (sTa g) (sHvg2 g) (sDvt g) (Some t2)
    = Some ((sAa g - \<bar>sTa g\<bar>) * (1 - exp (- 1 * sHvg2 g * sqrt (pi / (sDvt g * 2 * t2)))))"
    using q2 n2
    by (simp add: deta_A2_def np_exp_sqrt_div_def np_div_def np_sqrt_def not_less [symmetric]
        less_imp_le)
  show ?thesis
    unfolding vegetation_def Let_def t1 t2 Tvg_def Avg_def
    by (simp add: A1 A2 deta_Av_def deta_Tv_def Tgs_def Ags_def)
qed

lemma snow_general:
  assumes A: "\<bar>sTa g\<bar> < sAa g" and Cf: "0 < sCf g" and L: "0 < sL g" and Kf: "0 < sKf g"
    and k: "0 < sKsn g * sCsn g" and t1: "stao1 g = Some t1"
  shows "\<exists>m r. \<bar>m\<bar> < 1 \<and> 0 < r \<and>
    (\<forall>h. 0 \<le> h \<longrightarrow> snow (g\<lparr>sHsn := h\<rparr>) = Inr
      (Some (sAa g * (1 - (1 + m) / sqrt (damping m (2 * h * r))) * t1 / tao * 0.5),
       Some (2 / pi * (sAa g * (1 - (1 + m) / sqrt (damping m (2 * h * r))) * t1 / tao * 0.5))))"
proof -
  define a where "a = 2 * sAa g * sCf g / sL g"
  define b where "b = 2 * \<bar>sTa g\<bar> * sCf g / sL g"
  define c where "c = sCf g * ((a - b) / ((a - b) - ln ((a + 1) / (b + 1))))"
  define m where "m = (sqrt (sKsn g * sCsn g) - sqrt (sKf g * c)) / (sqrt (sKsn g * sCsn g) + sqrt (sKf g * c))"
  define r where "r = sqrt (pi * sCsn g / (tao * sKsn g))"
  have b0: "0 \<le> b" using Cf L by (simp add: b_def)
  have "2 * \<bar>sTa g\<bar> * (sCf g / sL g) < 2 * sAa g * (sCf g / sL g)"
    using A Cf L by (intro mult_strict_right_mono) simp_all
  then have ab: "b < a" by (simp add: a_def b_def)
  note cv = Cef_value(1) [OF b0 ab, of "sCf g"] Cef_value(3) [OF b0 ab]
  have c0: "0 < c" unfolding c_def using Cf cv(2) by (intro mult_pos_pos) simp_all
  have fc: "0 < sKf g * c" using Kf c0 by simp
  note mv = mu_value [OF k fc]
  have m1: "\<bar>m\<bar> < 1" using mv(2) by (simp add: m_def)
  have "0 < sCsn g / sKsn g" using k by (auto simp: zero_less_divide_iff zero_less_mult_iff)
  then have "0 < (pi / tao) * (sCsn g / sKsn g)" using tao_pos by (intro mult_pos_pos) simp_all
  moreover have "(pi / tao) * (sCsn g / sKsn g) = pi * sCsn g / (tao * sKsn g)" by simp
  ultimately have "0 < pi * sCsn g / (tao * sKsn g)" by simp
  then have r0: "0 < r" unfolding r_def by (rule real_sqrt_gt_zero)
  have "snow (g\<lparr>sHsn := h\<rparr>) = Inr
      (Some (sAa g * (1 - (1 + m) / sqrt (damping m (2 * h * r))) * t1 / tao * 0.5),
       Some (2 / pi * (sAa g * (1 - (1 + m) / sqrt (damping m (2 * h * r))) * t1 / tao * 0.5)))"
    if h: "0 \<le> h" for h
  proof -
    have "0 \<le> 2 * h * r" using h r0 by simp
    from transmission_props(1) [OF m1 this]
    have d: "0 < damping m (2 * sHsn (g\<lparr>sHsn := h\<rparr>)
        * sqrt (pi * sCsn (g\<lparr>sHsn := h\<rparr>) / (tao * sKsn (g\<lparr>sHsn := h\<rparr>))))"
      by (simp add: r_def)
    have "snow (g\<lparr>sHsn := h\<rparr>) = Inr
    (Some (sAa (g\<lparr>sHsn := h\<rparr>) * (1 - (1 + m) / sqrt (damping m (2 * sHsn (g\<lparr>sHsn := h\<rparr>)
         * sqrt (pi * sCsn (g\<lparr>sHsn := h\<rparr>) / (tao * sKsn (g\<lparr>sHsn := h\<rparr>))))))
       * t1 / tao * 0.5),
     Some (2 / pi * (sAa (g\<lparr>sHsn := h\<rparr>) * (1 - (1 + m) / sqrt (damping m (2 * sHsn (g\<lparr>sHsn := h\<rparr>)
         * sqrt (pi * sCsn (g\<lparr>sHsn := h\<rparr>) / (tao * sKsn (g\<lparr>sHsn := h\<rparr>))))))
       * t1 / tao * 0.5)))"
    proof (rule snow_eq [where c = c])
      show "sL (g\<lparr>sHsn := h\<rparr>) \<noteq> 0" using L by simp
      show "Cef (sCf (g\<lparr>sHsn := h\<rparr>))
         (2 * sAa (g\<lparr>sHsn := h\<rparr>) * sCf (g\<lparr>sHsn := h\<rparr>) / sL (g\<lparr>sHsn := h\<rparr>))
         (2 * \<bar>sTa (g\<lparr>sHsn := h\<rparr>)\<bar> * sCf (g\<lparr>sHsn := h\<rparr>) / sL (g\<lparr>sHsn := h\<rparr>)) = Inr (Some c)"
        using cv(1) by (simp add: a_def b_def c_def)
      show "mu (sKsn (g\<lparr>sHsn := h\<rparr>)) (sCsn (g\<lparr>sHsn := h\<rparr>)) (sKf (g\<lparr>sHsn := h\<rparr>)) (Some c) = Some m"
        using mv(1) by (simp add: m_def)
      show "0 < sKsn (g\<lparr>sHsn := h\<rparr>) * sCsn (g\<lparr>sHsn := h\<rparr>)" using k by simp
      show "stao1 (g\<lparr>sHsn := h\<rparr>) = Some t1" using t1 by simp
    qed (rule d)
    then show ?thesis by (simp add: r_def)
  qed
  with m1 r0 show ?thesis by blast
qed

lemma snow_depth_effect:
  assumes A: "\<bar>sTa g\<bar> < sAa g" and Cf: "0 < sCf g" and L: "0 < sL g" and Kf: "0 < sKf g"
    and k: "0 < sKsn g * sCsn g" and t1: "stao1 g = Some t1" and t1p: "0 < t1"
  shows "\<exists>D. D 0 = 0 \<and> (\<forall>x y. 0 \<le> x \<and> x < y \<longrightarrow> D x < D y) \<and>
    (\<forall>h. 0 \<le> h \<longrightarrow> D h < sAa g * t1 / tao * 0.5 \<and>
       snow (g\<lparr>sHsn := h\<rparr>) = Inr (Some (D h), Some (2 / pi * D h)))"
proof -
  from snow_general [OF A Cf L Kf k t1]
  obtain m r where m: "\<bar>m\<bar> < 1" and r: "0 < r"
    and sn: "\<And>h. 0 \<le> h \<Longrightarrow> snow (g\<lparr>sHsn := h\<rparr>) = Inr
      (Some (sAa g * (1 - (1 + m) / sqrt (damping m (2 * h * r))) * t1 / tao * 0.5),
       Some (2 / pi * (sAa g * (1 - (1 + m) / sqrt (damping m (2 * h * r))) * t1 / tao * 0.5)))"
    by blast
  define q where "q = (\<lambda>h. (1 + m) / sqrt (damping m (2 * h * r)))"
  define D where "D = (\<lambda>h. sAa g * (1 - q h) * t1 / tao * 0.5)"
  have Aa: "0 < sAa g" using A by linarith
  have c: "0 < sAa g * t1 / tao * 0.5" using Aa t1p tao_pos by simp
  have De: "D h = (sAa g * t1 / tao * 0.5) * (1 - q h)" for h
    by (simp add: D_def)
  have z: "2 * 0 * r = 0" by simp
  have q0: "q 0 = 1" unfolding q_def z by (rule transmission_props(4) [OF m])
  have qpos: "0 < q h" if "0 \<le> h" for h
  proof -
    have "0 \<le> 2 * h * r" using that r by simp
    from transmission_props(2) [OF m this] show ?thesis by (simp add: q_def)
  qed
  have qmono: "q y < q x" if "0 \<le> x" "x < y" for x y
  proof -
    have "0 \<le> 2 * x * r" "2 * x * r < 2 * y * r" using that r by simp_all
    from transmission_props(3) [OF m this] show ?thesis by (simp add: q_def)
  qed
  have 1: "D 0 = 0" by (simp add: De q0)
  have 2: "D x < D y" if "0 \<le> x \<and> x < y" for x y
  proof -
    have "1 - q x < 1 - q y" using qmono that by simp
    then show ?thesis unfolding De using c by (intro mult_strict_left_mono)
  qed
  have 3: "D h < sAa g * t1 / tao * 0.5" if "0 \<le> h" for h
  proof -
    have "(sAa g * t1 / tao * 0.5) * (1 - q h) < (sAa g * t1 / tao * 0.5) * 1"
      using qpos [OF that] c by (intro mult_strict_left_mono) simp_all
    then show ?thesis by (simp add: De)
  qed
  have 4: "snow (g\<lparr>sHsn := h\<rparr>) = Inr (Some (D h), Some (2 / pi * D h))" if "0 \<le> h" for h
    using sn [OF that] by (simp add: D_def q_def)
  from 1 2 3 4 show ?thesis by blast
qed

lemma vegetation_mono:
  fixes Ta' Aa' P d1 d2 :: real
  assumes P: "0 \<le> P" "P < 1" and d: "d1 < d2"
    and key: "Ta' + 2 / pi * d2 \<le> 0 \<or> P * (1 + 2 / pi) < 1"
  shows "d1 + P * (Aa' - d1 - \<bar>Ta' + 2 / pi * d1\<bar>) < d2 + P * (Aa' - d2 - \<bar>Ta' + 2 / pi * d2\<bar>)"
proof -
  define k where "k = 2 / pi"
  have k: "0 < k" "k < 1" using two_over_pi by (simp_all add: k_def)
  define D where "D = d2 - d1"
  have D: "0 < D" using d by (simp add: D_def)
  define a where "a = \<bar>Ta' + k * d2\<bar> - \<bar>Ta' + k * d1\<bar>"
  have kD: "0 < k * D" using k D by simp
  have e: "Ta' + k * d2 = (Ta' + k * d1) + k * D" by (simp add: D_def algebra_simps)
  have main: "P * (D + a) < D"
    using key
  proof
    assume "Ta' + 2 / pi * d2 \<le> 0"
    then have "a = - (k * D)" using e kD by (simp add: a_def k_def [symmetric])
    then have "D + a = (1 - k) * D" by (simp add: algebra_simps)
    then have eq: "P * (D + a) = (P * (1 - k)) * D" by simp
    have "P * (1 - k) \<le> P * 1" using P k by (intro mult_left_mono) simp_all
    then have "P * (1 - k) < 1" using P by simp
    then have "(P * (1 - k)) * D < 1 * D" using D by (intro mult_strict_right_mono)
    then show ?thesis unfolding eq by simp
  next
    assume h: "P * (1 + 2 / pi) < 1"
    have "a \<le> k * D" using e kD by (simp add: a_def)
    then have "D + a \<le> D * (1 + k)" by (simp add: algebra_simps)
    then have "P * (D + a) \<le> P * (D * (1 + k))" using P by (intro mult_left_mono)
    also have "\<dots> = (P * (1 + k)) * D" by simp
    also have "\<dots> < 1 * D" using h D unfolding k_def by (intro mult_strict_right_mono)
    finally show ?thesis by simp
  qed
  have "d2 + P * (Aa' - d2 - \<bar>Ta' + k * d2\<bar>) - (d1 + P * (Aa' - d1 - \<bar>Ta' + k * d1\<bar>))
      = D - P * (D + a)"
    by (simp add: D_def a_def algebra_simps)
  with main show ?thesis unfolding k_def by linarith
qed

lemma vegetation_algebra:
  fixes X k d f t c w :: real
  assumes "w \<noteq> 0"
  shows "a + k * d + (X * f * t - c) / w * k = a - c / w * k + k * (d + f * (t / w) * X)"
    and "b - d - (X * f * t + c) / w = b - c / w - (d + f * (t / w) * X)"
  using assms by (simp_all add: field_simps)

lemma ground_surface_zero:
  assumes h: "sHsn g = 0" "sHvg1 g = 0" "sHvg2 g = 0"
    and A: "\<bar>sTa g\<bar> < sAa g" and Cf: "0 < sCf g" and L: "0 < sL g" and Kf: "0 < sKf g"
    and k: "0 < sKsn g * sCsn g"
    and t1: "stao1 g = Some t1" and t2: "stao2 g = Some t2"
    and p1: "0 < sDvf g * t1" and p2: "0 < sDvt g * t2"
  shows "ground_surface g = Inr (Some (sTa g), Some (sAa g))"
proof -
  from snow_general [OF A Cf L Kf k t1]
  obtain m r where m: "\<bar>m\<bar> < 1"
    and sn: "\<And>h. 0 \<le> h \<Longrightarrow> snow (g\<lparr>sHsn := h\<rparr>) = Inr
      (Some (sAa g * (1 - (1 + m) / sqrt (damping m (2 * h * r))) * t1 / tao * 0.5),
       Some (2 / pi * (sAa g * (1 - (1 + m) / sqrt (damping m (2 * h * r))) * t1 / tao * 0.5)))"
    by blast
  have g: "g\<lparr>sHsn := 0\<rparr> = g" using h(1) by simp
  have z: "2 * 0 * r = 0" by simp
  have "snow g = Inr (Some 0, Some 0)"
    using sn [of 0] unfolding g z transmission_props(4) [OF m] by simp
  then have "ground_surface g = Inr (vegetation g (Some 0) (Some 0))"
    by (simp add: ground_surface_def)
  also have "vegetation g (Some 0) (Some 0) = (Some (sTa g), Some (sAa g))"
    unfolding vegetation_eq [OF t1 t2 p1 p2] h by simp
  finally show ?thesis .
qed

lemma ground_surface_mono:
  assumes A: "\<bar>sTa g\<bar> < sAa g" and Cf: "0 < sCf g" and L: "0 < sL g" and Kf: "0 < sKf g"
    and k: "0 < sKsn g * sCsn g"
    and t1: "stao1 g = Some (tao * (0.5 - 1 / pi * arcsin (sTa g / sAa g)))"
    and t2: "stao2 g = Some t2" and t2p: "0 < t2"
    and Dv: "0 < sDvf g" "0 < sDvt g" and Hv: "0 \<le> sHvg1 g"
    and hh: "0 \<le> h1" "h1 < h2"
  shows "\<exists>T1 A1 T2 A2. ground_surface (g\<lparr>sHsn := h1\<rparr>) = Inr (Some T1, Some A1) \<and>
    ground_surface (g\<lparr>sHsn := h2\<rparr>) = Inr (Some T2, Some A2) \<and> T1 < T2 \<and> A2 < A1"
proof -
  define u where "u = sTa g / sAa g"
  define \<rho> where "\<rho> = 1 / 2 - arcsin u / pi"
  define t1 where "t1 = tao * \<rho>"
  have Aa: "0 < sAa g" using A by linarith
  have u: "- 1 < u" "u < 1" using A Aa by (simp_all add: u_def field_simps abs_less_iff)
  have as: "- (pi / 2) < arcsin u" "arcsin u < pi / 2"
    using arcsin_lt_bounded [OF u] by simp_all
  have "- (1 / 2) < arcsin u / pi" "arcsin u / pi < 1 / 2" using as by (simp_all add: field_simps)
  then have rho: "0 < \<rho>" "\<rho> < 1" by (simp_all add: \<rho>_def)
  have t1p: "0 < t1" using rho tao_pos by (simp add: t1_def)
  have t1': "stao1 g = Some t1" using t1 by (simp add: t1_def \<rho>_def u_def algebra_simps)
  have rt: "t1 / tao = \<rho>" using tao_pos by (simp add: t1_def)
  from snow_depth_effect [OF A Cf L Kf k t1' t1p]
  obtain D where D0: "D 0 = 0" and Dm: "\<And>x y. 0 \<le> x \<and> x < y \<Longrightarrow> D x < D y"
    and Dh: "\<And>h. 0 \<le> h \<Longrightarrow> D h < sAa g * t1 / tao * 0.5 \<and>
       snow (g\<lparr>sHsn := h\<rparr>) = Inr (Some (D h), Some (2 / pi * D h))"
    by blast
  define f1 where "f1 = 1 - exp (- 1 * sHvg1 g * sqrt (pi / (sDvf g * 2 * t1)))"
  define C2 where "C2 = (sAa g - \<bar>sTa g\<bar>) * (1 - exp (- 1 * sHvg2 g * sqrt (pi / (sDvt g * 2 * t2)))) * t2"
  define P where "P = f1 * \<rho>"
  define \<phi> where "\<phi> = (\<lambda>d. d + P * (sAa g - d - \<bar>sTa g + 2 / pi * d\<bar>))"
  have "0 \<le> sqrt (pi / (sDvf g * 2 * t1))" using Dv t1p by simp
  then have "0 \<le> sHvg1 g * sqrt (pi / (sDvf g * 2 * t1))" using Hv by (rule mult_nonneg_nonneg [rotated])
  then have "exp (- 1 * sHvg1 g * sqrt (pi / (sDvf g * 2 * t1))) \<le> 1" by simp
  then have f1: "0 \<le> f1" "f1 < 1" by (simp_all add: f1_def)
  have P: "0 \<le> P" "P < 1"
  proof -
    show "0 \<le> P" using f1 rho by (simp add: P_def)
    have "f1 * \<rho> \<le> 1 * \<rho>" using f1 rho by (intro mult_right_mono) simp_all
    then have "f1 * \<rho> \<le> \<rho>" by simp
    then show "P < 1" using rho unfolding P_def by linarith
  qed
  have p1: "0 < sDvf g * t1" and p2: "0 < sDvt g * t2" using Dv t1p t2p by simp_all
  have gs: "ground_surface (g\<lparr>sHsn := h\<rparr>) =
      Inr (Some (sTa g - C2 / tao * (2 / pi) + 2 / pi * \<phi> (D h)), Some (sAa g - C2 / tao - \<phi> (D h)))"
    if "0 \<le> h" for h
  proof -
    have "ground_surface (g\<lparr>sHsn := h\<rparr>)
        = Inr (vegetation (g\<lparr>sHsn := h\<rparr>) (Some (D h)) (Some (2 / pi * D h)))"
      using Dh [OF that] by (simp add: ground_surface_def)
    also have "vegetation (g\<lparr>sHsn := h\<rparr>) (Some (D h)) (Some (2 / pi * D h)) =
        (Some (sTa g + 2 / pi * D h +
           ((sAa g - D h - \<bar>sTa g + 2 / pi * D h\<bar>) * f1 * t1 - C2) / tao * (2 / pi)),
         Some (sAa g - D h - ((sAa g - D h - \<bar>sTa g + 2 / pi * D h\<bar>) * f1 * t1 + C2) / tao))"
      using vegetation_eq [of "g\<lparr>sHsn := h\<rparr>" t1 t2 "D h" "2 / pi * D h"] t1' t2 p1 p2
      by (simp add: f1_def C2_def)
    also have "sTa g + 2 / pi * D h +
           ((sAa g - D h - \<bar>sTa g + 2 / pi * D h\<bar>) * f1 * t1 - C2) / tao * (2 / pi)
        = sTa g - C2 / tao * (2 / pi) + 2 / pi * \<phi> (D h)"
      unfolding \<phi>_def P_def rt [symmetric] using tao_pos
      by (intro vegetation_algebra(1)) simp
    also have "sAa g - D h - ((sAa g - D h - \<bar>sTa g + 2 / pi * D h\<bar>) * f1 * t1 + C2) / tao
        = sAa g - C2 / tao - \<phi> (D h)"
      unfolding \<phi>_def P_def rt [symmetric] using tao_pos
      by (intro vegetation_algebra(2)) simp
    finally show ?thesis .
  qed
  have d12: "D h1 < D h2" using Dm [of h1 h2] hh by simp
  have h2: "0 \<le> h2" using hh by simp
  have "sAa g * t1 / tao * 0.5 = sAa g * (t1 / tao) / 2" by simp
  then have d2: "D h2 < sAa g * \<rho> / 2" using Dh [OF h2] unfolding rt by simp
  have key: "sTa g + 2 / pi * D h2 \<le> 0 \<or> P * (1 + 2 / pi) < 1"
  proof (cases "sTa g + 2 / pi * D h2 \<le> 0")
    case True
    then show ?thesis by simp
  next
    case False
    then have pos: "0 < sTa g + 2 / pi * D h2" by simp
    have "\<rho> * (1 + 2 / pi) \<le> 1"
    proof (cases "0 \<le> sTa g")
      case True
      then have "0 \<le> u" using Aa by (simp add: u_def)
      then have "0 \<le> arcsin u" using u by (intro arcsin_nonneg) simp
      then have "\<rho> \<le> 1 / 2" by (simp add: \<rho>_def)
      then have "\<rho> * (1 + 2 / pi) \<le> 1 / 2 * (1 + 2 / pi)"
        using two_over_pi by (intro mult_right_mono) simp_all
      also have "\<dots> \<le> 1" using two_over_pi by simp
      finally show ?thesis .
    next
      case False
      then have neg: "sTa g < 0" by simp
      have u0: "0 \<le> - u" "- u < 1" using neg Aa u by (simp_all add: u_def field_simps)
      have r: "\<rho> = 1 / 2 + arcsin (- u) / pi" by (simp add: \<rho>_def arcsin_minus u less_imp_le)
      have "- sTa g < 2 / pi * D h2" using pos by simp
      also have "\<dots> < 2 / pi * (sAa g * \<rho> / 2)"
        using d2 two_over_pi by (intro mult_strict_left_mono) simp_all
      finally have "- sTa g < sAa g * (\<rho> / pi)" by (simp add: field_simps)
      then have "- u < \<rho> / pi" using Aa by (simp add: u_def field_simps)
      from cold_fraction_bound [OF u0 r this] show ?thesis .
    qed
    moreover have "P * (1 + 2 / pi) \<le> f1 * (\<rho> * (1 + 2 / pi))" by (simp add: P_def)
    moreover have "f1 * (\<rho> * (1 + 2 / pi)) \<le> f1 * 1"
      using f1 calculation(1) by (intro mult_left_mono) simp_all
    ultimately have "P * (1 + 2 / pi) < 1" using f1 by simp
    then show ?thesis by simp
  qed
  have ph: "\<phi> (D h1) < \<phi> (D h2)"
    unfolding \<phi>_def using vegetation_mono [OF P d12 key] .
  have "2 / pi * \<phi> (D h1) < 2 / pi * \<phi> (D h2)"
    using ph two_over_pi by (intro mult_strict_left_mono) simp_all
  then show ?thesis using gs [OF hh(1)] gs [OF h2] ph by simp
qed

subsection \<open>From the inputs to the boundary values\<close>

lemma tao1_value:
  assumes "\<bar>Ta'\<bar> < Aa'"
  shows "tao1 Ta' Aa' = Inr (Some (tao * (0.5 - 1 / pi * arcsin (Ta' / Aa'))))"
    and "0 < tao * (0.5 - 1 / pi * arcsin (Ta' / Aa'))"
    and "0 < tao - tao * (0.5 - 1 / pi * arcsin (Ta' / Aa'))"
proof -
  have Aa: "0 < Aa'" using assms by linarith
  have u: "- 1 < Ta' / Aa'" "Ta' / Aa' < 1" using assms Aa by (simp_all add: field_simps abs_less_iff)
  have as: "- (pi / 2) < arcsin (Ta' / Aa')" "arcsin (Ta' / Aa') < pi / 2"
    using arcsin_lt_bounded [OF u] by simp_all
  have b: "- (1 / 2) < arcsin (Ta' / Aa') / pi" "arcsin (Ta' / Aa') / pi < 1 / 2"
    using as by (simp_all add: field_simps)
  have "\<bar>Ta' / Aa'\<bar> \<le> 1" using u by linarith
  then show "tao1 Ta' Aa' = Inr (Some (tao * (0.5 - 1 / pi * arcsin (Ta' / Aa'))))"
    using Aa unfolding tao1_def np_arcsin_def by simp
  show "0 < tao * (0.5 - 1 / pi * arcsin (Ta' / Aa'))" using b tao_pos by simp
  have "tao - tao * (0.5 - 1 / pi * arcsin (Ta' / Aa')) = tao * (0.5 + arcsin (Ta' / Aa') / pi)"
    by (simp add: algebra_simps)
  also have "0 < \<dots>" using b tao_pos by simp
  finally show "0 < tao - tao * (0.5 - 1 / pi * arcsin (Ta' / Aa'))" .
qed

lemma properties_Hsn: "properties (i\<lparr>Hsn := h\<rparr>) = properties i"
  by (simp add: properties_def Let_def split: sum.splits)

lemma cell4_args_Hsn: "cell4_args (i\<lparr>Hsn := h\<rparr>) p = (cell4_args i p)\<lparr>sHsn := h\<rparr>"
  by (simp add: cell4_args_def)

lemma physical_inputs:
  assumes A: "\<bar>Ta i\<bar> < Aa i" and W: "0 < W_vol i" and rho: "0 < rho_sn i"
    and Dv: "0 < Dvf i" "0 < Dvt i"
  shows "\<exists>p t2. properties i = Inr p \<and>
    (\<forall>h. boundary (i\<lparr>Hsn := h\<rparr>) = ground_surface ((cell4_args i p)\<lparr>sHsn := h\<rparr>)) \<and>
    \<bar>sTa (cell4_args i p)\<bar> < sAa (cell4_args i p) \<and> 0 < sCf (cell4_args i p) \<and>
    0 < sL (cell4_args i p) \<and> 0 < sKf (cell4_args i p) \<and>
    0 < sKsn (cell4_args i p) * sCsn (cell4_args i p) \<and>
    stao1 (cell4_args i p) = Some (tao * (0.5 - 1 / pi *
       arcsin (sTa (cell4_args i p) / sAa (cell4_args i p)))) \<and>
    0 < tao * (0.5 - 1 / pi * arcsin (sTa (cell4_args i p) / sAa (cell4_args i p))) \<and>
    stao2 (cell4_args i p) = Some t2 \<and> 0 < t2 \<and>
    0 < sDvf (cell4_args i p) \<and> 0 < sDvt (cell4_args i p) \<and>
    sTa (cell4_args i p) = Ta i \<and> sAa (cell4_args i p) = Aa i \<and>
    sHsn (cell4_args i p) = Hsn i \<and> sHvg1 (cell4_args i p) = Hvg1 i \<and>
    sHvg2 (cell4_args i p) = Hvg2 i \<and> 0 < pCt p"
proof -
  have Aa: "Aa i \<noteq> 0" using A by auto
  note tv = tao1_value [OF A]
  define t1 where "t1 = tao * (0.5 - 1 / pi * arcsin (Ta i / Aa i))"
  obtain p where p: "properties i = Inr p"
    and f: "pCf p = Cf (Heat_Capacity (percent_clay i) (percent_sand i) (percent_silt i))
             (Bulk_Density (percent_clay i) (percent_sand i) (percent_silt i)) (W_vol i)"
      "pCt p = Ct (Heat_Capacity (percent_clay i) (percent_sand i) (percent_silt i))
             (Bulk_Density (percent_clay i) (percent_sand i) (percent_silt i)) (W_vol i)"
      "pKf p = Kf (percent_silt i) (percent_clay i) (percent_sand i)"
      "pKsn p = Ksn (rho_sn i)" "pCsn p = Csn (rho_sn i)" "pL p = L (W_vol i)"
      "ptao1 p = Some t1" "ptao2 p = Some (tao - t1)"
    using tv(1) Aa by (simp add: properties_def Let_def t1_def tao2_def)
  have W0: "0 \<le> W_vol i" using W by simp
  have 1: "0 < pCf p" unfolding f using W0 by (rule Cf_pos)
  have 2: "0 < pCt p" unfolding f using W0 by (rule Ct_pos)
  have 3: "0 < pKf p" unfolding f by (rule Kf_pos)
  have 4: "0 < pKsn p * pCsn p" unfolding f using Ksn_pos [of "rho_sn i"] rho by (simp add: Csn_def)
  have 5: "0 < pL p" unfolding f using W by (simp add: L_def)
  have b: "boundary (i\<lparr>Hsn := h\<rparr>) = ground_surface ((cell4_args i p)\<lparr>sHsn := h\<rparr>)" for h
    using p by (simp add: boundary_def properties_Hsn cell4_args_Hsn)
  show ?thesis
    using p b 1 2 3 4 5 f(7,8) tv(2,3) A Dv
    by (intro exI [of _ p] exI [of _ "tao - t1"]) (simp add: cell4_args_def t1_def)
qed

lemma boundary_zero_insulation:
  assumes h: "Hsn i = 0" "Hvg1 i = 0" "Hvg2 i = 0"
    and A: "\<bar>Ta i\<bar> < Aa i" and W: "0 < W_vol i" and rho: "0 < rho_sn i"
    and Dv: "0 < Dvf i" "0 < Dvt i"
  shows "boundary i = Inr (Some (Ta i), Some (Aa i))"
proof -
  from physical_inputs [OF A W rho Dv]
  obtain p t2 where b: "\<And>h. boundary (i\<lparr>Hsn := h\<rparr>) = ground_surface ((cell4_args i p)\<lparr>sHsn := h\<rparr>)"
    and v: "\<bar>sTa (cell4_args i p)\<bar> < sAa (cell4_args i p)" "0 < sCf (cell4_args i p)"
    "0 < sL (cell4_args i p)" "0 < sKf (cell4_args i p)"
    "0 < sKsn (cell4_args i p) * sCsn (cell4_args i p)"
    "stao1 (cell4_args i p) = Some (tao * (0.5 - 1 / pi *
       arcsin (sTa (cell4_args i p) / sAa (cell4_args i p))))"
    "0 < tao * (0.5 - 1 / pi * arcsin (sTa (cell4_args i p) / sAa (cell4_args i p)))"
    "stao2 (cell4_args i p) = Some t2" "0 < t2"
    "0 < sDvf (cell4_args i p)" "0 < sDvt (cell4_args i p)"
    and e: "sTa (cell4_args i p) = Ta i" "sAa (cell4_args i p) = Aa i"
    "sHsn (cell4_args i p) = Hsn i" "sHvg1 (cell4_args i p) = Hvg1 i"
    "sHvg2 (cell4_args i p) = Hvg2 i"
    by blast
  have "i\<lparr>Hsn := 0\<rparr> = i" using h(1) by simp
  moreover have "(cell4_args i p)\<lparr>sHsn := 0\<rparr> = cell4_args i p" using e(3) h(1) by simp
  ultimately have "boundary i = ground_surface (cell4_args i p)" using b [of 0] by simp
  also have "\<dots> = Inr (Some (sTa (cell4_args i p)), Some (sAa (cell4_args i p)))"
    using v e h by (intro ground_surface_zero [where ?t1.0 = "tao * (0.5 - 1 / pi *
       arcsin (sTa (cell4_args i p) / sAa (cell4_args i p)))" and ?t2.0 = t2]) simp_all
  finally show ?thesis by (simp add: e)
qed

lemma reference_physical:
  "\<bar>Ta reference\<bar> < Aa reference \<and> 0 < W_vol reference \<and> 0 < rho_sn reference \<and>
   0 \<le> Hvg1 reference \<and> 0 < Dvf reference \<and> 0 < Dvt reference"
  by (simp add: reference_def)

text \<open>
  Claim C5. Zero-insulation degeneracy: without snow and without vegetation
  (\<open>Hsn = 0\<close>, \<open>Hvg1 = 0\<close>, \<open>Hvg2 = 0\<close>) and for otherwise valid physical values
  (\<open>\<bar>Ta\<bar> < Aa\<close>, positive \<open>Cf\<close>, \<open>L\<close> and \<open>Kf\<close>, \<open>Ksn * Csn > 0\<close>, season lengths that are
  numbers and make \<open>Dvf * tao1\<close> and \<open>Dvt * tao2\<close> positive), cell 4 returns the air values:
  \<open>Tgs = Ta\<close> and \<open>Ags = Aa\<close>. Lemma \<open>boundary_zero_insulation\<close> above is the same statement
  for the inputs of the whole program.
\<close>

theorem zero_insulation:
  assumes "sHsn g = 0" and "sHvg1 g = 0" and "sHvg2 g = 0"
    and "\<bar>sTa g\<bar> < sAa g" and "0 < sCf g" and "0 < sL g" and "0 < sKf g"
    and "0 < sKsn g * sCsn g"
    and "stao1 g = Some t1" and "stao2 g = Some t2"
    and "0 < sDvf g * t1" and "0 < sDvt g * t2"
  shows "ground_surface g = Inr (Some (sTa g), Some (sAa g))"
  using assms by (rule ground_surface_zero)

theorem zero_insulation_witness:
  "ground_surface
     \<lparr>sAa = 19.04, sTa = - 10.81, sHsn = 0, sHvg1 = 0, sHvg2 = 0,
      sDvf = 1.39 / 10 ^ 6, sDvt = 5.56 / 10 ^ 8, sCf = 10 ^ 6, sKf = 2,
      sKsn = 0.08, sCsn = 500000, sL = 10 ^ 8,
      stao1 = Some (tao * 0.6), stao2 = Some (tao * 0.4)\<rparr>
   = Inr (Some (- 10.81), Some 19.04)"
  using tao_pos
  by (subst zero_insulation [where ?t1.0 = "tao * 0.6" and ?t2.0 = "tao * 0.4"]) simp_all

text \<open>
  Claim C7. Monotonicity in the snow thickness: for inputs with \<open>\<bar>Ta\<bar> < Aa\<close>, positive
  water content, snow density and vegetation diffusivities and a non-negative winter
  vegetation height, and for snow thicknesses \<open>0 \<le> h1 < h2\<close>, all else fixed, the boundary
  values are numbers, and the thicker snow gives the strictly larger \<open>Tgs\<close> and the strictly
  smaller \<open>Ags\<close>.
\<close>

theorem snow_thickness_monotone:
  assumes "0 \<le> h1" and "h1 < h2"
    and "\<bar>Ta i\<bar> < Aa i" and "0 < W_vol i" and "0 < rho_sn i"
    and "0 \<le> Hvg1 i" and "0 < Dvf i" and "0 < Dvt i"
  shows "\<exists>T1 A1 T2 A2.
    boundary (i\<lparr>Hsn := h1\<rparr>) = Inr (Some T1, Some A1) \<and>
    boundary (i\<lparr>Hsn := h2\<rparr>) = Inr (Some T2, Some A2) \<and> T1 < T2 \<and> A2 < A1"
proof -
  from physical_inputs [OF assms(3,4,5,7,8)]
  obtain p t2 where b: "\<And>h. boundary (i\<lparr>Hsn := h\<rparr>) = ground_surface ((cell4_args i p)\<lparr>sHsn := h\<rparr>)"
    and v: "\<bar>sTa (cell4_args i p)\<bar> < sAa (cell4_args i p)" "0 < sCf (cell4_args i p)"
    "0 < sL (cell4_args i p)" "0 < sKf (cell4_args i p)"
    "0 < sKsn (cell4_args i p) * sCsn (cell4_args i p)"
    "stao1 (cell4_args i p) = Some (tao * (0.5 - 1 / pi *
       arcsin (sTa (cell4_args i p) / sAa (cell4_args i p))))"
    "stao2 (cell4_args i p) = Some t2" "0 < t2"
    "0 < sDvf (cell4_args i p)" "0 < sDvt (cell4_args i p)"
    and e: "sHvg1 (cell4_args i p) = Hvg1 i"
    by blast
  have "0 \<le> sHvg1 (cell4_args i p)" using assms(6) e by simp
  from ground_surface_mono [OF v this assms(1,2)] show ?thesis unfolding b .
qed

theorem snow_thickness_monotone_witness:
  "(0::real) \<le> 0.28 \<and> (0.28::real) < 1 \<and> \<bar>Ta reference\<bar> < Aa reference \<and>
   0 < W_vol reference \<and> 0 < rho_sn reference \<and> 0 \<le> Hvg1 reference \<and>
   0 < Dvf reference \<and> 0 < Dvt reference \<and>
   (\<exists>T1 A1 T2 A2.
      boundary (reference\<lparr>Hsn := 0.28\<rparr>) = Inr (Some T1, Some A1) \<and>
      boundary (reference\<lparr>Hsn := 1\<rparr>) = Inr (Some T2, Some A2) \<and> T1 < T2 \<and> A2 < A1)"
proof -
  have h: "(0::real) \<le> 0.28" "(0.28::real) < 1" by simp_all
  note r = reference_physical
  from snow_thickness_monotone [OF h, of reference] r h show ?thesis by simp
qed

text \<open>
  Claim C8 says that both vegetation factors are applied to the snow-adjusted range, so
  that \<open>deta_A2\<close> would be a function of \<open>Avg\<close> and \<open>Tvg\<close>. The script applies the summer
  factor to the raw air range \<open>Aa - \<bar>Ta\<bar>\<close>: with \<open>Aa = 19.04\<close>, \<open>Ta = -10.81\<close> and a snow
  effect \<open>deta_Asn = 5\<close> (so \<open>Avg = 14.04\<close> and \<open>Tvg = -10.81 + 10 / pi\<close>), \<open>deta_A2\<close> is
  the factor times \<open>8.23\<close>, not the factor times \<open>Avg - \<bar>Tvg\<bar>\<close>.
\<close>

theorem summer_vegetation_counterexample:
  "Avg 19.04 (Some 5) = Some 14.04 \<and>
   Tvg (- 10.81) (deta_Tsn (Some 5)) = Some (- 10.81 + 2 / pi * 5) \<and>
   deta_A2 19.04 (- 10.81) 0.1 (5.56 / 10 ^ 8) (Some (tao * 0.3))
     = Some ((19.04 - \<bar>- 10.81\<bar>) *
         (1 - exp (- 1 * 0.1 * sqrt (pi / (5.56 / 10 ^ 8 * 2 * (tao * 0.3)))))) \<and>
   (19.04 - \<bar>- 10.81 :: real\<bar>) *
         (1 - exp (- 1 * 0.1 * sqrt (pi / (5.56 / 10 ^ 8 * 2 * (tao * 0.3)))))
     \<noteq> (14.04 - \<bar>- 10.81 + 2 / pi * 5\<bar>) *
         (1 - exp (- 1 * 0.1 * sqrt (pi / (5.56 / 10 ^ 8 * 2 * (tao * 0.3)))))"
proof -
  define F :: real where "F = 1 - exp (- 1 * 0.1 * sqrt (pi / (5.56 / 10 ^ 8 * 2 * (tao * 0.3))))"
  have q: "0 < pi / (5.56 / 10 ^ 8 * 2 * (tao * 0.3))" using tao_pos by simp
  then have "0 < sqrt (pi / (5.56 / 10 ^ 8 * 2 * (tao * 0.3)))" by (rule real_sqrt_gt_zero)
  then have "- 1 * 0.1 * sqrt (pi / (5.56 / 10 ^ 8 * 2 * (tao * 0.3))) < 0" by simp
  then have "exp (- 1 * 0.1 * sqrt (pi / (5.56 / 10 ^ 8 * 2 * (tao * 0.3)))) < 1"
    by (simp only: exp_less_one_iff)
  then have F: "0 < F" by (simp add: F_def)
  have 1: "Avg 19.04 (Some 5) = Some 14.04" by (simp add: Avg_def)
  have 2: "Tvg (- 10.81) (deta_Tsn (Some 5)) = Some (- 10.81 + 2 / pi * 5)"
    by (simp add: Tvg_def deta_Tsn_def)
  have n: "5.56 / 10 ^ 8 * 2 * (tao * 0.3) \<noteq> 0" using tao_pos by simp
  have 3: "deta_A2 19.04 (- 10.81) 0.1 (5.56 / 10 ^ 8) (Some (tao * 0.3))
     = Some ((19.04 - \<bar>- 10.81\<bar>) * F)"
    unfolding deta_A2_def np_exp_sqrt_div_def np_div_def np_sqrt_def F_def using n q
    by (simp only: Option.bind.simps if_False not_less [symmetric] less_imp_le) simp
  have "2 / pi * 5 < 1 * (5::real)" using two_over_pi by (intro mult_strict_right_mono) simp_all
  then have lt: "2 / pi * 5 < (5::real)" by simp
  then have "\<bar>- 10.81 + 2 / pi * 5\<bar> = 10.81 - 2 / pi * 5" by simp
  moreover have "2 / pi * 5 \<noteq> (5::real)" using lt by simp
  ultimately have "(19.04 - \<bar>- 10.81 :: real\<bar>) \<noteq> (14.04 - \<bar>- 10.81 + 2 / pi * 5\<bar>)" by simp
  then have 4: "(19.04 - \<bar>- 10.81 :: real\<bar>) * F \<noteq> (14.04 - \<bar>- 10.81 + 2 / pi * 5\<bar>) * F"
    using F by simp
  from 1 2 3 4 show ?thesis unfolding F_def by blast
qed

text \<open>
  Claim C8, amended. The vegetation part works from the snow-adjusted temperature
  \<open>Tvg = Ta + deta_Tsn\<close> and amplitude \<open>Avg = Aa - deta_Asn\<close>. The winter effect \<open>deta_A1\<close> is
  the factor \<open>1 - exp (- Hvg1 * sqrt (pi / (2 * Dvf * tao1)))\<close> applied to the snow-adjusted
  range \<open>Avg - \<bar>Tvg\<bar>\<close>; the summer effect \<open>deta_A2\<close> is the factor
  \<open>1 - exp (- Hvg2 * sqrt (pi / (2 * Dvt * tao2)))\<close> applied to the raw air range
  \<open>Aa - \<bar>Ta\<bar>\<close>, and does not depend on the snow adjustment. Each is \<^verbatim>\<open>nan\<close> when the
  quotient under the square root is negative. When the divisor \<open>2 * Dvf * tao1\<close>
  (\<open>2 * Dvt * tao2\<close>) is zero, numpy's quotient is an infinity: with a conductivity and a
  season length that are not negative and a positive height the exponential is
  \<^verbatim>\<open>np.exp(-inf) = 0\<close>, the factor is \<open>1\<close> and the effect is the whole range; in the other
  cases of a zero divisor the effect is not a finite number.
\<close>

theorem vegetation_factors:
  "deta_A1 (Some a) (Some t) Hvg1' Dvf' (Some t1) =
     (if Dvf' * 2 * t1 = 0
      then (if 0 \<le> Dvf' \<and> 0 \<le> t1 \<and> 0 < Hvg1' then Some ((a - \<bar>t\<bar>) * 1) else None)
      else if pi / (Dvf' * 2 * t1) < 0 then None
      else Some ((a - \<bar>t\<bar>) * (1 - exp (- (Hvg1' * sqrt (pi / (2 * Dvf' * t1))))))) \<and>
   deta_A2 Aa' Ta' Hvg2' Dvt' (Some t2) =
     (if Dvt' * 2 * t2 = 0
      then (if 0 \<le> Dvt' \<and> 0 \<le> t2 \<and> 0 < Hvg2' then Some ((Aa' - \<bar>Ta'\<bar>) * 1) else None)
      else if pi / (Dvt' * 2 * t2) < 0 then None
      else Some ((Aa' - \<bar>Ta'\<bar>) * (1 - exp (- (Hvg2' * sqrt (pi / (2 * Dvt' * t2))))))) \<and>
   Tvg Ta' (Some e) = Some (Ta' + e) \<and> Avg Aa' (Some d) = Some (Aa' - d) \<and>
   vegetation g (Some d) (Some e) =
     (Tgs (Some (sTa g + e))
        (deta_Tv (deta_A1 (Some (sAa g - d)) (Some (sTa g + e)) (sHvg1 g) (sDvf g) (stao1 g))
                 (deta_A2 (sAa g) (sTa g) (sHvg2 g) (sDvt g) (stao2 g)) (stao1 g) (stao2 g)),
      Ags (Some (sAa g - d))
        (deta_Av (deta_A1 (Some (sAa g - d)) (Some (sTa g + e)) (sHvg1 g) (sDvf g) (stao1 g))
                 (deta_A2 (sAa g) (sTa g) (sHvg2 g) (sDvt g) (stao2 g)) (stao1 g) (stao2 g)))"
  by (auto simp add: deta_A1_def deta_A2_def np_exp_sqrt_div_def np_div_def np_sqrt_def
      Tvg_def Avg_def vegetation_def Let_def mult.commute mult.left_commute)


section \<open>Undefined values in the solver\<close>

lemma Tps_numerator_small_Ags:
  assumes "\<bar>a\<bar> < pi"
  shows "Tps_numerator Tgs' (Some a) Kf' Kt' = None"
proof (cases "a = 0")
  case True
  then show ?thesis by (cases Tgs') (simp_all add: Tps_numerator_def np_div_def)
next
  case False
  then have "0 < a * a" by (auto simp: zero_less_mult_iff)
  moreover have "\<bar>a\<bar> * \<bar>a\<bar> < pi * pi"
    using assms by (intro mult_strict_mono) simp_all
  then have "a * a < pi * pi" by simp
  ultimately have "1 < pi * pi / (a * a)" by simp
  then show ?thesis using False
    by (cases Tgs') (simp_all add: Tps_numerator_def np_div_def np_sqrt_def np_arcsin_def)
qed

lemma Tps_numerator_large_Tgs:
  assumes "\<bar>a\<bar> < \<bar>t\<bar>"
  shows "Tps_numerator (Some t) (Some a) Kf' Kt' = None"
proof (cases "a = 0")
  case True
  then show ?thesis by (simp_all add: Tps_numerator_def np_div_def)
next
  case False
  then have "1 < \<bar>t / a\<bar>" using assms by simp
  then show ?thesis using False
    by (simp_all add: Tps_numerator_def np_div_def np_arcsin_def)
qed

lemma solver_nan:
  assumes "Tps_numerator Tgs' Ags' Kf' Kt' = None"
  shows "solver Tgs' Ags' Kf' Kt' Cf' Ct' L' =
    (if Ct' = 0 then Inl ZeroDivisionError
     else Inr \<lparr>flag = 1, tps = None, aps = None, zc = None, zal = None\<rparr>)"
  using assms
  by (cases Ags')
    (simp_all add: solver_def Let_def branch_def np_le_def Tps_def Aps_def Zc_def Zal_def)

lemma program_nan:
  assumes "properties i = Inr p" and "boundary i = Inr (Tgs', Ags')"
    and "Tps_numerator Tgs' Ags' (pKf p) (pKt p) = None"
  shows "program i =
    (if pCt p = 0 then Inl ZeroDivisionError else Inr \<lparr>TTOP = None, ALT = None\<rparr>)"
  using assms solver_nan [OF assms(3), of "pCf p" "pCt p" "pL p"]
  by (simp add: program_def boundary_def)

lemma snow_nan:
  assumes "stao1 g = None" and "sL g \<noteq> 0" and "2 * \<bar>sTa g\<bar> * sCf g / sL g + 1 \<noteq> 0"
    and "sKsn g \<noteq> 0"
  shows "snow g = Inr (None, None)"
proof -
  have d: "deta_Asn x None = None" for x
    by (cases x) (simp_all add: deta_Asn_def)
  obtain c where c: "Cef (sCf g) (2 * sAa g * sCf g / sL g) (2 * \<bar>sTa g\<bar> * sCf g / sL g) = Inr c"
    using assms(3) by (simp add: Cef_def)
  obtain x where x: "s (sHsn g) (sCsn g) (sKsn g) (mu (sKsn g) (sCsn g) (sKf g) c) = Inr x"
    using assms(4) tao_pos by (simp add: s_def)
  show ?thesis
    using assms(1,2) c x by (simp add: snow_def alpha_def beta_def Let_def d deta_Tsn_def)
qed

lemma vegetation_nan: "vegetation g None None = (None, None)"
  by (simp add: vegetation_def Let_def Tvg_def Avg_def Tgs_def Ags_def)

lemma program_small_amplitude_example:
  "program (reference\<lparr>Aa := 1\<rparr>) = Inr \<lparr>TTOP = None, ALT = None\<rparr>"
proof -
  define i where "i = reference\<lparr>Aa := 1\<rparr>"
  obtain p where p: "properties i = Inr p" and t1: "ptao1 p = None"
    and Ct: "pCt p = Ct (Heat_Capacity (percent_clay i) (percent_sand i) (percent_silt i))
             (Bulk_Density (percent_clay i) (percent_sand i) (percent_silt i)) (W_vol i)"
    and Cf: "pCf p = Cf (Heat_Capacity (percent_clay i) (percent_sand i) (percent_silt i))
             (Bulk_Density (percent_clay i) (percent_sand i) (percent_silt i)) (W_vol i)"
    and L: "pL p = L (W_vol i)" and Ksn: "pKsn p = Ksn (rho_sn i)"
    using properties_value [of i]
    by (simp add: i_def reference_def np_arcsin_def)
  have W: "0 \<le> W_vol i" "W_vol i \<noteq> 0" by (simp_all add: i_def reference_def)
  have Cfp: "0 < pCf p" unfolding Cf using W(1) by (rule Cf_pos)
  have Ctp: "0 < pCt p" unfolding Ct using W(1) by (rule Ct_pos)
  have Lp: "0 < pL p" unfolding L by (simp add: L_def i_def reference_def)
  have "0 \<le> 2 * \<bar>Ta i\<bar> * pCf p / pL p" using Cfp Lp by simp
  then have b: "2 * \<bar>Ta i\<bar> * pCf p / pL p + 1 \<noteq> 0" by linarith
  have "snow (cell4_args i p) = Inr (None, None)"
    using t1 Lp b Ksn_pos [of "rho_sn i"]
    by (intro snow_nan) (simp_all add: cell4_args_def Ksn)
  then have "boundary i = Inr (None, None)"
    using p by (simp add: boundary_def ground_surface_def vegetation_nan)
  moreover have "Tps_numerator None None (pKf p) (pKt p) = None"
    by (simp add: Tps_numerator_def)
  ultimately show ?thesis
    using program_nan [OF p, of None None] Ctp by (simp add: i_def)
qed

text \<open>
  Claim C10. The numerator of \<open>Tps\<close> contains \<open>sqrt (1 - pi * pi / (Ags * Ags))\<close>, whose
  argument is negative for \<open>0 < Ags < pi\<close>. For every amplitude \<open>Ags\<close> with \<open>\<bar>Ags\<bar> < pi\<close>,
  whatever \<open>Tgs\<close> and the soil properties are, \<open>Tps_numerator\<close> is not a number, the test
  of the branch fails (flag \<open>1\<close>), and \<open>Tps\<close>, \<open>Aps\<close>, \<open>Zc\<close> and \<open>Zal\<close> are not numbers either;
  so the program prints \<^verbatim>\<open>nan\<close> twice for every input that leads to such an amplitude
  (the run ends earlier only if \<open>Ct = 0\<close>, with the \<^verbatim>\<open>ZeroDivisionError\<close> of \<^verbatim>\<open>L/(2.*C)\<close>).
  The witness has \<open>\<bar>Tgs\<bar> < Ags\<close>.
\<close>

theorem small_amplitude_gives_nan:
  "\<bar>a\<bar> < pi \<Longrightarrow>
   Tps_numerator Tgs' (Some a) Kf' Kt' = None \<and>
   solver Tgs' (Some a) Kf' Kt' Cf' Ct' L' =
     (if Ct' = 0 then Inl ZeroDivisionError
      else Inr \<lparr>flag = 1, tps = None, aps = None, zc = None, zal = None\<rparr>) \<and>
   (\<forall>i p. properties i = Inr p \<and> boundary i = Inr (Tgs', Some a) \<longrightarrow>
      program i =
        (if pCt p = 0 then Inl ZeroDivisionError else Inr \<lparr>TTOP = None, ALT = None\<rparr>))"
  using Tps_numerator_small_Ags [of a] solver_nan program_nan by simp

theorem small_amplitude_gives_nan_witness:
  "\<bar>1::real\<bar> < pi \<and> \<bar>- (1 / 2)::real\<bar> < 1 \<and>
   Tps_numerator (Some (- (1 / 2))) (Some 1) 2 1 = None \<and>
   solver (Some (- (1 / 2))) (Some 1) 2 1 3 4 5 =
     Inr \<lparr>flag = 1, tps = None, aps = None, zc = None, zal = None\<rparr> \<and>
   boundary (reference\<lparr>Ta := - (1 / 2), Aa := 1, Hsn := 0\<rparr>)
     = Inr (Some (- (1 / 2)), Some 1) \<and>
   program (reference\<lparr>Ta := - (1 / 2), Aa := 1, Hsn := 0\<rparr>)
     = Inr \<lparr>TTOP = None, ALT = None\<rparr>"
proof -
  define i where "i = reference\<lparr>Ta := - (1 / 2), Aa := 1, Hsn := 0\<rparr>"
  have h: "\<bar>1::real\<bar> < pi" using pi_ge_two by simp
  note t = small_amplitude_gives_nan [OF h, of "Some (- (1 / 2))"]
  have v: "\<bar>Ta i\<bar> < Aa i" "0 < W_vol i" "0 < rho_sn i" "0 < Dvf i" "0 < Dvt i"
    and z: "Hsn i = 0" "Hvg1 i = 0" "Hvg2 i = 0"
    by (simp_all add: i_def reference_def)
  have b: "boundary i = Inr (Some (- (1 / 2)), Some 1)"
    using boundary_zero_insulation [OF z v] by (simp add: i_def)
  from physical_inputs [OF v] obtain p where p: "properties i = Inr p" "0 < pCt p"
    by blast
  have "program i = Inr \<lparr>TTOP = None, ALT = None\<rparr>"
    using t [of 2 1] p b by simp
  with t [of 2 1 3 4 5] h b show ?thesis by (simp add: i_def)
qed

text \<open>
  Claim C4 says that an input with \<open>\<bar>Tgs\<bar> > Ags\<close> makes the program report a distinct
  domain error. The script has no such check: \<^verbatim>\<open>np.arcsin\<close> yields \<^verbatim>\<open>nan\<close>, the run goes
  on and prints \<^verbatim>\<open>nan\<close>. The counterexample gives a solver input with \<open>\<bar>Tgs\<bar> > Ags\<close> and,
  for the whole program, the reference inputs with the amplitude \<open>Aa\<close> lowered to \<open>1\<close>
  (a small amplitude with a large mean temperature): both runs end without an error.
\<close>

theorem domain_error_counterexample:
  "\<bar>- 10::real\<bar> > 5 \<and>
   solver (Some (- 10)) (Some 5) 2 1 3 4 5 =
     Inr \<lparr>flag = 1, tps = None, aps = None, zc = None, zal = None\<rparr> \<and>
   program (reference\<lparr>Aa := 1\<rparr>) = Inr \<lparr>TTOP = None, ALT = None\<rparr>"
proof -
  have "Tps_numerator (Some (- 10)) (Some 5) 2 1 = None"
    by (rule Tps_numerator_large_Tgs) simp
  from solver_nan [OF this, of 3 4 5] program_small_amplitude_example
  show ?thesis by simp
qed

text \<open>
  Claim C4, amended. For every solver input with \<open>\<bar>Tgs\<bar> > \<bar>Ags\<bar>\<close> (for an amplitude
  \<open>Ags \<ge> 0\<close> this is the claim's \<open>\<bar>Tgs\<bar> > Ags\<close>) no domain error is reported:
  \<open>Tps_numerator\<close> is not a number, the thawed branch is taken, and the solver returns
  with \<open>Tps\<close>, \<open>Aps\<close>, \<open>Zc\<close> and \<open>Zal\<close> all \<^verbatim>\<open>nan\<close>; the program then prints \<^verbatim>\<open>nan\<close> twice.
  The only exception that can end the run is the \<^verbatim>\<open>ZeroDivisionError\<close> of \<^verbatim>\<open>L/(2.*C)\<close>
  when \<open>Ct = 0\<close>.
\<close>

theorem arcsin_domain_gives_nan:
  "\<bar>a\<bar> < \<bar>t\<bar> \<Longrightarrow>
   Tps_numerator (Some t) (Some a) Kf' Kt' = None \<and>
   solver (Some t) (Some a) Kf' Kt' Cf' Ct' L' =
     (if Ct' = 0 then Inl ZeroDivisionError
      else Inr \<lparr>flag = 1, tps = None, aps = None, zc = None, zal = None\<rparr>) \<and>
   (\<forall>i p. properties i = Inr p \<and> boundary i = Inr (Some t, Some a) \<longrightarrow>
      program i =
        (if pCt p = 0 then Inl ZeroDivisionError else Inr \<lparr>TTOP = None, ALT = None\<rparr>))"
  using Tps_numerator_large_Tgs [of a t] solver_nan program_nan by simp

theorem arcsin_domain_gives_nan_witness:
  "\<bar>5::real\<bar> < \<bar>- 10\<bar> \<and>
   Tps_numerator (Some (- 10)) (Some 5) 2 1 = None \<and>
   solver (Some (- 10)) (Some 5) 2 1 3 4 5 =
     Inr \<lparr>flag = 1, tps = None, aps = None, zc = None, zal = None\<rparr>"
proof -
  have "\<bar>5::real\<bar> < \<bar>- 10\<bar>" by simp
  from arcsin_domain_gives_nan [OF this, of 2 1 3 4 5] this
  show ?thesis by simp
qed


section \<open>The solver on valid inputs\<close>

lemma Aps_Some:
  assumes "Aps (Some a) (Some tp) L' C' = Inr (Some p)" and "p \<noteq> 0 - L' / (2 * C')"
  shows "C' \<noteq> 0 \<and> \<bar>tp\<bar> + L' / (2 * C') \<noteq> 0 \<and>
    0 < (a + L' / (2 * C')) / (\<bar>tp\<bar> + L' / (2 * C')) \<and>
    ln ((a + L' / (2 * C')) / (\<bar>tp\<bar> + L' / (2 * C'))) \<noteq> 0 \<and>
    p = (a - \<bar>tp\<bar>) / ln ((a + L' / (2 * C')) / (\<bar>tp\<bar> + L' / (2 * C'))) - L' / (2 * C')"
  using assms
  by (auto simp: Aps_def np_div_def np_log_def split: if_splits)

lemma Aps_gt_imp:
  assumes C: "0 < C'" and L: "0 \<le> L'" and a: "0 < a"
    and A: "Aps (Some a) (Some tp) L' C' = Inr (Some p)" and p: "\<bar>tp\<bar> < p"
  shows "\<bar>tp\<bar> < a"
proof (rule ccontr)
  assume "\<not> \<bar>tp\<bar> < a"
  then have le: "a \<le> \<bar>tp\<bar>" by simp
  define c where "c = L' / (2 * C')"
  have c0: "0 \<le> c" using C L by (simp add: c_def)
  define R where "R = (a + c) / (\<bar>tp\<bar> + c)"
  have "p \<noteq> 0 - c" using p c0 by simp
  from Aps_Some [OF A this [unfolded c_def]] have R0: "0 < R" and lnR: "ln R \<noteq> 0"
    and pe: "p = (a - \<bar>tp\<bar>) / ln R - c"
    by (simp_all add: R_def c_def)
  have d: "0 < \<bar>tp\<bar> + c" using le a c0 by linarith
  have "a \<noteq> \<bar>tp\<bar>"
  proof
    assume "a = \<bar>tp\<bar>"
    then have "R = 1" using d by (simp add: R_def)
    then show False using lnR by simp
  qed
  with le have lt: "a < \<bar>tp\<bar>" by simp
  have R1: "R - 1 = (a - \<bar>tp\<bar>) / (\<bar>tp\<bar> + c)"
    using d by (simp add: R_def field_simps)
  have "ln R \<le> R - 1" using R0 by (rule ln_le_minus_one)
  then have l1: "ln R \<le> (a - \<bar>tp\<bar>) / (\<bar>tp\<bar> + c)" using R1 by simp
  also have "\<dots> < 0" using lt d by (simp add: field_simps)
  finally have neg: "ln R < 0" .
  from l1 d have "ln R * (\<bar>tp\<bar> + c) \<le> a - \<bar>tp\<bar>" by (simp add: field_simps)
  then have "(a - \<bar>tp\<bar>) / ln R \<le> \<bar>tp\<bar> + c"
    using neg by (simp add: field_simps)
  then have "p \<le> \<bar>tp\<bar>" using pe by simp
  with p show False by simp
qed

lemma Zal_pos:
  assumes K: "0 < K'" and C: "0 < C'" and L: "0 \<le> L'" and a: "0 < a"
    and A: "Aps (Some a) (Some tp) L' C' = Inr (Some p)" and p: "\<bar>tp\<bar> < p"
  shows "\<exists>z0 z. Zc (Some a) (Some tp) (Some p) K' C' L' = Some z0 \<and> 0 < z0 \<and>
    Zal (Some a) (Some tp) (Some p) (Some z0) K' C' L' = Inr (Some z) \<and> 0 < z"
proof -
  have ta: "\<bar>tp\<bar> < a" using Aps_gt_imp [OF C L a A p] .
  have p0: "0 < p" using p by linarith
  define r1 where "r1 = sqrt (K' * tao * C' / pi)"
  define r2 where "r2 = sqrt (K' * tao / (pi * C'))"
  define D where "D = 2 * p * C' + L'"
  define X where "X = 2 * (a - \<bar>tp\<bar>) * r1"
  have r1: "0 < r1" using K C tao_pos by (simp add: r1_def)
  have r2: "0 < r2" using K C tao_pos by (simp add: r2_def)
  have D: "0 < D" using p0 C L unfolding D_def
    by (metis add_pos_nonneg mult_pos_pos zero_less_numeral)
  have X: "0 < X" using ta r1 by (simp add: X_def)
  define z0 where "z0 = X / D"
  have z0: "0 < z0" using X D by (simp add: z0_def)
  have "0 < K' * tao * C' / pi" using K C tao_pos by simp
  then have n1: "\<not> K' * tao * C' / pi < 0" by simp
  have "0 < K' * tao / (pi * C')" using K C tao_pos by simp
  then have n2: "\<not> K' * tao / (pi * C') < 0" by simp
  have Zc: "Zc (Some a) (Some tp) (Some p) K' C' L' = Some z0"
    using n1 D
    by (simp add: Zc_def np_sqrt_def np_div_def z0_def X_def D_def r1_def)
  define num where "num = (2 * p * C' * z0 + L' * z0) * L' * r2"
  define den where "den = 2 * a * C' * z0 + L' * z0 + (2 * p * C' + L') * r2"
  have num: "0 \<le> num" using p0 C z0 L r2 by (simp add: num_def)
  have "0 < 2 * a * C' * z0" using a C z0 by simp
  moreover have "0 \<le> L' * z0" using L z0 by simp
  moreover have "0 < (2 * p * C' + L') * r2" using D r2 by (simp add: D_def)
  ultimately have den: "0 < den" unfolding den_def by linarith
  define z where "z = (X + num / den) / D"
  have "0 \<le> num / den" using num den by simp
  then have z: "0 < z" using X D by (simp add: z_def add_pos_nonneg)
  have "Zal (Some a) (Some tp) (Some p) (Some z0) K' C' L' = Inr (Some z)"
    using C D den n1 n2 
    by (simp add: Zal_def np_sqrt_def np_div_def z_def X_def D_def r1_def r2_def num_def den_def)
  with Zc z0 z show ?thesis by blast
qed

lemma solver_valid_aux:
  assumes K: "0 < Kf'" "0 < Kt'" and C: "0 < Cf'" "0 < Ct'" and L: "0 \<le> L'"
    and ta: "\<bar>t\<bar> < a"
  shows "\<exists>r. solver (Some t) (Some a) Kf' Kt' Cf' Ct' L' = Inr r \<and>
    (\<forall>tp p. tps r = Some tp \<and> aps r = Some p \<and> \<bar>tp\<bar> < p \<longrightarrow>
       (\<exists>z0 z. zc r = Some z0 \<and> 0 < z0 \<and> zal r = Some z \<and> 0 < z))"
proof -
  define n where "n = Tps_numerator (Some t) (Some a) Kf' Kt'"
  define b where "b = branch n Kf' Kt' Cf' Ct'"
  have Kb: "0 < K b" and Cb: "0 < C b"
    using K C by (simp_all add: b_def branch_def)
  have a: "0 < a" using ta by linarith
  obtain A where A: "Aps (Some a) (Tps n (K_star b)) L' (C b) = Inr A"
    using Cb by (simp add: Aps_def)
  obtain Z where Z: "Zal (Some a) (Tps n (K_star b)) A
      (Zc (Some a) (Tps n (K_star b)) A (K b) (C b) L') (K b) (C b) L' = Inr Z"
    using Cb by (simp add: Zal_def)
  define r where "r = \<lparr>flag = Flag b, tps = Tps n (K_star b), aps = A,
     zc = Zc (Some a) (Tps n (K_star b)) A (K b) (C b) L', zal = Z\<rparr>"
  have s: "solver (Some t) (Some a) Kf' Kt' Cf' Ct' L' = Inr r"
    using A Z by (simp add: solver_def Let_def n_def [symmetric] b_def [symmetric] r_def)
  have "\<exists>z0 z. zc r = Some z0 \<and> 0 < z0 \<and> zal r = Some z \<and> 0 < z"
    if "tps r = Some tp" "aps r = Some p" "\<bar>tp\<bar> < p" for tp p
  proof -
    from that have T: "Tps n (K_star b) = Some tp" and Ap: "A = Some p"
      by (simp_all add: r_def)
    from Zal_pos [OF Kb Cb L a A [unfolded T Ap] that(3)]
    obtain z0 z where "Zc (Some a) (Some tp) (Some p) (K b) (C b) L' = Some z0" "0 < z0"
      "Zal (Some a) (Some tp) (Some p) (Some z0) (K b) (C b) L' = Inr (Some z)" "0 < z"
      by blast
    then show ?thesis using Z T Ap by (auto simp: r_def)
  qed
  with s show ?thesis by blast
qed


lemma Tps_numerator_zero: "Tps_numerator (Some 0) (Some 4) 1 1 = Some 0"
  using pi_sq_le_16 by (simp add: Tps_numerator_def np_div_def np_arcsin_def np_sqrt_def)

lemma Aps_cex: "Aps (Some 4) (Some 0) (- 10) 1 = Inr (Some (5 - 4 / ln 5))"
  using ln5_bounds
  by (simp add: Aps_def np_div_def np_log_def ln_div)

lemma Zc_cex: "Zc (Some 4) (Some 0) (Some (5 - 4 / ln 5)) 1 1 (- 10) = Some (- (sqrt (tao / pi) * ln 5))"
  using ln5_bounds tao_pos
  by (simp add: Zc_def np_div_def np_sqrt_def field_simps)

lemma Zal_algebra:
  fixes w q :: real
  assumes w: "1 < w" "w < 2" and q: "0 < q"
  shows "2 * (q * w) \<noteq> 8 * q / w"
    and "8 * q + (20 * ((5 - 4 / w) * (q * w)) - 100 * (q * w)) * q / (2 * (q * w) - 8 * q / w)
           = q * (8 + 40 * w / (4 - w\<^sup>2))"
proof -
  have w0: "0 < w" using w by simp
  have "w * w < 2 * 2" using w by (intro mult_strict_mono) simp_all
  then have w2: "0 < 4 - w\<^sup>2" by (simp add: power2_eq_square)
  have den: "2 * (q * w) - 8 * q / w = - (2 * q * (4 - w\<^sup>2) / w)"
    using w0 by (simp add: power2_eq_square field_simps)
  have "0 < 2 * q * (4 - w\<^sup>2) / w" using w0 w2 q by simp
  then show "2 * (q * w) \<noteq> 8 * q / w" using den by linarith
  have num: "(20 * ((5 - 4 / w) * (q * w)) - 100 * (q * w)) * q = - (80 * q * q)"
    using w0 by (simp add: field_simps)
  have "- (80 * q * q) / (- (2 * q * (4 - w\<^sup>2) / w)) = 40 * q * w / (4 - w\<^sup>2)"
    using w0 w2 q by (simp add: field_simps)
  then have "(20 * ((5 - 4 / w) * (q * w)) - 100 * (q * w)) * q / (2 * (q * w) - 8 * q / w)
      = 40 * q * w / (4 - w\<^sup>2)"
    by (simp only: num den)
  then show "8 * q + (20 * ((5 - 4 / w) * (q * w)) - 100 * (q * w)) * q / (2 * (q * w) - 8 * q / w)
           = q * (8 + 40 * w / (4 - w\<^sup>2))"
    by (simp add: algebra_simps)
qed

lemma Zal_cex: "Zal (Some 4) (Some 0) (Some (5 - 4 / ln 5)) (Some (- (sqrt (tao / pi) * ln 5))) 1 1 (- 10)
   = Inr (Some (- (ln 5 * sqrt (tao / pi) * (1 + 5 * ln 5 / (4 - (ln 5)\<^sup>2)))))"
proof -
  define w where "w = ln (5::real)"
  define q where "q = sqrt (tao / pi)"
  have w: "1 < w" "w < 2" using ln5_bounds by (simp_all add: w_def)
  have q: "0 < q" using tao_pos by (simp add: q_def)
  note alg = Zal_algebra [OF w q]
  have n: "\<not> tao / pi < 0" using tao_pos by (simp add: not_less)
  have w0: "w \<noteq> 0" using w by simp
  have "(8 * q + (20 * ((5 - 4 / w) * (q * w)) - 100 * (q * w)) * q / (2 * (q * w) - 8 * q / w))
      / (2 * (5 - 4 / w) - 10) = - (w * q * (1 + 5 * w / (4 - w\<^sup>2)))"
    unfolding alg(2) using w0 by (simp add: field_simps)
  then show ?thesis
    unfolding w_def [symmetric] q_def [symmetric]
    using alg(1) n w0
    by (simp add: Zal_def np_div_def np_sqrt_def q_def [symmetric])
qed


lemma solver_cex:
  "solver (Some 0) (Some 4) 1 1 1 1 (- 10) =
     Inr \<lparr>flag = - 1, tps = Some 0, aps = Some (5 - 4 / ln 5),
          zc = Some (- (sqrt (tao / pi) * ln 5)),
          zal = Some (- (ln 5 * sqrt (tao / pi) * (1 + 5 * ln 5 / (4 - (ln 5)\<^sup>2))))\<rparr>"
  by (simp add: solver_def Let_def Tps_numerator_zero branch_def np_le_def Tps_def np_div_def
      Aps_cex Zc_cex Zal_cex)

lemma solver_cex_signs:
  "\<bar>0::real\<bar> < 5 - 4 / ln 5 \<and>
   - (ln 5 * sqrt (tao / pi) * (1 + 5 * ln 5 / (4 - (ln 5)\<^sup>2))) < (0::real)"
proof -
  define w where "w = ln (5::real)"
  have w: "1 < w" "w < 2" using ln5_bounds by (simp_all add: w_def)
  have "w * w < 2 * 2" using w by (intro mult_strict_mono) simp_all
  then have w2: "0 < 4 - w\<^sup>2" by (simp add: power2_eq_square)
  have "4 / w < 4" using w by (simp add: field_simps)
  then have 1: "\<bar>0::real\<bar> < 5 - 4 / w" by simp
  have "0 < 5 * w / (4 - w\<^sup>2)" using w w2 by simp
  then have "0 < w * sqrt (tao / pi) * (1 + 5 * w / (4 - w\<^sup>2))"
    using w tao_pos by (intro mult_pos_pos) simp_all
  then show ?thesis using 1 by (simp add: w_def)
qed


text \<open>
  Claim C3 says that the solver returns a finite, non-negative \<open>Zal\<close> whenever
  \<open>Ags > \<bar>Tgs\<bar>\<close>, \<open>Aps > \<bar>Tps\<bar>\<close> and all heat capacities and conductivities are positive.
  The latent heat \<open>L\<close> is not among these conditions, and with a negative \<open>L\<close> the claim
  fails: for \<open>Tgs = 0\<close>, \<open>Ags = 4\<close>, all capacities and conductivities \<open>1\<close> and \<open>L = -10\<close>
  the solver returns \<open>Tps = 0\<close>, \<open>Aps = 5 - 4 / ln 5 > 0\<close> and a negative \<open>Zal\<close>.
\<close>

theorem solver_negative_Zal_counterexample:
  "\<bar>0::real\<bar> < 4 \<and> (0::real) < 1 \<and>
   solver (Some 0) (Some 4) 1 1 1 1 (- 10) =
     Inr \<lparr>flag = - 1, tps = Some 0, aps = Some (5 - 4 / ln 5),
          zc = Some (- (sqrt (tao / pi) * ln 5)),
          zal = Some (- (ln 5 * sqrt (tao / pi) * (1 + 5 * ln 5 / (4 - (ln 5)\<^sup>2))))\<rparr> \<and>
   \<bar>0::real\<bar> < 5 - 4 / ln 5 \<and>
   - (ln 5 * sqrt (tao / pi) * (1 + 5 * ln 5 / (4 - (ln 5)\<^sup>2))) < (0::real)"
  using solver_cex solver_cex_signs by simp

text \<open>
  Claim C3, amended: the latent heat is non-negative as well. For every solver input with
  \<open>Ags > \<bar>Tgs\<bar>\<close>, positive \<open>Kf\<close>, \<open>Kt\<close>, \<open>Cf\<close>, \<open>Ct\<close> and \<open>L \<ge> 0\<close>, the solver returns
  without an exception, and whenever the \<open>Tps\<close> and \<open>Aps\<close> it returns are numbers with
  \<open>Aps > \<bar>Tps\<bar>\<close>, then \<open>Tps_numerator\<close>, \<open>Zc\<close> and \<open>Zal\<close> are numbers too (no square
  root, logarithm, division or arcsin was undefined), \<open>Zc\<close> is positive and \<open>Zal\<close> is
  positive, hence non-negative.
\<close>

theorem solver_Zal_nonnegative:
  assumes "0 < Kf'" and "0 < Kt'" and "0 < Cf'" and "0 < Ct'" and "0 \<le> L'"
    and "\<bar>t\<bar> < a"
  shows "\<exists>r. solver (Some t) (Some a) Kf' Kt' Cf' Ct' L' = Inr r \<and>
    (\<forall>tp p. tps r = Some tp \<and> aps r = Some p \<and> \<bar>tp\<bar> < p \<longrightarrow>
       (\<exists>n z0 z. Tps_numerator (Some t) (Some a) Kf' Kt' = Some n \<and>
          zc r = Some z0 \<and> 0 < z0 \<and> zal r = Some z \<and> 0 < z \<and> 0 \<le> z))"
proof -
  from solver_valid_aux [OF assms]
  obtain r where r: "solver (Some t) (Some a) Kf' Kt' Cf' Ct' L' = Inr r"
    and z: "\<And>tp p. tps r = Some tp \<and> aps r = Some p \<and> \<bar>tp\<bar> < p \<Longrightarrow>
       \<exists>z0 z. zc r = Some z0 \<and> 0 < z0 \<and> zal r = Some z \<and> 0 < z"
    by blast
  have n: "\<exists>n. Tps_numerator (Some t) (Some a) Kf' Kt' = Some n" if "tps r = Some tp" for tp
  proof (cases "Tps_numerator (Some t) (Some a) Kf' Kt'")
    case None
    from solver_nan [OF this, of Cf' Ct' L'] r that show ?thesis
      by (simp split: if_splits)
  next
    case (Some n)
    then show ?thesis by simp
  qed
  have "\<forall>tp p. tps r = Some tp \<and> aps r = Some p \<and> \<bar>tp\<bar> < p \<longrightarrow>
       (\<exists>n z0 z. Tps_numerator (Some t) (Some a) Kf' Kt' = Some n \<and>
          zc r = Some z0 \<and> 0 < z0 \<and> zal r = Some z \<and> 0 < z \<and> 0 \<le> z)"
  proof (intro allI impI)
    fix tp p
    assume h: "tps r = Some tp \<and> aps r = Some p \<and> \<bar>tp\<bar> < p"
    from z [OF h] n [of tp] h
    show "\<exists>n z0 z. Tps_numerator (Some t) (Some a) Kf' Kt' = Some n \<and>
          zc r = Some z0 \<and> 0 < z0 \<and> zal r = Some z \<and> 0 < z \<and> 0 \<le> z"
      by fastforce
  qed
  with r show ?thesis by blast
qed

lemma solver_example:
  "\<exists>r. solver (Some 0) (Some 4) 1 1 1 1 2 = Inr r \<and> tps r = Some 0 \<and>
     aps r = Some (4 / ln 5 - 1)"
  using ln5_bounds
  by (simp add: solver_def Let_def Tps_numerator_zero branch_def np_le_def Tps_def np_div_def
      Aps_def Zal_def np_log_def)

theorem solver_Zal_nonnegative_witness:
  "(0::real) < 1 \<and> (0::real) \<le> 2 \<and> \<bar>0::real\<bar> < 4 \<and>
   (\<exists>r z. solver (Some 0) (Some 4) 1 1 1 1 2 = Inr r \<and> tps r = Some 0 \<and>
      aps r = Some (4 / ln 5 - 1) \<and> \<bar>0::real\<bar> < 4 / ln 5 - 1 \<and>
      zal r = Some z \<and> 0 \<le> z)"
proof -
  have p: "\<bar>0::real\<bar> < 4 / ln 5 - 1" using ln5_bounds by (simp add: field_simps)
  from solver_example obtain r where r: "solver (Some 0) (Some 4) 1 1 1 1 2 = Inr r"
    "tps r = Some 0" "aps r = Some (4 / ln 5 - 1)" by blast
  have "(0::real) < 1" "(0::real) \<le> 2" "\<bar>0::real\<bar> < 4" by simp_all
  from solver_Zal_nonnegative [OF this(1) this(1) this(1) this(1) this(2) this(3)] r p
  obtain z where "zal r = Some z" "0 \<le> z" by fastforce
  with r p show ?thesis by auto
qed


section \<open>The reference run\<close>

text \<open>
  The notebook ends with the two numbers it prints for the values of cell 2,
  \<^verbatim>\<open>TTOP= -7.69149521078\<close> and \<^verbatim>\<open>ALT= 0.578469574333\<close>. This section follows the
  whole computation for these inputs with explicit bounds: every intermediate value of the
  script is enclosed in an interval with decimal end points, and the enclosures are
  propagated from one assignment to the next. The transcendental functions are bounded
  through their Taylor polynomials with remainder, roots through powers.
\<close>

subsection \<open>Enclosures of elementary functions\<close>

lemma exp_taylor_lower:
  fixes x :: real
  assumes "0 \<le> x"
  shows "(\<Sum>m<n. x ^ m / fact m) \<le> exp x"
proof -
  obtain t where "exp x = (\<Sum>m<n. x ^ m / fact m) + exp t / fact n * x ^ n"
    using Maclaurin_exp_le [of x n] by blast
  moreover have "0 \<le> exp t / fact n * x ^ n" using assms by simp
  ultimately show ?thesis by linarith
qed

lemma exp_taylor_upper:
  fixes x :: real
  assumes "0 \<le> x" and "x \<le> 1"
  shows "exp x \<le> (\<Sum>m<n. x ^ m / fact m) + 3 * x ^ n / fact n"
proof -
  obtain t where t: "\<bar>t\<bar> \<le> \<bar>x\<bar>"
    and e: "exp x = (\<Sum>m<n. x ^ m / fact m) + exp t / fact n * x ^ n"
    using Maclaurin_exp_le [of x n] by blast
  have "t \<le> 1" using t assms by linarith
  then have "exp t \<le> exp 1" by simp
  then have "exp t \<le> 3" using exp_le by linarith
  then have "exp t * (x ^ n / fact n) \<le> 3 * (x ^ n / fact n)"
    using assms by (intro mult_right_mono) simp_all
  then show ?thesis unfolding e by (simp add: field_simps)
qed

lemma cos_taylor:
  fixes x :: real
  shows "\<bar>cos x - (\<Sum>m<n. cos_coeff m * x ^ m)\<bar> \<le> \<bar>x\<bar> ^ n / fact n"
proof -
  obtain t where e: "cos x = (\<Sum>m<n. cos_coeff m * x ^ m)
      + cos (t + 1 / 2 * real n * pi) / fact n * x ^ n"
    using Maclaurin_cos_expansion [of x n] by blast
  have "\<bar>cos (t + 1 / 2 * real n * pi) / fact n * x ^ n\<bar>
      = \<bar>cos (t + 1 / 2 * real n * pi)\<bar> * (\<bar>x\<bar> ^ n / fact n)"
    by (simp add: abs_mult power_abs)
  also have "\<dots> \<le> 1 * (\<bar>x\<bar> ^ n / fact n)"
    by (intro mult_right_mono) simp_all
  finally show ?thesis unfolding e by simp
qed

lemma sin_taylor:
  fixes x :: real
  shows "\<bar>sin x - (\<Sum>m<n. sin_coeff m * x ^ m)\<bar> \<le> \<bar>x\<bar> ^ n / fact n"
  using Maclaurin_sin_bound [of x n] by (simp add: field_simps)

lemma powr_tenth_power:
  fixes x :: real
  assumes "0 < x"
  shows "(x powr (real k / 10)) ^ 10 = x ^ k"
proof -
  have "(x powr (real k / 10)) ^ 10 = (x powr (real k / 10)) powr (real (10::nat))"
    using assms by (subst powr_realpow) simp_all
  also have "\<dots> = x powr (real k)" by (simp add: powr_powr)
  also have "\<dots> = x ^ k" using assms by (rule powr_realpow)
  finally show ?thesis .
qed

lemma tenth_root_bounds:
  fixes P N lo hi :: real
  assumes "P ^ 10 = N" and "0 \<le> P" and "0 \<le> hi" and "lo ^ 10 \<le> N" and "N \<le> hi ^ 10"
  shows "lo \<le> P \<and> P \<le> hi"
proof
  have "lo ^ Suc 9 \<le> P ^ Suc 9" using assms by simp
  then show "lo \<le> P" using assms(2) by (rule power_le_imp_le_base)
  have "P ^ Suc 9 \<le> hi ^ Suc 9" using assms by simp
  then show "P \<le> hi" using assms(3) by (rule power_le_imp_le_base)
qed

lemma prod_bounds:
  fixes x y :: real
  assumes "x1 \<le> x" and "x \<le> x2" and "y1 \<le> y" and "y \<le> y2"
  shows "x1 * y + x * y1 - x1 * y1 \<le> x * y"
    and "x2 * y + x * y2 - x2 * y2 \<le> x * y"
    and "x * y \<le> x1 * y + x * y2 - x1 * y2"
    and "x * y \<le> x2 * y + x * y1 - x2 * y1"
proof -
  have "0 \<le> (x - x1) * (y - y1)" "0 \<le> (x2 - x) * (y2 - y)"
    "0 \<le> (x - x1) * (y2 - y)" "0 \<le> (x2 - x) * (y - y1)"
    using assms by simp_all
  then show "x1 * y + x * y1 - x1 * y1 \<le> x * y"
    and "x2 * y + x * y2 - x2 * y2 \<le> x * y"
    and "x * y \<le> x1 * y + x * y2 - x1 * y2"
    and "x * y \<le> x2 * y + x * y1 - x2 * y1"
    by (simp_all add: algebra_simps)
qed

lemma ln_lower: "exp a \<le> x \<Longrightarrow> a \<le> ln x" for x :: real
proof -
  assume h: "exp a \<le> x"
  have "0 < x" using h exp_gt_zero [of a] by linarith
  then show ?thesis using h by (simp add: ln_ge_iff)
qed

lemma ln_upper: "0 < x \<Longrightarrow> x \<le> exp b \<Longrightarrow> ln x \<le> b" for x :: real
  by (metis exp_le_cancel_iff exp_ln)

lemma arcsin_bounds:
  fixes u lo hi :: real
  assumes "- 1 \<le> u" and "u \<le> 1" and "- (pi / 2) \<le> lo" and "hi \<le> pi / 2"
    and "lo \<le> hi" and "sin lo \<le> u" and "u \<le> sin hi"
  shows "lo \<le> arcsin u \<and> arcsin u \<le> hi"
proof
  have l: "- pi / 2 \<le> lo" "lo \<le> pi / 2" using assms by simp_all
  have h: "- pi / 2 \<le> hi" "hi \<le> pi / 2" using assms by simp_all
  show "lo \<le> arcsin u" using le_arcsin_iff [OF assms(1,2) l] assms(6) by simp
  show "arcsin u \<le> hi" using arcsin_le_iff [OF assms(1,2) h] assms(7) by simp
qed

lemma exp_upper_at:
  fixes x u :: real
  assumes "0 \<le> x" and "x \<le> 1" and "(\<Sum>m<n. x ^ m / fact m) + 3 * x ^ n / fact n \<le> u"
  shows "exp x \<le> u"
  using exp_taylor_upper [OF assms(1,2), of n] assms(3) by linarith

lemma exp_lower_at:
  fixes x l :: real
  assumes "0 \<le> x" and "l \<le> (\<Sum>m<n. x ^ m / fact m)"
  shows "l \<le> exp x"
  using exp_taylor_lower [OF assms(1), of n] assms(2) by linarith

lemma sqrt_interval:
  fixes x lo hi :: real
  assumes "lo\<^sup>2 \<le> x" and "x \<le> hi\<^sup>2" and "0 \<le> hi"
  shows "lo \<le> sqrt x \<and> sqrt x \<le> hi"
  using real_le_rsqrt [OF assms(1)] real_le_lsqrt [OF assms(3,2)] by simp

lemma quotient_interval:
  fixes x y lo hi :: real
  assumes "0 < y" and "lo * y \<le> x" and "x \<le> hi * y"
  shows "lo \<le> x / y \<and> x / y \<le> hi"
  using assms by (simp add: pos_le_divide_eq pos_divide_le_eq)

lemma exp_interval:
  fixes y lo hi l u :: real
  assumes "lo \<le> y \<and> y \<le> hi" and "0 \<le> lo" and "hi \<le> 1"
    and "l \<le> (\<Sum>m<n. lo ^ m / fact m)"
    and "(\<Sum>m<k. hi ^ m / fact m) + 3 * hi ^ k / fact k \<le> u"
  shows "l \<le> exp y \<and> exp y \<le> u"
proof
  have "l \<le> exp lo" using assms(2,4) by (rule exp_lower_at)
  also have "\<dots> \<le> exp y" using assms(1) by simp
  finally show "l \<le> exp y" .
  have "0 \<le> hi" using assms(1,2) by linarith
  then have "exp hi \<le> u" using assms(3,5) by (rule exp_upper_at)
  moreover have "exp y \<le> exp hi" using assms(1) by simp
  ultimately show "exp y \<le> u" by linarith
qed

lemma cos_interval:
  fixes y lo hi l u :: real
  assumes "lo \<le> y \<and> y \<le> hi" and "0 \<le> lo" and "hi \<le> 3"
    and "l \<le> (\<Sum>m<n. cos_coeff m * hi ^ m) - \<bar>hi\<bar> ^ n / fact n"
    and "(\<Sum>m<k. cos_coeff m * lo ^ m) + \<bar>lo\<bar> ^ k / fact k \<le> u"
  shows "l \<le> cos y \<and> cos y \<le> u"
proof
  have p: "3 < pi" using pi_bounds by simp
  have y0: "0 \<le> y" "y \<le> hi" "lo \<le> y" using assms(1,2) by linarith+
  have "hi \<le> pi" using assms(3) p by linarith
  then have "cos hi \<le> cos y" using y0 by (intro cos_monotone_0_pi_le) simp_all
  moreover have "l \<le> cos hi" using cos_taylor [of hi n] assms(4) by linarith
  ultimately show "l \<le> cos y" by linarith
  have "y \<le> pi" using y0 assms(3) p by linarith
  then have "cos y \<le> cos lo" using y0 assms(2) by (intro cos_monotone_0_pi_le) simp_all
  moreover have "cos lo \<le> u" using cos_taylor [of lo k] assms(5) by linarith
  ultimately show "cos y \<le> u" by linarith
qed

lemma prod_interval:
  fixes x y x1 x2 y1 y2 l u :: real
  assumes x: "x1 \<le> x" "x \<le> x2" and y: "y1 \<le> y" "y \<le> y2"
    and l: "l \<le> x1 * y1" "l \<le> x1 * y2" "l \<le> x2 * y1" "l \<le> x2 * y2"
    and u: "x1 * y1 \<le> u" "x1 * y2 \<le> u" "x2 * y1 \<le> u" "x2 * y2 \<le> u"
  shows "l \<le> x * y \<and> x * y \<le> u"
proof -
  have between: "min (c * y1) (c * y2) \<le> c * y \<and> c * y \<le> max (c * y1) (c * y2)" for c
  proof (cases "0 \<le> c")
    case True
    then have "c * y1 \<le> c * y" "c * y \<le> c * y2" using y by (simp_all add: mult_left_mono)
    then show ?thesis by simp
  next
    case False
    then have "c * y2 \<le> c * y" "c * y \<le> c * y1" using y by (simp_all add: mult_left_mono_neg)
    then show ?thesis by simp
  qed
  have b1: "l \<le> x1 * y" "x1 * y \<le> u" using between [of x1] l u by linarith+
  have b2: "l \<le> x2 * y" "x2 * y \<le> u" using between [of x2] l u by linarith+
  show ?thesis
  proof (cases "0 \<le> y")
    case True
    then have "x1 * y \<le> x * y" "x * y \<le> x2 * y" using x by (simp_all add: mult_right_mono)
    then show ?thesis using b1 b2 by simp
  next
    case False
    then have "x2 * y \<le> x * y" "x * y \<le> x1 * y" using x by (simp_all add: mult_right_mono_neg)
    then show ?thesis using b1 b2 by simp
  qed
qed

lemma sin_interval:
  fixes lo hi l u :: real
  assumes "(\<Sum>m<n. sin_coeff m * lo ^ m) + \<bar>lo\<bar> ^ n / fact n \<le> l"
    and "u \<le> (\<Sum>m<k. sin_coeff m * hi ^ m) - \<bar>hi\<bar> ^ k / fact k"
  shows "sin lo \<le> l \<and> u \<le> sin hi"
  using sin_taylor [of lo n] sin_taylor [of hi k] assms by linarith


subsection \<open>Soil properties and season lengths of the reference run\<close>

lemma reference_HCBD:
  "971726.64 \<le> Heat_Capacity 0.1 0.6 0.3 * Bulk_Density 0.1 0.6 0.3 \<and>
   Heat_Capacity 0.1 0.6 0.3 * Bulk_Density 0.1 0.6 0.3 \<le> 971726.65"
proof (rule tenth_root_bounds)
  have e: "(0.1::real) = real 1 / 10" "(0.6::real) = real 6 / 10" "(0.3::real) = real 3 / 10"
    by simp_all
  show "(Heat_Capacity 0.1 0.6 0.3 * Bulk_Density 0.1 0.6 0.3) ^ 10
      = 900 * 690 ^ 6 * 730 ^ 3 * (1500 * 1300 ^ 6 * 1400 ^ 3)"
    unfolding Heat_Capacity_def Bulk_Density_def Heat_Capacity_Clay_def Heat_Capacity_Sand_def
      Heat_Capacity_Silt_def Bulk_Density_Clay_def Bulk_Density_Sand_def Bulk_Density_Silt_def
      power_mult_distrib e
    by (simp only: powr_tenth_power zero_less_numeral power_one_right)
  show "0 \<le> Heat_Capacity 0.1 0.6 0.3 * Bulk_Density 0.1 0.6 0.3"
    using Heat_Capacity_pos [of "0.1" "0.6" "0.3"] Bulk_Density_pos [of "0.1" "0.6" "0.3"] by simp
  show "(0::real) \<le> 971726.65" by simp
  show "(971726.64::real) ^ 10 \<le> 900 * 690 ^ 6 * 730 ^ 3 * (1500 * 1300 ^ 6 * 1400 ^ 3)"
    by (simp add: power_divide)
  show "(900::real) * 690 ^ 6 * 730 ^ 3 * (1500 * 1300 ^ 6 * 1400 ^ 3) \<le> 971726.65 ^ 10"
    by (simp add: power_divide)
qed

lemma Cf_Ct_bounds_aux:
  fixes P :: real
  assumes "971726.64 \<le> P \<and> P \<le> 971726.65"
  shows "972556.89 \<le> P + 2025 * 0.41 \<and> P + 2025 * 0.41 \<le> 972556.90"
    and "973444.54 \<le> P + 4190 * 0.41 \<and> P + 4190 * 0.41 \<le> 973444.55"
  using assms by simp_all

lemma reference_Cf:
  "972556.89 \<le> Cf (Heat_Capacity 0.1 0.6 0.3) (Bulk_Density 0.1 0.6 0.3) 0.41 \<and>
   Cf (Heat_Capacity 0.1 0.6 0.3) (Bulk_Density 0.1 0.6 0.3) 0.41 \<le> 972556.90"
  unfolding Cf_def by (rule Cf_Ct_bounds_aux(1) [OF reference_HCBD])

lemma reference_Ct:
  "973444.54 \<le> Ct (Heat_Capacity 0.1 0.6 0.3) (Bulk_Density 0.1 0.6 0.3) 0.41 \<and>
   Ct (Heat_Capacity 0.1 0.6 0.3) (Bulk_Density 0.1 0.6 0.3) 0.41 \<le> 973444.55"
  unfolding Ct_def by (rule Cf_Ct_bounds_aux(2) [OF reference_HCBD])

lemma reference_Kf: "1.87123220 \<le> Kf 0.3 0.1 0.6 \<and> Kf 0.3 0.1 0.6 \<le> 1.87123221"
proof (rule tenth_root_bounds)
  have e: "(0.1::real) = real 1 / 10" "(0.6::real) = real 6 / 10" "(0.3::real) = real 3 / 10"
    by simp_all
  have v: "Kf_Silt = 1.825" "Kf_Clay = 1.575" "Kf_Sand = 1.95"
    by (simp_all add: Kf_Silt_def Kf_Clay_def Kf_Sand_def)
  have p: "((1.825::real) powr (real 3 / 10)) ^ 10 = 1.825 ^ 3"
    "((1.575::real) powr (real 1 / 10)) ^ 10 = 1.575 ^ 1"
    "((1.95::real) powr (real 6 / 10)) ^ 10 = 1.95 ^ 6"
    by (rule powr_tenth_power, simp)+
  show "Kf 0.3 0.1 0.6 ^ 10 = 1.825 ^ 3 * 1.575 * 1.95 ^ 6"
    unfolding Kf_def power_mult_distrib e v p by (simp only: power_one_right)
  show "0 \<le> Kf 0.3 0.1 0.6" using Kf_pos [of "0.3" "0.1" "0.6"] by simp
  show "(0::real) \<le> 1.87123221" by simp
  show "(1.87123220::real) ^ 10 \<le> 1.825 ^ 3 * 1.575 * 1.95 ^ 6" by (simp add: power_divide)
  show "(1.825::real) ^ 3 * 1.575 * 1.95 ^ 6 \<le> 1.87123221 ^ 10" by (simp add: power_divide)
qed

lemma reference_Kt: "1.52933958 \<le> Kt 0.3 0.1 0.6 \<and> Kt 0.3 0.1 0.6 \<le> 1.52933959"
proof (rule tenth_root_bounds)
  have e: "(0.1::real) = real 1 / 10" "(0.6::real) = real 6 / 10" "(0.3::real) = real 3 / 10"
    by simp_all
  have v: "Kt_Silt = 1.475" "Kt_Clay = 1.3" "Kt_Sand = 1.6"
    by (simp_all add: Kt_Silt_def Kt_Clay_def Kt_Sand_def)
  have p: "((1.475::real) powr (real 3 / 10)) ^ 10 = 1.475 ^ 3"
    "((1.3::real) powr (real 1 / 10)) ^ 10 = 1.3 ^ 1"
    "((1.6::real) powr (real 6 / 10)) ^ 10 = 1.6 ^ 6"
    by (rule powr_tenth_power, simp)+
  show "Kt 0.3 0.1 0.6 ^ 10 = 1.475 ^ 3 * 1.3 * 1.6 ^ 6"
    unfolding Kt_def power_mult_distrib e v p by (simp only: power_one_right)
  show "0 \<le> Kt 0.3 0.1 0.6" using Kt_pos [of "0.3" "0.1" "0.6"] by simp
  show "(0::real) \<le> 1.52933959" by simp
  show "(1.52933958::real) ^ 10 \<le> 1.475 ^ 3 * 1.3 * 1.6 ^ 6" by (simp add: power_divide)
  show "(1.475::real) ^ 3 * 1.3 * 1.6 ^ 6 \<le> 1.52933959 ^ 10" by (simp add: power_divide)
qed

lemma reference_arcsin:
  "0.60377258 \<le> arcsin (1081 / 1904 :: real) \<and> arcsin (1081 / 1904 :: real) \<le> 0.60377260"
proof (rule arcsin_bounds)
  have pb: "3 < pi" using pi_bounds by simp
  show "- 1 \<le> (1081 / 1904 :: real)" "(1081 / 1904 :: real) \<le> 1" by simp_all
  show "- (pi / 2) \<le> 0.60377258" "0.60377260 \<le> pi / 2" using pb by simp_all
  show "(0.60377258::real) \<le> 0.60377260" by simp
  have "\<bar>sin 0.60377258 - (\<Sum>m<10. sin_coeff m * (0.60377258::real) ^ m)\<bar>
      \<le> \<bar>0.60377258\<bar> ^ 10 / fact 10"
    by (rule sin_taylor)
  moreover have "(\<Sum>m<10. sin_coeff m * (0.60377258::real) ^ m) + \<bar>0.60377258\<bar> ^ 10 / fact 10
      \<le> (1081 / 1904 :: real)"
    by (simp add: lessThan_Suc eval_nat_numeral fact_numeral power_divide cos_coeff_Suc sin_coeff_Suc)
  ultimately show "sin 0.60377258 \<le> (1081 / 1904 :: real)" by linarith
  have "\<bar>sin 0.60377260 - (\<Sum>m<10. sin_coeff m * (0.60377260::real) ^ m)\<bar>
      \<le> \<bar>0.60377260\<bar> ^ 10 / fact 10"
    by (rule sin_taylor)
  moreover have "(1081 / 1904 :: real)
      \<le> (\<Sum>m<10. sin_coeff m * (0.60377260::real) ^ m) - \<bar>0.60377260\<bar> ^ 10 / fact 10"
    by (simp add: lessThan_Suc eval_nat_numeral fact_numeral power_divide cos_coeff_Suc sin_coeff_Suc)
  ultimately show "(1081 / 1904 :: real) \<le> sin 0.60377260" by linarith
qed

lemma cold_fraction_reference:
  fixes A :: real
  assumes A: "0.60377258 \<le> A \<and> A \<le> 0.60377260"
  shows "0.69218678 \<le> 0.5 - 1 / pi * (- A) \<and> 0.5 - 1 / pi * (- A) \<le> 0.69218679"
proof -
  have p: "3.14159265 < pi" "pi < 3.14159266" using pi_bounds by simp_all
  have p0: "0 < pi" by simp
  have "0.19218678 * pi \<le> A" using A p by simp
  then have 1: "0.19218678 \<le> A / pi" using p0 by (simp only: pos_le_divide_eq)
  have "A \<le> 0.19218679 * pi" using A p by simp
  then have 2: "A / pi \<le> 0.19218679" using p0 by (simp only: pos_divide_le_eq)
  have e: "0.5 - 1 / pi * (- A) = 0.5 + A / pi" by simp
  show ?thesis unfolding e using 1 2 by simp
qed

lemma reference_tao1:
  fixes T A :: real
  assumes T: "T = - 10.81" and A: "A = 19.04"
  shows "\<exists>rho. tao1 T A = Inr (Some (tao * rho)) \<and> 0 < tao * rho \<and> 0 < tao - tao * rho \<and>
     0.69218678 \<le> rho \<and> rho \<le> 0.69218679"
proof -
  have h: "\<bar>T\<bar> < A" unfolding T A by simp
  have e: "arcsin (T / A) = - arcsin (1081 / 1904)"
    unfolding T A by (simp add: arcsin_minus [symmetric])
  show ?thesis
    using tao1_value [OF h] cold_fraction_reference [OF reference_arcsin] unfolding e
    by blast
qed


subsection \<open>Snow effect of the reference run\<close>

lemma Cef_interval:
  fixes cf A T L' :: real
  assumes cf: "972556.89 \<le> cf \<and> cf \<le> 972556.90"
    and A: "A = 19.04" and T: "T = - 10.81" and L: "L' = 137350000"
  shows "\<exists>c. Cef cf (2 * A * cf / L') (2 * \<bar>T\<bar> * cf / L') = Inr (Some c) \<and>
    5594343 \<le> c \<and> c \<le> 5594345"
proof -
  define a where "a = 2 * A * cf / L'"
  define b where "b = 2 * \<bar>T\<bar> * cf / L'"
  have ae: "a = cf * (38.08 / 137350000)" and be: "b = cf * (21.62 / 137350000)"
    unfolding a_def b_def A T L by simp_all
  have b0: "0 \<le> b" and ab: "b < a" using cf unfolding ae be by simp_all
  note v = Cef_value [OF b0 ab]
  define R where "R = (a + 1) / (b + 1)"
  have bp: "0 < b + 1" using b0 by simp
  have "1.101077295 * (b + 1) \<le> a + 1" using cf unfolding ae be by simp
  then have R1: "1.101077295 \<le> R" unfolding R_def using bp by (simp only: pos_le_divide_eq)
  have "a + 1 \<le> 1.101077296 * (b + 1)" using cf unfolding ae be by simp
  then have R2: "R \<le> 1.101077296" unfolding R_def using bp by (simp only: pos_divide_le_eq)
  have "exp (0.096289059::real) \<le> 1.101077295"
    by (rule exp_upper_at [where n = 8])
      (simp_all add: lessThan_Suc eval_nat_numeral fact_numeral power_divide)
  then have l1: "0.096289059 \<le> ln R" using R1 by (intro ln_lower) simp
  have "(1.101077296::real) \<le> exp 0.096289061"
    by (rule exp_lower_at [where n = 8])
      (simp_all add: lessThan_Suc eval_nat_numeral fact_numeral power_divide)
  then have l2: "ln R \<le> 0.096289061" using R1 R2 by (intro ln_upper) simp_all
  define d where "d = (a - b) - ln R"
  have amb: "a - b = cf * (16.46 / 137350000)" unfolding ae be by (simp add: algebra_simps)
  have d0: "0 < d" using v(2) by (simp add: d_def R_def)
  define q where "q = (a - b) / d"
  have "5.7522014 * d \<le> a - b" using cf l1 l2 unfolding d_def amb by simp
  then have q1: "5.7522014 \<le> q" unfolding q_def using d0 by (simp only: pos_le_divide_eq)
  have "a - b \<le> 5.7522027 * d" using cf l1 l2 unfolding d_def amb by simp
  then have q2: "q \<le> 5.7522027" unfolding q_def using d0 by (simp only: pos_divide_le_eq)
  have cfl: "972556.89 \<le> cf" and cfh: "cf \<le> 972556.90" using cf by simp_all
  have c1: "5594343 \<le> cf * q"
    using prod_bounds(1) [OF cfl cfh q1 q2] cfl q1 by simp
  have c2: "cf * q \<le> 5594345"
    using prod_bounds(3) [OF cfl cfh q1 q2] cfh q2 cfl by simp
  have "Cef cf a b = Inr (Some (cf * q))"
    using v(1) [of cf] by (simp only: q_def d_def R_def)
  then show ?thesis using c1 c2 unfolding a_def b_def by blast
qed

lemma mu_interval:
  fixes ksn csn kf c :: real
  assumes k: "ksn * csn = 41041.31328"
    and kf: "1.87123220 \<le> kf \<and> kf \<le> 1.87123221"
    and c: "5594343 \<le> c \<and> c \<le> 5594345"
  shows "\<exists>m. mu ksn csn kf (Some c) = Some m \<and> - 0.88215106 \<le> m \<and> m \<le> - 0.88215055"
proof -
  define a where "a = sqrt (ksn * csn)"
  define b where "b = sqrt (kf * c)"
  have k0: "0 < ksn * csn" unfolding k by simp
  have kfl: "1.87123220 \<le> kf" and kfh: "kf \<le> 1.87123221" using kf by simp_all
  have cl: "5594343 \<le> c" and ch: "c \<le> 5594345" using c by simp_all
  have f1: "10468314 \<le> kf * c"
    using prod_bounds(1) [OF kfl kfh cl ch] kfl cl by simp
  have f2: "kf * c \<le> 10468319"
    using prod_bounds(3) [OF kfl kfh cl ch] kfh ch by simp
  have f0: "0 < kf * c" using f1 by simp
  have a: "202.586557 \<le> a \<and> a \<le> 202.586558"
    unfolding a_def k by (rule sqrt_interval) (simp_all add: power2_eq_square)
  have b: "3235.4773 \<le> b \<and> b \<le> 3235.4782"
    unfolding b_def using f1 f2 by (intro sqrt_interval) (simp_all add: power2_eq_square)
  have ab: "0 < a + b" using a b by simp
  have al: "202.586557 \<le> a" and ah: "a \<le> 202.586558" using a by simp_all
  have bl: "3235.4773 \<le> b" and bh: "b \<le> 3235.4782" using b by simp_all
  have m: "- 0.88215106 \<le> (a - b) / (a + b) \<and> (a - b) / (a + b) \<le> - 0.88215055"
    using ab al ah bl bh by (intro quotient_interval) (simp_all add: add_divide_distrib)
  show ?thesis
    using mu_value(1) [OF k0 f0] m unfolding a_def b_def by blast
qed

lemma reference_exp:
  fixes y :: real
  assumes y: "0.43762947 \<le> y \<and> y \<le> 0.43762948"
  shows "1.54903083 \<le> exp y \<and> exp y \<le> 1.54903086"
  using y by (rule exp_interval [where n = 10 and k = 10])
    (simp_all add: lessThan_Suc eval_nat_numeral fact_numeral power_divide)

lemma reference_cos:
  fixes y :: real
  assumes y: "0.43762947 \<le> y \<and> y \<le> 0.43762948"
  shows "0.90575881 \<le> cos y \<and> cos y \<le> 0.90575883"
  using y by (rule cos_interval [where n = 10 and k = 10])
    (simp_all add: lessThan_Suc eval_nat_numeral fact_numeral power_divide cos_coeff_Suc sin_coeff_Suc)

lemma damping_interval:
  fixes m y :: real
  assumes m: "- 0.88215106 \<le> m \<and> m \<le> - 0.88215055"
    and y: "0.43762947 \<le> y \<and> y \<le> 0.43762948"
  shows "0.4533704 \<le> damping m y \<and> damping m y \<le> 0.4533722"
proof -
  define e where "e = exp y"
  define c where "c = cos y"
  define e' where "e' = 1 / e"
  have ml: "- 0.88215106 \<le> m" and mh: "m \<le> - 0.88215055" using m by simp_all
  have el: "1.54903083 \<le> e" and eh: "e \<le> 1.54903086"
    using reference_exp [OF y] by (simp_all add: e_def)
  have cl: "0.90575881 \<le> c" and ch: "c \<le> 0.90575883"
    using reference_cos [OF y] by (simp_all add: c_def)
  have e0: "0 < e" by (simp add: e_def)
  have "0.64556493 \<le> 1 / e \<and> 1 / e \<le> 0.64556495"
    using e0 el eh by (intro quotient_interval) simp_all
  then have e'l: "0.64556493 \<le> e'" and e'h: "e' \<le> 0.64556495" by (simp_all add: e'_def)
  have "- 0.79901612 \<le> m * c \<and> m * c \<le> - 0.79901563"
    by (rule prod_interval [OF ml mh cl ch]) simp_all
  then have mcl: "- 0.79901612 \<le> m * c" and mch: "m * c \<le> - 0.79901563" by simp_all
  have "0.77818959 \<le> m * m \<and> m * m \<le> 0.77819050"
    by (rule prod_interval [OF ml mh ml mh]) simp_all
  then have mml: "0.77818959 \<le> m * m" and mmh: "m * m \<le> 0.77819050" by simp_all
  have "0.50237190 \<le> (m * m) * e' \<and> (m * m) * e' \<le> 0.50237252"
    by (rule prod_interval [OF mml mmh e'l e'h]) simp_all
  then have p: "0.50237190 \<le> (m * m) * e'" "(m * m) * e' \<le> 0.50237252" by simp_all
  have d: "damping m y = e + 2 * (m * c) + (m * m) * e'"
    by (simp add: damping_def e_def c_def e'_def power2_eq_square exp_minus inverse_eq_divide)
  show ?thesis unfolding d using el eh mcl mch p by simp
qed

lemma reference_depth:
  fixes H csn ksn :: real
  assumes H: "H = 0.28" and csn: "csn = 501600" and ksn: "ksn = 0.0818208"
  shows "0.43762947 \<le> 2 * H * sqrt (pi * csn / (tao * ksn)) \<and>
    2 * H * sqrt (pi * csn / (tao * ksn)) \<le> 0.43762948"
proof -
  have p: "3.14159265 < pi" "pi < 3.14159266" using pi_bounds by simp_all
  define x where "x = pi * csn / (tao * ksn)"
  have "0.610712869 \<le> x \<and> x \<le> 0.610712871"
    unfolding x_def csn ksn tao_def using p by (intro quotient_interval) simp_all
  then have xl: "0.610712869 \<le> x" and xh: "x \<le> 0.610712871" by simp_all
  have "0.78148120 \<le> sqrt x \<and> sqrt x \<le> 0.78148121"
    using xl xh by (intro sqrt_interval) (simp_all add: power2_eq_square)
  then show ?thesis unfolding x_def [symmetric] H by simp
qed

lemma snow_amplitude_interval:
  fixes m s' rho A :: real
  assumes m: "- 0.88215106 \<le> m \<and> m \<le> - 0.88215055"
    and s: "0.4533704 \<le> s' \<and> s' \<le> 0.4533722"
    and rho: "0.69218678 \<le> rho \<and> rho \<le> 0.69218679"
    and A: "A = 19.04"
  shows "5.436267 \<le> A * (1 - (1 + m) / sqrt s') * (tao * rho) / tao * 0.5 \<and>
    A * (1 - (1 + m) / sqrt s') * (tao * rho) / tao * 0.5 \<le> 5.436277"
proof -
  define r where "r = sqrt s'"
  define q where "q = (1 + m) / r"
  have ml: "- 0.88215106 \<le> m" and mh: "m \<le> - 0.88215055" using m by simp_all
  have sl: "0.4533704 \<le> s'" and sh: "s' \<le> 0.4533722" using s by simp_all
  have "0.6733278 \<le> r \<and> r \<le> 0.6733292"
    unfolding r_def using sl sh by (intro sqrt_interval) (simp_all add: power2_eq_square)
  then have rl: "0.6733278 \<le> r" and rh: "r \<le> 0.6733292" by simp_all
  have r0: "0 < r" using rl by simp
  have "0.1750242 \<le> q \<and> q \<le> 0.1750254"
    unfolding q_def using r0 rl rh ml mh by (intro quotient_interval) simp_all
  then have ql: "0.8249746 \<le> 1 - q" and qh: "1 - q \<le> 0.8249758" by simp_all
  have rhol: "0.69218678 \<le> rho" and rhoh: "rho \<le> 0.69218679" using rho by simp_all
  have "0.5710365 \<le> (1 - q) * rho \<and> (1 - q) * rho \<le> 0.5710374"
    by (rule prod_interval [OF ql qh rhol rhoh]) simp_all
  then have pl: "0.5710365 \<le> (1 - q) * rho" and ph: "(1 - q) * rho \<le> 0.5710374" by simp_all
  have "A * (1 - (1 + m) / sqrt s') * (tao * rho) / tao * 0.5 = 9.52 * ((1 - q) * rho)"
    using tao_pos unfolding A q_def r_def by simp
  then show ?thesis using pl ph by simp
qed

lemma snow_shift_interval:
  fixes d :: real
  assumes d: "5.436267 \<le> d \<and> d \<le> 5.436277"
  shows "3.460835 \<le> 2 / pi * d \<and> 2 / pi * d \<le> 3.460842"
proof -
  have p: "3.14159265 < pi" "pi < 3.14159266" using pi_bounds by simp_all
  have p0: "0 < pi" by simp
  have dl: "5.436267 \<le> d" and dh: "d \<le> 5.436277" using d by simp_all
  have "3.460835 \<le> 2 * d / pi \<and> 2 * d / pi \<le> 3.460842"
    using p0 p dl dh by (intro quotient_interval) simp_all
  then show ?thesis by simp
qed

lemma reference_properties:
  "\<exists>p rho. properties reference = Inr p \<and>
     972556.89 \<le> pCf p \<and> pCf p \<le> 972556.90 \<and>
     973444.54 \<le> pCt p \<and> pCt p \<le> 973444.55 \<and>
     1.87123220 \<le> pKf p \<and> pKf p \<le> 1.87123221 \<and>
     1.52933958 \<le> pKt p \<and> pKt p \<le> 1.52933959 \<and>
     pKsn p = 0.0818208 \<and> pCsn p = 501600 \<and> pL p = 137350000 \<and>
     ptao1 p = Some (tao * rho) \<and> ptao2 p = Some (tao - tao * rho) \<and>
     0 < tao * rho \<and> 0 < tao - tao * rho \<and> 0.69218678 \<le> rho \<and> rho \<le> 0.69218679"
proof -
  obtain rho where t: "tao1 (Ta reference) (Aa reference) = Inr (Some (tao * rho))"
    and r: "0 < tao * rho" "0 < tao - tao * rho" "0.69218678 \<le> rho" "rho \<le> 0.69218679"
    using reference_tao1 [of "Ta reference" "Aa reference"] by (auto simp: reference_def)
  define p where "p = \<lparr>pCt = Ct (Heat_Capacity 0.1 0.6 0.3) (Bulk_Density 0.1 0.6 0.3) 0.41,
      pCf = Cf (Heat_Capacity 0.1 0.6 0.3) (Bulk_Density 0.1 0.6 0.3) 0.41,
      pKt = Kt 0.3 0.1 0.6, pKf = Kf 0.3 0.1 0.6,
      pKsn = 0.0818208, pCsn = 501600, pL = 137350000,
      ptao1 = Some (tao * rho), ptao2 = Some (tao - tao * rho)\<rparr>"
  have e: "properties reference = Inr p"
    unfolding properties_def Let_def t
    by (simp add: p_def tao2_def reference_def Ksn_def Csn_def L_def)
  have f: "pCf p = Cf (Heat_Capacity 0.1 0.6 0.3) (Bulk_Density 0.1 0.6 0.3) 0.41"
      "pCt p = Ct (Heat_Capacity 0.1 0.6 0.3) (Bulk_Density 0.1 0.6 0.3) 0.41"
      "pKf p = Kf 0.3 0.1 0.6" "pKt p = Kt 0.3 0.1 0.6"
    by (simp_all add: p_def)
  have g: "pKsn p = 0.0818208" "pCsn p = 501600" "pL p = 137350000"
      "ptao1 p = Some (tao * rho)" "ptao2 p = Some (tao - tao * rho)"
    by (simp_all add: p_def)
  show ?thesis
    using e reference_Cf reference_Ct reference_Kf reference_Kt g r
    unfolding f [symmetric] by blast
qed

lemma reference_boundary:
  "\<exists>p t a. properties reference = Inr p \<and>
     ground_surface (cell4_args reference p) = Inr (Some t, Some a) \<and>
     - 7.349165 \<le> t \<and> t \<le> - 7.349158 \<and> 13.603723 \<le> a \<and> a \<le> 13.603733 \<and>
     972556.89 \<le> pCf p \<and> pCf p \<le> 972556.90 \<and>
     973444.54 \<le> pCt p \<and> pCt p \<le> 973444.55 \<and>
     1.87123220 \<le> pKf p \<and> pKf p \<le> 1.87123221 \<and>
     1.52933958 \<le> pKt p \<and> pKt p \<le> 1.52933959 \<and> pL p = 137350000"
proof -
  from reference_properties obtain p rho where p: "properties reference = Inr p"
    and cf: "972556.89 \<le> pCf p \<and> pCf p \<le> 972556.90"
    and ct: "973444.54 \<le> pCt p \<and> pCt p \<le> 973444.55"
    and kf: "1.87123220 \<le> pKf p \<and> pKf p \<le> 1.87123221"
    and kt: "1.52933958 \<le> pKt p \<and> pKt p \<le> 1.52933959"
    and k: "pKsn p = 0.0818208" "pCsn p = 501600" and L: "pL p = 137350000"
    and t: "ptao1 p = Some (tao * rho)" "ptao2 p = Some (tao - tao * rho)"
    and r: "0 < tao * rho" "0 < tao - tao * rho"
    and rho: "0.69218678 \<le> rho \<and> rho \<le> 0.69218679"
    by blast
  define g where "g = cell4_args reference p"
  have A: "sAa g = 19.04" and T: "sTa g = - 10.81" and H: "sHsn g = 0.28"
    and V: "sHvg1 g = 0" "sHvg2 g = 0" and Dv: "0 < sDvf g" "0 < sDvt g"
    by (simp_all add: g_def cell4_args_def reference_def)
  have s: "sCf g = pCf p" "sKf g = pKf p" "sKsn g = pKsn p" "sCsn g = pCsn p" "sL g = pL p"
    "stao1 g = ptao1 p" "stao2 g = ptao2 p"
    by (simp_all add: g_def cell4_args_def)
  have L0: "sL g \<noteq> 0" unfolding s L by simp
  from Cef_interval [OF cf A T L, folded s]
  obtain c where c: "Cef (sCf g) (2 * sAa g * sCf g / sL g) (2 * \<bar>sTa g\<bar> * sCf g / sL g)
      = Inr (Some c)" and cb: "5594343 \<le> c \<and> c \<le> 5594345"
    by blast
  have kk: "sKsn g * sCsn g = 41041.31328" unfolding s k by simp
  from mu_interval [OF kk kf [folded s] cb]
  obtain m where m: "mu (sKsn g) (sCsn g) (sKf g) (Some c) = Some m"
    and mb: "- 0.88215106 \<le> m \<and> m \<le> - 0.88215055"
    by blast
  have k0: "0 < sKsn g * sCsn g" unfolding kk by simp
  define y where "y = 2 * sHsn g * sqrt (pi * sCsn g / (tao * sKsn g))"
  have yb: "0.43762947 \<le> y \<and> y \<le> 0.43762948"
    unfolding y_def by (rule reference_depth [OF H s(4) [unfolded k] s(3) [unfolded k]])
  note db = damping_interval [OF mb yb]
  have d0: "0 < damping m y" using db by simp
  define d where "d = sAa g * (1 - (1 + m) / sqrt (damping m y)) * (tao * rho) / tao * 0.5"
  have sn: "snow g = Inr (Some d, Some (2 / pi * d))"
    unfolding d_def y_def
    by (rule snow_eq [OF L0 c m k0 d0 [unfolded y_def] s(6) [unfolded t]])
  have dd: "5.436267 \<le> d \<and> d \<le> 5.436277"
    unfolding d_def by (rule snow_amplitude_interval [OF mb db rho A])
  note ee = snow_shift_interval [OF dd]
  have p1: "0 < sDvf g * (tao * rho)" and p2: "0 < sDvt g * (tao - tao * rho)"
    using Dv r by simp_all
  have vg: "vegetation g (Some d) (Some (2 / pi * d))
      = (Some (sTa g + 2 / pi * d), Some (sAa g - d))"
    by (simp only: vegetation_eq [OF s(6) [unfolded t] s(7) [unfolded t] p1 p2] V)
      simp
  have gs: "ground_surface g = Inr (Some (sTa g + 2 / pi * d), Some (sAa g - d))"
    by (simp only: ground_surface_def sn vg sum.case prod.case)
  have "- 7.349165 \<le> sTa g + 2 / pi * d \<and> sTa g + 2 / pi * d \<le> - 7.349158"
    unfolding T using ee by simp
  moreover have "13.603723 \<le> sAa g - d \<and> sAa g - d \<le> 13.603733"
    unfolding A using dd by simp
  ultimately show ?thesis
    using p gs cf ct kf kt L unfolding g_def by blast
qed


subsection \<open>Solver of the reference run\<close>

lemma reference_ratio_arcsin:
  fixes r :: real
  assumes r: "- 0.5402319 \<le> r \<and> r \<le> - 0.5402309"
  shows "- 0.5707127 \<le> arcsin r \<and> arcsin r \<le> - 0.5707114"
proof (rule arcsin_bounds)
  have pb: "3 < pi" using pi_bounds by simp
  show "- 1 \<le> r" "r \<le> 1" using r by simp_all
  show "- (pi / 2) \<le> - 0.5707127" "- 0.5707114 \<le> pi / 2" using pb by simp_all
  show "(- 0.5707127::real) \<le> - 0.5707114" by simp
  have "sin (- 0.5707127) \<le> (- 0.5402319::real) \<and> (- 0.5402309::real) \<le> sin (- 0.5707114)"
    by (rule sin_interval [where n = 10 and k = 10])
      (simp_all add: lessThan_Suc eval_nat_numeral fact_numeral power_divide
        cos_coeff_Suc sin_coeff_Suc)
  then show "sin (- 0.5707127) \<le> r" "r \<le> sin (- 0.5707114)" using r by linarith+
qed

lemma Tps_numerator_interval:
  fixes t a kf kt :: real
  assumes t: "- 7.349165 \<le> t \<and> t \<le> - 7.349158"
    and a: "13.603723 \<le> a \<and> a \<le> 13.603733"
    and kf: "1.87123220 \<le> kf \<and> kf \<le> 1.87123221"
    and kt: "1.52933958 \<le> kt \<and> kt \<le> 1.52933959"
  shows "\<exists>n. Tps_numerator (Some t) (Some a) kf kt = Some n \<and>
    - 14.392582 \<le> n \<and> n \<le> - 14.392563"
proof -
  have p: "3.14159265 \<le> pi" "pi \<le> 3.14159266" using pi_bounds by simp_all
  have p0: "0 < pi" by simp
  have tl: "- 7.349165 \<le> t" and th: "t \<le> - 7.349158" using t by simp_all
  have al: "13.603723 \<le> a" and ah: "a \<le> 13.603733" using a by simp_all
  have a0: "0 < a" using al by simp
  define r where "r = t / a"
  define w where "w = arcsin r"
  have rb: "- 0.5402319 \<le> r \<and> r \<le> - 0.5402309"
    unfolding r_def using a0 tl th al ah by (intro quotient_interval) simp_all
  then have rl: "- 0.5402319 \<le> r" and rh: "r \<le> - 0.5402309" by simp_all
  have wl: "- 0.5707127 \<le> w" and wh: "w \<le> - 0.5707114"
    using reference_ratio_arcsin [OF rb] by (simp_all add: w_def)
  have "0.3083159 \<le> r * w \<and> r * w \<le> 0.3083173"
    by (rule prod_interval [OF rl rh wl wh]) simp_all
  then have rwl: "0.3083159 \<le> r * w" and rwh: "r * w \<le> 0.3083173" by simp_all
  have "9.8696043 \<le> pi * pi \<and> pi * pi \<le> 9.8696045"
    by (rule prod_interval [OF p p]) simp_all
  then have ppl: "9.8696043 \<le> pi * pi" and pph: "pi * pi \<le> 9.8696045" by simp_all
  have "185.06127 \<le> a * a \<and> a * a \<le> 185.06156"
    by (rule prod_interval [OF al ah al ah]) simp_all
  then have aal: "185.06127 \<le> a * a" and aah: "a * a \<le> 185.06156" by simp_all
  have aa0: "0 < a * a" using aal by simp
  define q where "q = pi * pi / (a * a)"
  have "0.0533314 \<le> q \<and> q \<le> 0.0533316"
    unfolding q_def using aa0 aal aah ppl pph by (intro quotient_interval) simp_all
  then have ql: "0.0533314 \<le> q" and qh: "q \<le> 0.0533316" by simp_all
  define sq where "sq = sqrt (1 - q)"
  have "0.9729688 \<le> sq \<and> sq \<le> 0.9729690"
    unfolding sq_def using ql qh by (intro sqrt_interval) (simp_all add: power2_eq_square)
  then have sl: "1.2812847 \<le> r * w + sq" and sh: "r * w + sq \<le> 1.2812863"
    using rwl rwh by simp_all
  have kdl: "- 0.34189263 \<le> kt - kf" and kdh: "kt - kf \<le> - 0.34189261"
    using kf kt by simp_all
  have "- 4.6510161 \<le> a * (kt - kf) \<and> a * (kt - kf) \<le> - 4.6510123"
    by (rule prod_interval [OF al ah kdl kdh]) simp_all
  then have akl: "- 4.6510161 \<le> a * (kt - kf)" and akh: "a * (kt - kf) \<le> - 4.6510123"
    by simp_all
  have "- 1.480465 \<le> a * (kt - kf) / pi \<and> a * (kt - kf) / pi \<le> - 1.480463"
    using p0 p akl akh by (intro quotient_interval) simp_all
  then have fl: "- 1.480465 \<le> a * (kt - kf) / pi" and fh: "a * (kt - kf) / pi \<le> - 1.480463"
    by simp_all
  have "- 1.896900 \<le> a * (kt - kf) / pi * (r * w + sq) \<and>
      a * (kt - kf) / pi * (r * w + sq) \<le> - 1.896894"
    by (rule prod_interval [OF fl fh sl sh]) simp_all
  then have tel: "- 1.896900 \<le> a * (kt - kf) / pi * (r * w + sq)"
    and teh: "a * (kt - kf) / pi * (r * w + sq) \<le> - 1.896894" by simp_all
  have ksl: "3.40057178 \<le> kf + kt" and ksh: "kf + kt \<le> 3.40057180" using kf kt by simp_all
  have "- 24.991364 \<le> t * (kf + kt) \<and> t * (kf + kt) \<le> - 24.991339"
    by (rule prod_interval [OF tl th ksl ksh]) simp_all
  then have hl: "- 24.991364 \<le> t * (kf + kt)" and hh: "t * (kf + kt) \<le> - 24.991339"
    by simp_all
  define n where "n = 0.5 * t * (kf + kt) + (a * (kt - kf) / pi * (r * w + sq))"
  have ne: "n = 0.5 * (t * (kf + kt)) + a * (kt - kf) / pi * (r * w + sq)"
    by (simp add: n_def)
  have nb: "- 14.392582 \<le> n \<and> n \<le> - 14.392563"
    unfolding ne using hl hh tel teh by simp
  have d1: "np_div t a = Some r" using a0 by (simp add: np_div_def r_def)
  have d2: "np_arcsin r = Some w" using rl rh by (simp add: np_arcsin_def w_def)
  have d3: "np_div (pi * pi) (a * a) = Some q" using a0 by (simp add: np_div_def q_def)
  have d4: "np_sqrt (1 - q) = Some sq" using qh by (simp add: np_sqrt_def sq_def)
  have "Tps_numerator (Some t) (Some a) kf kt = Some n"
    by (simp only: Tps_numerator_def Option.bind.simps d1 d2 d3 d4 n_def)
  then show ?thesis using nb by blast
qed

lemma Aps_interval:
  fixes a tp cf L' :: real
  assumes a: "13.603723 \<le> a \<and> a \<le> 13.603733"
    and tp: "- 7.691500 \<le> tp \<and> tp \<le> - 7.691489"
    and cf: "972556.89 \<le> cf \<and> cf \<le> 972556.90"
    and L: "L' = 137350000"
  shows "\<exists>p. Aps (Some a) (Some tp) L' cf = Inr (Some p) \<and> 10.61145 \<le> p \<and> p \<le> 10.61205"
proof -
  have al: "13.603723 \<le> a" and ah: "a \<le> 13.603733" using a by simp_all
  have cfl: "972556.89 \<le> cf" and cfh: "cf \<le> 972556.90" using cf by simp_all
  have cf0: "0 < 2 * cf" using cfl by simp
  define v where "v = \<bar>tp\<bar>"
  have vl: "7.691489 \<le> v" and vh: "v \<le> 7.691500" using tp by (simp_all add: v_def)
  define c where "c = L' / (2 * cf)"
  have "70.6128350 \<le> c \<and> c \<le> 70.6128359"
    unfolding c_def L using cf0 cfl cfh by (intro quotient_interval) simp_all
  then have cl: "70.6128350 \<le> c" and ch: "c \<le> 70.6128359" by simp_all
  define R where "R = (a + c) / (v + c)"
  have vc: "0 < v + c" using vl cl by simp
  have "1.075503136 \<le> R \<and> R \<le> 1.075503417"
    unfolding R_def using vc al ah vl vh cl ch
    by (intro quotient_interval) (simp_all add: add_divide_distrib)
  then have Rl: "1.075503136 \<le> R" and Rh: "R \<le> 1.075503417" by simp_all
  have R0: "0 < R" using Rl by simp
  define l where "l = ln R"
  have "exp (0.072788585::real) \<le> 1.075503136"
    by (rule exp_upper_at [where n = 8])
      (simp_all add: lessThan_Suc eval_nat_numeral fact_numeral power_divide)
  then have ll: "0.072788585 \<le> l" unfolding l_def using Rl by (intro ln_lower) simp
  have "(1.075503417::real) \<le> exp 0.072788847"
    by (rule exp_lower_at [where n = 8])
      (simp_all add: lessThan_Suc eval_nat_numeral fact_numeral power_divide)
  then have lh: "l \<le> 0.072788847" unfolding l_def using R0 Rh by (intro ln_upper) simp_all
  have l0: "0 < l" using ll by simp
  define Q where "Q = (a - v) / l"
  have "81.22429 \<le> Q \<and> Q \<le> 81.22488"
    unfolding Q_def using l0 ll lh al ah vl vh by (intro quotient_interval) simp_all
  then have pb: "10.61145 \<le> Q - c \<and> Q - c \<le> 10.61205" using cl ch by simp
  have n0: "(2 * cf = 0) = False" "(v + c = 0) = False" "(a + c = 0) = False"
    using cf0 vc al cl by simp_all
  have d1: "np_div (a + c) (v + c) = Some R" using vc by (simp add: np_div_def R_def)
  have d2: "np_log R = Some l" using R0 by (simp add: np_log_def l_def)
  have d3: "np_div (a - v) l = Some Q" using l0 by (simp add: np_div_def Q_def)
  have "Aps (Some a) (Some tp) L' cf = Inr (Some (Q - c))"
    by (simp only: Aps_def n0 if_False Option.bind.simps c_def [symmetric] v_def [symmetric]
        d1 d2 d3)
  then show ?thesis using pb by blast
qed

lemma Zal_interval:
  fixes a tp p kf cf L' :: real
  assumes a: "13.603723 \<le> a \<and> a \<le> 13.603733"
    and tp: "- 7.691500 \<le> tp \<and> tp \<le> - 7.691489"
    and p: "10.61145 \<le> p \<and> p \<le> 10.61205"
    and kf: "1.87123220 \<le> kf \<and> kf \<le> 1.87123221"
    and cf: "972556.89 \<le> cf \<and> cf \<le> 972556.90"
    and L: "L' = 137350000"
  shows "\<exists>z0 z. Zc (Some a) (Some tp) (Some p) kf cf L' = Some z0 \<and>
    Zal (Some a) (Some tp) (Some p) (Some z0) kf cf L' = Inr (Some z) \<and>
    0.578465 \<le> z \<and> z \<le> 0.578474"
proof -
  have pi: "3.14159265 \<le> pi" "pi \<le> 3.14159266" using pi_bounds by simp_all
  have pi0: "0 < pi" by simp
  have al: "13.603723 \<le> a" and ah: "a \<le> 13.603733" using a by simp_all
  have pl: "10.61145 \<le> p" and ph: "p \<le> 10.61205" using p by simp_all
  have kfl: "1.87123220 \<le> kf" and kfh: "kf \<le> 1.87123221" using kf by simp_all
  have cfl: "972556.89 \<le> cf" and cfh: "cf \<le> 972556.90" using cf by simp_all
  define v where "v = a - \<bar>tp\<bar>"
  have vl: "5.912223 \<le> v" and vh: "v \<le> 5.912244" using tp al ah by (simp_all add: v_def)
  define kc where "kc = kf * cf"
  have "1819879.76 \<le> kc \<and> kc \<le> 1819879.80"
    unfolding kc_def by (rule prod_interval [OF kfl kfh cfl cfh]) simp_all
  then have kcl: "1819879.76 \<le> kc" and kch: "kc \<le> 1819879.80" by simp_all
  define x1 where "x1 = kf * tao * cf / pi"
  have x1e: "x1 = kc * 31536000 / pi" by (simp add: x1_def tao_def kc_def)
  have "18268354400000 \<le> x1 \<and> x1 \<le> 18268354870000"
    unfolding x1e using pi0 pi kcl kch by (intro quotient_interval) simp_all
  then have x1l: "18268354400000 \<le> x1" and x1h: "x1 \<le> 18268354870000" by simp_all
  define r1 where "r1 = sqrt x1"
  have "4274149.5 \<le> r1 \<and> r1 \<le> 4274149.7"
    unfolding r1_def using x1l x1h by (intro sqrt_interval) (simp_all add: power2_eq_square)
  then have r1l: "4274149.5 \<le> r1" and r1h: "r1 \<le> 4274149.7" by simp_all
  define pc where "pc = pi * cf"
  have "3055377.57 \<le> pc \<and> pc \<le> 3055377.62"
    unfolding pc_def by (rule prod_interval [OF pi cfl cfh]) simp_all
  then have pcl: "3055377.57 \<le> pc" and pch: "pc \<le> 3055377.62" by simp_all
  have pc0: "0 < pc" using pcl by simp
  define x2 where "x2 = kf * tao / (pi * cf)"
  have x2e: "x2 = kf * 31536000 / pc" by (simp add: x2_def tao_def pc_def)
  have "19.313874 \<le> x2 \<and> x2 \<le> 19.313875"
    unfolding x2e using pc0 pcl pch kfl kfh by (intro quotient_interval) simp_all
  then have x2l: "19.313874 \<le> x2" and x2h: "x2 \<le> 19.313875" by simp_all
  define r2 where "r2 = sqrt x2"
  have "4.394755 \<le> r2 \<and> r2 \<le> 4.394756"
    unfolding r2_def using x2l x2h by (intro sqrt_interval) (simp_all add: power2_eq_square)
  then have r2l: "4.394755 \<le> r2" and r2h: "r2 \<le> 4.394756" by simp_all
  define pcf where "pcf = p * cf"
  have "10320238 \<le> pcf \<and> pcf \<le> 10320823"
    unfolding pcf_def by (rule prod_interval [OF pl ph cfl cfh]) simp_all
  then have pcfl: "10320238 \<le> pcf" and pcfh: "pcf \<le> 10320823" by simp_all
  define D where "D = 2 * p * cf + L'"
  have De: "D = 2 * pcf + 137350000" by (simp add: D_def L pcf_def)
  have Dl: "157990476 \<le> D" and Dh: "D \<le> 157991646" unfolding De using pcfl pcfh by simp_all
  have D0: "0 < D" using Dl by simp
  define vr where "vr = v * r1"
  have "25269724 \<le> vr \<and> vr \<le> 25269816"
    unfolding vr_def by (rule prod_interval [OF vl vh r1l r1h]) simp_all
  then have vrl: "25269724 \<le> vr" and vrh: "vr \<le> 25269816" by simp_all
  define X where "X = 2 * v * r1"
  have Xe: "X = 2 * vr" by (simp add: X_def vr_def)
  have Xl: "50539448 \<le> X" and Xh: "X \<le> 50539632" unfolding Xe using vrl vrh by simp_all
  define z0 where "z0 = X / D"
  have "0.319886 \<le> z0 \<and> z0 \<le> 0.319891"
    unfolding z0_def using D0 Dl Dh Xl Xh by (intro quotient_interval) simp_all
  then have z0l: "0.319886 \<le> z0" and z0h: "z0 \<le> 0.319891" by simp_all
  have Dz: "D * z0 = X" using D0 by (simp add: z0_def)
  define Xr where "Xr = X * r2"
  have "222108491 \<le> Xr \<and> Xr \<le> 222109351"
    unfolding Xr_def by (rule prod_interval [OF Xl Xh r2l r2h]) simp_all
  then have Xrl: "222108491 \<le> Xr" and Xrh: "Xr \<le> 222109351" by simp_all
  define N where "N = (2 * p * cf * z0 + L' * z0) * L' * r2"
  have "N = (D * z0) * L' * r2" by (simp add: N_def D_def algebra_simps)
  then have Ne: "N = Xr * 137350000" by (simp add: Dz L Xr_def)
  define acf where "acf = a * cf"
  have "13230394 \<le> acf \<and> acf \<le> 13230405"
    unfolding acf_def by (rule prod_interval [OF al ah cfl cfh]) simp_all
  then have acfl: "13230394 \<le> acf" and acfh: "acf \<le> 13230405" by simp_all
  define E where "E = 2 * acf + 137350000"
  have El: "163810788 \<le> E" and Eh: "E \<le> 163810810" using acfl acfh by (simp_all add: E_def)
  define Ez where "Ez = E * z0"
  have "52400777 \<le> Ez \<and> Ez \<le> 52401604"
    unfolding Ez_def by (rule prod_interval [OF El Eh z0l z0h]) simp_all
  then have Ezl: "52400777 \<le> Ez" and Ezh: "Ez \<le> 52401604" by simp_all
  define Dr where "Dr = D * r2"
  have "694329434 \<le> Dr \<and> Dr \<le> 694334735"
    unfolding Dr_def by (rule prod_interval [OF Dl Dh r2l r2h]) simp_all
  then have Drl: "694329434 \<le> Dr" and Drh: "Dr \<le> 694334735" by simp_all
  define M where "M = 2 * a * cf * z0 + L' * z0 + D * r2"
  have Me: "M = Ez + Dr"
    by (simp add: M_def D_def L Ez_def E_def acf_def Dr_def algebra_simps)
  have Ml: "746730211 \<le> M" and Mh: "M \<le> 746736339"
    unfolding Me using Ezl Ezh Drl Drh by simp_all
  have M0: "0 < M" using Ml by simp
  define Y where "Y = N / M"
  have "40853243 \<le> Y \<and> Y \<le> 40853737"
    unfolding Y_def Ne using M0 Ml Mh Xrl Xrh by (intro quotient_interval) simp_all
  then have Yl: "40853243 \<le> Y" and Yh: "Y \<le> 40853737" by simp_all
  define z where "z = (X + Y) / D"
  have zb: "0.578465 \<le> z \<and> z \<le> 0.578474"
    unfolding z_def using D0 Dl Dh Xl Xh Yl Yh
    by (intro quotient_interval) (simp_all add: add_divide_distrib)
  have x10: "(x1 < 0) = False" using x1l by simp
  have x20: "(x2 < 0) = False" using x2l by simp
  have s1: "np_sqrt (kf * tao * cf / pi) = Some r1"
    by (simp only: np_sqrt_def x1_def [symmetric] x10 if_False r1_def)
  have s2: "np_sqrt (kf * tao / (pi * cf)) = Some r2"
    by (simp only: np_sqrt_def x2_def [symmetric] x20 if_False r2_def)
  have d1: "np_div X D = Some z0" using D0 by (simp add: np_div_def z0_def)
  have d2: "np_div N M = Some Y" using M0 by (simp add: np_div_def Y_def)
  have d3: "np_div (X + Y) D = Some z" using D0 by (simp add: np_div_def z_def)
  have n0: "(pi * cf = 0) = False" using cfl by simp
  have Zc: "Zc (Some a) (Some tp) (Some p) kf cf L' = Some z0"
    by (simp only: Zc_def Option.bind.simps s1 v_def [symmetric] X_def [symmetric]
        D_def [symmetric] d1)
  have "Zal (Some a) (Some tp) (Some p) (Some z0) kf cf L' = Inr (Some z)"
    by (simp only: Zal_def n0 if_False Option.bind.simps s1 s2 v_def [symmetric]
        X_def [symmetric] N_def [symmetric] D_def [symmetric] M_def [symmetric] d2 d3)
  with Zc zb show ?thesis by blast
qed

lemma reference_solver:
  fixes t a kf kt cf ct L' :: real
  assumes t: "- 7.349165 \<le> t \<and> t \<le> - 7.349158"
    and a: "13.603723 \<le> a \<and> a \<le> 13.603733"
    and kf: "1.87123220 \<le> kf \<and> kf \<le> 1.87123221"
    and kt: "1.52933958 \<le> kt \<and> kt \<le> 1.52933959"
    and cf: "972556.89 \<le> cf \<and> cf \<le> 972556.90"
    and L: "L' = 137350000"
  shows "\<exists>r tp z. solver (Some t) (Some a) kf kt cf ct L' = Inr r \<and> flag r = - 1 \<and>
    tps r = Some tp \<and> zal r = Some z \<and>
    - 7.691500 \<le> tp \<and> tp \<le> - 7.691489 \<and> 0.578465 \<le> z \<and> z \<le> 0.578474"
proof -
  from Tps_numerator_interval [OF t a kf kt]
  obtain n where n: "Tps_numerator (Some t) (Some a) kf kt = Some n"
    and nl: "- 14.392582 \<le> n" and nh: "n \<le> - 14.392563"
    by blast
  have kfl: "1.87123220 \<le> kf" and kfh: "kf \<le> 1.87123221" using kf by simp_all
  have kf0: "0 < kf" using kfl by simp
  have br: "branch (Some n) kf kt cf ct = \<lparr>K_star = kf, C = cf, K = kf, Flag = - 1\<rparr>"
    using nh by (simp add: branch_def np_le_def)
  define tp where "tp = n / kf"
  have tpb: "- 7.691500 \<le> tp \<and> tp \<le> - 7.691489"
    unfolding tp_def using kf0 kfl kfh nl nh by (intro quotient_interval) simp_all
  have T: "Tps (Some n) kf = Some tp" using kf0 by (simp add: Tps_def np_div_def tp_def)
  from Aps_interval [OF a tpb cf L]
  obtain p where A: "Aps (Some a) (Some tp) L' cf = Inr (Some p)"
    and pb: "10.61145 \<le> p \<and> p \<le> 10.61205"
    by blast
  from Zal_interval [OF a tpb pb kf cf L]
  obtain z0 z where Zc: "Zc (Some a) (Some tp) (Some p) kf cf L' = Some z0"
    and Zal: "Zal (Some a) (Some tp) (Some p) (Some z0) kf cf L' = Inr (Some z)"
    and zb: "0.578465 \<le> z \<and> z \<le> 0.578474"
    by blast
  have "solver (Some t) (Some a) kf kt cf ct L'
      = Inr \<lparr>flag = - 1, tps = Some tp, aps = Some p, zc = Some z0, zal = Some z\<rparr>"
    by (simp add: solver_def Let_def n br T A Zc Zal)
  then show ?thesis using tpb zb by auto
qed

lemma reference_program:
  "\<exists>t z. program reference = Inr \<lparr>TTOP = Some t, ALT = Some z\<rparr> \<and>
     - 7.691500 \<le> t \<and> t \<le> - 7.691489 \<and> 0.578465 \<le> z \<and> z \<le> 0.578474"
proof -
  from reference_boundary obtain p t a where p: "properties reference = Inr p"
    and g: "ground_surface (cell4_args reference p) = Inr (Some t, Some a)"
    and t: "- 7.349165 \<le> t \<and> t \<le> - 7.349158"
    and a: "13.603723 \<le> a \<and> a \<le> 13.603733"
    and cf: "972556.89 \<le> pCf p \<and> pCf p \<le> 972556.90"
    and kf: "1.87123220 \<le> pKf p \<and> pKf p \<le> 1.87123221"
    and kt: "1.52933958 \<le> pKt p \<and> pKt p \<le> 1.52933959"
    and L: "pL p = 137350000"
    by blast
  from reference_solver [OF t a kf kt cf L, of "pCt p"]
  obtain r tp z where r: "solver (Some t) (Some a) (pKf p) (pKt p) (pCf p) (pCt p) (pL p) = Inr r"
    and v: "tps r = Some tp" "zal r = Some z"
    and b: "- 7.691500 \<le> tp \<and> tp \<le> - 7.691489" "0.578465 \<le> z \<and> z \<le> 0.578474"
    by blast
  have "program reference = Inr \<lparr>TTOP = Some tp, ALT = Some z\<rparr>"
    by (simp add: program_def p g r v)
  then show ?thesis using b by blast
qed

text \<open>
  Claim C2 says that for the reference inputs (\<open>Ta = -10.81\<close>, \<open>Aa = 19.04\<close>, \<open>Hsn = 0.28\<close>,
  \<open>rho_sn = 240\<close>, \<open>W_vol = 0.41\<close>, \<open>Hvg1 = Hvg2 = 0\<close>, texture sand \<open>0.60\<close>, silt \<open>0.30\<close>,
  clay \<open>0.10\<close>, and the table of cell 2) the program produces \<open>Tps\<close> within \<open>1e-3\<close> of
  \<open>-7.69\<close> and \<open>Zal\<close> within \<open>1e-3\<close> of \<open>0.578\<close>. The first half fails: the program
  returns without an exception, and the \<open>Tps\<close> it prints is below \<open>-7.691\<close>, so it differs
  from \<open>-7.69\<close> by more than \<open>1e-3\<close> (by about \<open>1.5e-3\<close>; the notebook's own output is
  \<^verbatim>\<open>-7.69149521078\<close>).
\<close>

theorem reference_Tps_counterexample:
  "\<exists>t z. program reference = Inr \<lparr>TTOP = Some t, ALT = Some z\<rparr> \<and>
     \<not> \<bar>t - (- 7.69)\<bar> \<le> 0.001"
proof -
  from reference_program obtain t z
    where e: "program reference = Inr \<lparr>TTOP = Some t, ALT = Some z\<rparr>"
      and b: "t \<le> - 7.691489"
    by blast
  have "\<not> \<bar>t - (- 7.69)\<bar> \<le> 0.001" using b by simp
  with e show ?thesis by blast
qed

text \<open>
  Claim C2, amended: for the reference inputs the program returns without an exception and
  prints two numbers; \<open>Tps\<close> lies between \<open>-7.6915\<close> and \<open>-7.6914\<close>, hence within \<open>2e-3\<close>
  of \<open>-7.69\<close>, and \<open>Zal\<close> lies between \<open>0.5784\<close> and \<open>0.5785\<close>, hence within \<open>1e-3\<close> of
  \<open>0.578\<close>.
\<close>

theorem reference_run:
  "\<exists>t z. program reference = Inr \<lparr>TTOP = Some t, ALT = Some z\<rparr> \<and>
     - 7.6915 \<le> t \<and> t \<le> - 7.6914 \<and> \<bar>t - (- 7.69)\<bar> \<le> 0.002 \<and>
     0.5784 \<le> z \<and> z \<le> 0.5785 \<and> \<bar>z - 0.578\<bar> \<le> 0.001"
proof -
  from reference_program obtain t z
    where e: "program reference = Inr \<lparr>TTOP = Some t, ALT = Some z\<rparr>"
      and b: "- 7.691500 \<le> t" "t \<le> - 7.691489" "0.578465 \<le> z" "z \<le> 0.578474"
    by blast
  have "- 7.6915 \<le> t" "t \<le> - 7.6914" "\<bar>t - (- 7.69)\<bar> \<le> 0.002"
    "0.5784 \<le> z" "z \<le> 0.5785" "\<bar>z - 0.578\<bar> \<le> 0.001"
    using b by simp_all
  with e show ?thesis by blast
qed

end
